(* ===== verification/Lx_Prelude.thy ===== *)
theory Lx_Prelude
  imports Main "HOL-Library.Word" "HOL-Library.AList"
begin

text \<open>
  The part of the C++ language and of its standard library that the components
  share: searches in \<open>std::string\<close> (\<open>find\<close>, \<open>rfind\<close>, \<open>starts_with\<close>),
  erase-remove on \<open>std::vector\<close>, and \<open>std::map\<close>s as partial maps, together with the
  lemmas about lists, maps and machine words that carry the component proofs.

  The collection \<open>lx_inv\<close> holds the facts that say an operation keeps the
  invariant of its component.
\<close>

named_theorems lx_inv "operations preserve the invariant of their component"

type_synonym u8 = "8 word"
type_synonym u16 = "16 word"
type_synonym u32 = "32 word"
type_synonym u64 = "64 word"

abbreviation slash :: char where
  "slash \<equiv> CHR ''/''"

section \<open>Strings\<close>

text \<open>\<open>s.find(c)\<close>: the index of the first occurrence.\<close>

primrec str_find :: "'a \<Rightarrow> 'a list \<Rightarrow> nat option" where
  "str_find c [] = None"
| "str_find c (x # xs) = (if x = c then Some 0 else map_option Suc (str_find c xs))"

text \<open>\<open>s.rfind(c)\<close>: the index of the last occurrence.\<close>

definition str_rfind :: "'a \<Rightarrow> 'a list \<Rightarrow> nat option" where
  "str_rfind c s = map_option (\<lambda>i. length s - 1 - i) (str_find c (rev s))"

text \<open>\<open>s.starts_with(p)\<close>.\<close>

definition starts_with :: "'a list \<Rightarrow> 'a list \<Rightarrow> bool" where
  "starts_with s p \<longleftrightarrow> take (length p) s = p"

lemma str_find_notin [simp]: "c \<notin> set xs \<Longrightarrow> str_find c xs = None"
  by (induction xs) auto

lemma str_find_append [simp]: "c \<notin> set xs \<Longrightarrow> str_find c (xs @ c # ys) = Some (length xs)"
  by (induction xs) auto

lemma str_find_None_iff [simp]: "str_find c xs = None \<longleftrightarrow> c \<notin> set xs"
  by (induction xs) auto

lemma str_find_SomeD:
  "str_find c xs = Some i \<Longrightarrow> i < length xs \<and> xs ! i = c \<and> c \<notin> set (take i xs)"
  by (induction xs arbitrary: i) (auto split: if_splits)

lemma str_rfind_notin [simp]: "c \<notin> set xs \<Longrightarrow> str_rfind c xs = None"
  by (simp add: str_rfind_def)

lemma str_rfind_append [simp]: "c \<notin> set ys \<Longrightarrow> str_rfind c (xs @ c # ys) = Some (length xs)"
  using str_find_append [of c "rev ys" "rev xs"] by (simp add: str_rfind_def)

lemma str_rfind_SomeD:
  assumes "str_rfind c s = Some k"
  shows "k < length s \<and> s ! k = c \<and> c \<notin> set (drop (Suc k) s)"
proof -
  obtain i where i: "str_find c (rev s) = Some i" "k = length s - 1 - i"
    using assms by (auto simp: str_rfind_def)
  have D: "i < length s" "rev s ! i = c" "c \<notin> set (take i (rev s))" using str_find_SomeD [OF i(1)] by auto
  then have "s ! k = c" using i(2) by (simp add: rev_nth)
  moreover have "take i (rev s) = rev (drop (Suc k) s)" using D(1) i(2) by (simp add: take_rev Suc_diff_Suc)
  ultimately show ?thesis using D i(2) by auto
qed

lemma starts_with_append [simp]: "starts_with (p @ s) p"
  by (simp add: starts_with_def)

lemma starts_with_iff: "starts_with s p \<longleftrightarrow> (\<exists>t. s = p @ t)"
  by (metis append_eq_conv_conj append_take_drop_id starts_with_def)

lemma starts_with_refl [simp]: "starts_with s s"
  by (simp add: starts_with_def)

lemma starts_with_Nil [simp]: "starts_with s []"
  by (simp add: starts_with_def)

section \<open>Words\<close>

lemma unat_of_nat_small: "n < 2 ^ LENGTH('a) \<Longrightarrow> unat (of_nat n :: 'a::len word) = n"
  by (simp add: unat_of_nat)

lemma unat_and_not_mask: "unat (and a (not (mask k)) :: 'a::len word) = unat a - unat a mod 2 ^ k"
proof -
  have split: "and a (not (mask k)) + take_bit k a = a"
  proof -
    have "and a (not (mask k)) = push_bit k (drop_bit k a)"
      by (rule bit_eqI) (auto simp: bit_simps)
    then show ?thesis using bits_ident [of k a] by simp
  qed
  have "unat (take_bit k a) \<le> unat a" by (simp add: unsigned_take_bit_eq take_bit_nat_def)
  then have "take_bit k a \<le> a" by (simp add: word_le_nat_alt)
  from split have "and a (not (mask k)) = a - take_bit k a" by (simp add: algebra_simps)
  with \<open>take_bit k a \<le> a\<close> show ?thesis
    by (simp add: unat_sub unsigned_take_bit_eq take_bit_nat_def)
qed

lemma unat_plus_no_wrap:
  fixes a b :: "'a::len word"
  assumes "unat a + unat b < 2 ^ LENGTH('a)"
  shows "unat (a + b) = unat a + unat b"
  using assms by (simp add: unat_word_ariths)

lemma unat_lt_size [simp]:
  fixes a :: "64 word"
  shows "unat a < 18446744073709551616"
  using unsigned_less [of a, where ?'a = nat] by simp

section \<open>Maps\<close>

lemma map_of_filter_key:
  "map_of (filter (\<lambda>(k, v). P k) xs) k = (if P k then map_of xs k else None)"
  by (induction xs) auto

lemma map_ext_Some: "(\<And>k v. f k = Some v \<longleftrightarrow> g k = Some v) \<Longrightarrow> f = g"
  by (rule ext) (metis not_None_eq)

text \<open>\<open>std::map\<close> as an association list in key order: \<open>tm_update\<close> is \<open>m[k] = v\<close>, erasing
  a key is \<open>AList.delete\<close>.\<close>

fun tm_update :: "'k::linorder \<Rightarrow> 'v \<Rightarrow> ('k \<times> 'v) list \<Rightarrow> ('k \<times> 'v) list" where
  "tm_update k v [] = [(k, v)]"
| "tm_update k v ((k', v') # m) =
    (if k < k' then (k, v) # (k', v') # m
     else if k = k' then (k, v) # m
     else (k', v') # tm_update k v m)"

definition tm_wf :: "('k::linorder \<times> 'v) list \<Rightarrow> bool" where
  "tm_wf m \<longleftrightarrow> sorted_wrt (<) (map fst m)"

lemma tm_update_keys: "fst ` set (tm_update k v m) = insert k (fst ` set m)"
  by (induction k v m rule: tm_update.induct) auto

lemma map_of_tm_update [simp]: "map_of (tm_update k v m) = (map_of m)(k \<mapsto> v)"
  by (induction k v m rule: tm_update.induct) (auto simp: fun_eq_iff)

lemma tm_wf_update: "tm_wf m \<Longrightarrow> tm_wf (tm_update k v m)"
proof (induction k v m rule: tm_update.induct)
  case (2 k v k' v' m)
  have keys: "set (map fst (tm_update k v m)) = insert k (set (map fst m))"
    using tm_update_keys [of k v m] by simp
  show ?case
    using 2 keys by (auto simp: tm_wf_def simp del: set_map)
qed (simp add: tm_wf_def)

lemma tm_wf_delete: "tm_wf m \<Longrightarrow> tm_wf (AList.delete k m)"
  by (induction m) (auto simp: tm_wf_def AList.delete_eq)

lemma tm_wf_distinct: "tm_wf m \<Longrightarrow> distinct (map fst m)"
  by (induction m) (auto simp: tm_wf_def)

section \<open>Indices\<close>

lemma all_nonneg_less_iff:
  "(\<forall>h. 0 \<le> h \<longrightarrow> h < int n \<longrightarrow> P h) \<longleftrightarrow> (\<forall>k<n. P (int k))"
  by (metis nonneg_int_cases of_nat_less_iff of_nat_0_le_iff)

section \<open>Reading text files\<close>

abbreviation newline :: char where
  "newline \<equiv> CHR 0x0A"

abbreviation tab :: char where
  "tab \<equiv> CHR 0x09"

text \<open>One call of \<open>fgets\<close> with room for \<open>n\<close> characters: it stops after a newline, or
  when the buffer is full.\<close>

fun fgets_one :: "nat \<Rightarrow> string \<Rightarrow> string" where
  "fgets_one 0 cs = []"
| "fgets_one (Suc n) [] = []"
| "fgets_one (Suc n) (c # cs) = (if c = newline then [c] else c # fgets_one n cs)"

lemma fgets_one_length: "fgets_one n cs = take (length (fgets_one n cs)) cs"
  by (induction n cs rule: fgets_one.induct) auto

lemma fgets_one_nonempty: "n > 0 \<Longrightarrow> cs \<noteq> [] \<Longrightarrow> fgets_one n cs \<noteq> []"
  by (cases n; cases cs) auto

text \<open>The loop \<open>while (fgets(line, n + 1, f))\<close> over a whole file.\<close>

function fgets_lines :: "nat \<Rightarrow> string \<Rightarrow> string list" where
  "fgets_lines n cs =
    (if n = 0 \<or> cs = [] then []
     else let l = fgets_one n cs in l # fgets_lines n (drop (length l) cs))"
  by pat_completeness auto
termination
  by (relation "measure (\<lambda>(n, cs). length cs)") (auto simp: fgets_one_nonempty)

declare fgets_lines.simps [simp del]

lemma fgets_lines_Nil [simp]: "fgets_lines n [] = []"
  by (simp add: fgets_lines.simps)

lemma fgets_one_line:
  "newline \<notin> set l \<Longrightarrow> length l < n \<Longrightarrow> fgets_one n (l @ newline # rest) = l @ [newline]"
proof (induction l arbitrary: n)
  case Nil
  then show ?case by (cases n) auto
next
  case (Cons c l)
  then show ?case by (cases n) auto
qed

lemma fgets_lines_line:
  "newline \<notin> set l \<Longrightarrow> length l < n \<Longrightarrow>
   fgets_lines n (l @ newline # rest) = (l @ [newline]) # fgets_lines n rest"
  by (subst fgets_lines.simps) (simp add: fgets_one_line Let_def)

text \<open>A file that ends with a newline can be read piecewise.\<close>

lemma fgets_one_append:
  "newline \<in> set t \<Longrightarrow> fgets_one n (t @ u) = fgets_one n t"
  by (induction n t rule: fgets_one.induct) auto

lemma fgets_lines_append:
  "t = [] \<or> last t = newline \<Longrightarrow> fgets_lines n (t @ u) = fgets_lines n t @ fgets_lines n u"
proof (induction n t rule: fgets_lines.induct)
  case (1 n t)
  show ?case
  proof (cases "n = 0 \<or> t = []")
    case True
    then show ?thesis by (auto simp: fgets_lines.simps [of 0])
  next
    case False
    let ?l = "fgets_one n t"
    have nl: "newline \<in> set t" using False 1(2) by (metis last_in_set)
    have le: "length ?l \<le> length t" by (metis fgets_one_length length_take min.cobounded1)
    have "drop (length ?l) t = [] \<or> last (drop (length ?l) t) = newline"
      using 1(2) False by (metis last_drop drop_all leI)
    then have IH: "fgets_lines n (drop (length ?l) t @ u)
        = fgets_lines n (drop (length ?l) t) @ fgets_lines n u"
      using 1(1) [of ?l] False by simp
    have "fgets_lines n (t @ u) = ?l # fgets_lines n (drop (length ?l) (t @ u))"
      using False fgets_one_append [OF nl] by (subst fgets_lines.simps) (simp add: Let_def)
    also have "\<dots> = ?l # fgets_lines n (drop (length ?l) t) @ fgets_lines n u"
      using IH le by simp
    also have "\<dots> = fgets_lines n t @ fgets_lines n u"
      using False by (subst (3) fgets_lines.simps) (simp add: Let_def)
    finally show ?thesis .
  qed
qed

end
