(* ===== verification/Lx_Result.thy ===== *)
theory Lx_Result
  imports Lx_Prelude
begin

text \<open>
  The error type and result type of \<open>abi/result.hpp\<close>: the \<open>Errno\<close> enumeration with
  its Linux numbers, \<open>Result<T>\<close> as a sum, and \<open>to_kernel\<close>, the one place where the
  sum collapses into the register the guest reads.
\<close>

datatype errno =
    E_ok | EPERM | ENOENT | ESRCH | EINTR | EIO | ENXIO | E2BIG | ENOEXEC | EBADF
  | ECHILD | EAGAIN | ENOMEM | EACCES | EFAULT | EBUSY | EEXIST | EXDEV | ENODEV
  | ENOTDIR | EISDIR | EINVAL | ENFILE | EMFILE | ENOTTY | EFBIG | ENOSPC | ESPIPE
  | EROFS | EMLINK | EPIPE | ERANGE | ENOSYS | ENOTEMPTY | ELOOP | ENAMETOOLONG
  | ENOTSUP | EPROTONOSUPPORT | ECONNREFUSED | ETIMEDOUT | EADDRINUSE

primrec errno_code :: "errno \<Rightarrow> int" where
  "errno_code E_ok = 0"
| "errno_code EPERM = 1" | "errno_code ENOENT = 2" | "errno_code ESRCH = 3"
| "errno_code EINTR = 4" | "errno_code EIO = 5" | "errno_code ENXIO = 6"
| "errno_code E2BIG = 7" | "errno_code ENOEXEC = 8" | "errno_code EBADF = 9"
| "errno_code ECHILD = 10" | "errno_code EAGAIN = 11" | "errno_code ENOMEM = 12"
| "errno_code EACCES = 13" | "errno_code EFAULT = 14" | "errno_code EBUSY = 16"
| "errno_code EEXIST = 17" | "errno_code EXDEV = 18" | "errno_code ENODEV = 19"
| "errno_code ENOTDIR = 20" | "errno_code EISDIR = 21" | "errno_code EINVAL = 22"
| "errno_code ENFILE = 23" | "errno_code EMFILE = 24" | "errno_code ENOTTY = 25"
| "errno_code EFBIG = 27" | "errno_code ENOSPC = 28" | "errno_code ESPIPE = 29"
| "errno_code EROFS = 30" | "errno_code EMLINK = 31" | "errno_code EPIPE = 32"
| "errno_code ERANGE = 34" | "errno_code ENOSYS = 38" | "errno_code ENOTEMPTY = 39"
| "errno_code ELOOP = 40" | "errno_code ENAMETOOLONG = 36" | "errno_code ENOTSUP = 95"
| "errno_code EPROTONOSUPPORT = 93" | "errno_code ECONNREFUSED = 111"
| "errno_code ETIMEDOUT = 110" | "errno_code EADDRINUSE = 98"

fun errno_name :: "errno \<Rightarrow> string" where
  "errno_name E_ok = ''OK''"
| "errno_name EPERM = ''EPERM''"
| "errno_name ENOENT = ''ENOENT''"
| "errno_name EINTR = ''EINTR''"
| "errno_name EIO = ''EIO''"
| "errno_name EBADF = ''EBADF''"
| "errno_name EAGAIN = ''EAGAIN''"
| "errno_name ENOMEM = ''ENOMEM''"
| "errno_name EACCES = ''EACCES''"
| "errno_name EFAULT = ''EFAULT''"
| "errno_name EEXIST = ''EEXIST''"
| "errno_name ENOTDIR = ''ENOTDIR''"
| "errno_name EISDIR = ''EISDIR''"
| "errno_name EINVAL = ''EINVAL''"
| "errno_name ENOSYS = ''ENOSYS''"
| "errno_name _ = ''E???''"

type_synonym 'a result = "errno + 'a"

abbreviation ok :: "'a \<Rightarrow> 'a result" where
  "ok v \<equiv> Inr v"

abbreviation err :: "errno \<Rightarrow> 'a result" where
  "err e \<equiv> Inl e"

definition to_kernel_status :: "unit result \<Rightarrow> int" where
  "to_kernel_status r = (case r of Inr _ \<Rightarrow> 0 | Inl e \<Rightarrow> - errno_code e)"

definition to_kernel :: "int result \<Rightarrow> int" where
  "to_kernel r = (case r of Inr v \<Rightarrow> v | Inl e \<Rightarrow> - errno_code e)"

text \<open>\<open>LX_TRY\<close>: short-circuit with the propagated error.\<close>

definition lx_try :: "'a result \<Rightarrow> ('a \<Rightarrow> 'b result) \<Rightarrow> 'b result" where
  "lx_try r f = (case r of Inl e \<Rightarrow> Inl e | Inr v \<Rightarrow> f v)"

lemma lx_try_simps [simp]: "lx_try (Inl e) f = Inl e" "lx_try (Inr v) f = f v"
  by (simp_all add: lx_try_def)

lemma lx_try_Inr_iff: "lx_try r f = Inr y \<longleftrightarrow> (\<exists>v. r = Inr v \<and> f v = Inr y)"
  by (cases r) auto

lemma errno_code_bounds: "0 \<le> errno_code e \<and> errno_code e \<le> 111"
  by (cases e) simp_all

lemma errno_code_0_iff [simp]: "errno_code e = 0 \<longleftrightarrow> e = E_ok"
  by (cases e) simp_all

definition errno_all :: "errno list" where
  "errno_all =
    [E_ok, EPERM, ENOENT, ESRCH, EINTR, EIO, ENXIO, E2BIG, ENOEXEC, EBADF, ECHILD, EAGAIN,
     ENOMEM, EACCES, EFAULT, EBUSY, EEXIST, EXDEV, ENODEV, ENOTDIR, EISDIR, EINVAL, ENFILE,
     EMFILE, ENOTTY, EFBIG, ENOSPC, ESPIPE, EROFS, EMLINK, EPIPE, ERANGE, ENOSYS, ENOTEMPTY,
     ELOOP, ENAMETOOLONG, ENOTSUP, EPROTONOSUPPORT, ECONNREFUSED, ETIMEDOUT, EADDRINUSE]"

lemma errno_all_complete: "e \<in> set errno_all"
  by (cases e) (simp_all add: errno_all_def)

lemma errno_codes_distinct: "distinct (map errno_code errno_all)"
  by (simp add: errno_all_def)

lemma errno_code_inj [simp]: "errno_code e = errno_code e' \<longleftrightarrow> e = e'"
  using errno_codes_distinct errno_all_complete by (auto simp: distinct_map dest: inj_onD)

end
