(* ===== verification/Lx_FdSlots.thy ===== *)
theory Lx_FdSlots
  imports Lx_Result
begin

text \<open>
  The guest descriptor table \<open>FdSlots\<close> of \<open>runtime/shared/fd_slots.hpp\<close>: a vector of
  slots, each holding a shared file (absent when the slot is free), the close-on-exec
  bit and the backend's \<open>Extra\<close>.  The default value of \<open>Extra\<close> is the
  argument \<open>e0\<close>.  The locale \<open>fd_table\<close> is the POSIX contract the system-call
  handlers rely on; \<open>FdSlots\<close> is shown to provide it.
\<close>

section \<open>The code\<close>

record ('f, 'e) fd_slot =
  sl_file :: "'f option"
  sl_cloexec :: bool
  sl_extra :: 'e

abbreviation kMaxFds :: nat where
  "kMaxFds \<equiv> 1024"

definition occupied :: "('f, 'e) fd_slot \<Rightarrow> bool" where
  "occupied s \<longleftrightarrow> sl_file s \<noteq> None"

definition empty_slot :: "'e \<Rightarrow> ('f, 'e) fd_slot" where
  "empty_slot e0 = \<lparr>sl_file = None, sl_cloexec = False, sl_extra = e0\<rparr>"

text \<open>The scan of \<open>install\<close> for the lowest free slot.\<close>

primrec first_free :: "('f, 'e) fd_slot list \<Rightarrow> nat option" where
  "first_free [] = None"
| "first_free (s # ss) = (if \<not> occupied s then Some 0 else map_option Suc (first_free ss))"

definition fd_install ::
  "('f, 'e) fd_slot list \<Rightarrow> 'f option \<Rightarrow> bool \<Rightarrow> 'e \<Rightarrow> int \<times> ('f, 'e) fd_slot list" where
  "fd_install slots file cloexec extra =
    (let s = \<lparr>sl_file = file, sl_cloexec = cloexec, sl_extra = extra\<rparr>
     in case first_free slots of
          Some g \<Rightarrow> (int g, slots[g := s])
        | None \<Rightarrow>
            if length slots \<ge> kMaxFds then (- errno_code EMFILE, slots)
            else (int (length slots), slots @ [s]))"

definition fd_install_at ::
  "'e \<Rightarrow> ('f, 'e) fd_slot list \<Rightarrow> int \<Rightarrow> 'f option \<Rightarrow> bool \<Rightarrow> 'e \<Rightarrow> ('f, 'e) fd_slot list" where
  "fd_install_at e0 slots g file cloexec extra =
    (if g < 0 then slots
     else let i = nat g;
              grown = (if i \<ge> length slots
                       then slots @ replicate (i + 1 - length slots) (empty_slot e0) else slots)
          in grown[i := \<lparr>sl_file = file, sl_cloexec = cloexec, sl_extra = extra\<rparr>])"

definition fd_at :: "('f, 'e) fd_slot list \<Rightarrow> int \<Rightarrow> ('f, 'e) fd_slot option" where
  "fd_at slots g =
    (if g < 0 then None
     else if nat g < length slots then Some (slots ! nat g) else None)"

definition fd_close :: "'e \<Rightarrow> ('f, 'e) fd_slot list \<Rightarrow> int \<Rightarrow> int \<times> ('f, 'e) fd_slot list" where
  "fd_close e0 slots g =
    (case fd_at slots g of
       None \<Rightarrow> (- errno_code EBADF, slots)
     | Some s \<Rightarrow> if \<not> occupied s then (- errno_code EBADF, slots)
                 else (0, slots[nat g := empty_slot e0]))"

definition fd_dup ::
  "('f, 'e) fd_slot list \<Rightarrow> int \<Rightarrow> bool \<Rightarrow> 'e \<Rightarrow> int \<times> ('f, 'e) fd_slot list" where
  "fd_dup slots from cloexec extra =
    (case fd_at slots from of
       None \<Rightarrow> (- errno_code EBADF, slots)
     | Some s \<Rightarrow> if \<not> occupied s then (- errno_code EBADF, slots)
                 else fd_install slots (sl_file s) cloexec extra)"

definition fd_dup_to ::
  "'e \<Rightarrow> ('f, 'e) fd_slot list \<Rightarrow> int \<Rightarrow> int \<Rightarrow> bool \<Rightarrow> 'e \<Rightarrow> int \<times> ('f, 'e) fd_slot list" where
  "fd_dup_to e0 slots from to cloexec extra =
    (case fd_at slots from of
       None \<Rightarrow> (- errno_code EBADF, slots)
     | Some s \<Rightarrow> if \<not> occupied s then (- errno_code EBADF, slots)
                 else if from = to then (to, slots)
                 else (to, fd_install_at e0 slots to (sl_file s) cloexec extra))"

definition fd_valid :: "('f, 'e) fd_slot list \<Rightarrow> int \<Rightarrow> bool" where
  "fd_valid slots g = (case fd_at slots g of None \<Rightarrow> False | Some s \<Rightarrow> occupied s)"

definition fd_cloexec :: "('f, 'e) fd_slot list \<Rightarrow> int \<Rightarrow> bool" where
  "fd_cloexec slots g =
    (case fd_at slots g of None \<Rightarrow> False | Some s \<Rightarrow> occupied s \<and> sl_cloexec s)"

definition fd_set_cloexec ::
  "('f, 'e) fd_slot list \<Rightarrow> int \<Rightarrow> bool \<Rightarrow> ('f, 'e) fd_slot list" where
  "fd_set_cloexec slots g on =
    (case fd_at slots g of
       None \<Rightarrow> slots
     | Some s \<Rightarrow> if occupied s then slots[nat g := s\<lparr>sl_cloexec := on\<rparr>] else slots)"

definition fd_on_exec :: "'e \<Rightarrow> ('f, 'e) fd_slot list \<Rightarrow> ('f, 'e) fd_slot list" where
  "fd_on_exec e0 slots =
    map (\<lambda>s. if occupied s \<and> sl_cloexec s then empty_slot e0 else s) slots"

section \<open>The descriptor-table contract\<close>

text \<open>
  What a table promises: \<open>lookup\<close> is the entry of a descriptor; \<open>install\<close> takes the
  lowest unused number or fails with \<open>EMFILE\<close> and changes nothing; \<open>close\<close> frees
  exactly one number or fails with \<open>EBADF\<close>.
\<close>

locale fd_table =
  fixes lookup :: "'t \<Rightarrow> int \<Rightarrow> 's option"
    and install :: "'t \<Rightarrow> 's \<Rightarrow> int \<times> 't"
    and close :: "'t \<Rightarrow> int \<Rightarrow> int \<times> 't"
    and limit :: nat
  assumes lookup_neg: "g < 0 \<Longrightarrow> lookup t g = None"
    and install_fits:
      "install t s = (g, t') \<Longrightarrow> 0 \<le> g \<Longrightarrow>
         lookup t g = None \<and> (\<forall>h. 0 \<le> h \<longrightarrow> h < g \<longrightarrow> lookup t h \<noteq> None)
         \<and> lookup t' = (lookup t)(g \<mapsto> s)"
    and install_full:
      "install t s = (g, t') \<Longrightarrow> g < 0 \<Longrightarrow>
         g = - errno_code EMFILE \<and> t' = t \<and> (\<forall>h. 0 \<le> h \<longrightarrow> h < int limit \<longrightarrow> lookup t h \<noteq> None)"
    and close_used:
      "lookup t g \<noteq> None \<Longrightarrow> close t g = (r, t') \<Longrightarrow> r = 0 \<and> lookup t' = (lookup t)(g := None)"
    and close_unused:
      "lookup t g = None \<Longrightarrow> close t g = (- errno_code EBADF, t)"
begin

lemma install_lookup: "install t s = (g, t') \<Longrightarrow> 0 \<le> g \<Longrightarrow> lookup t' g = Some s"
  by (drule (1) install_fits) simp

lemma install_keeps: "install t s = (g, t') \<Longrightarrow> h \<noteq> g \<Longrightarrow> lookup t' h = lookup t h"
  using install_fits install_full by (cases "0 \<le> g") fastforce+

text \<open>There is only one number \<open>install\<close> can return: the least free one.\<close>

lemma install_least:
  assumes "install t s = (g, t')" and "0 \<le> g" and "0 \<le> h" and "lookup t h = None"
  shows "g \<le> h"
  using assms install_fits [OF assms(1,2)] by force

lemma install_close:
  assumes i: "install t s = (g, t')" and g: "0 \<le> g" and c: "close t' g = (r, u)"
  shows "r = 0 \<and> lookup u = lookup t"
proof -
  have "lookup t' g \<noteq> None" using install_lookup [OF i g] by simp
  from close_used [OF this c] have "r = 0" and "lookup u = (lookup t')(g := None)" by auto
  moreover have "lookup t' = (lookup t)(g \<mapsto> s)" and "lookup t g = None"
    using install_fits [OF i g] by auto
  ultimately show ?thesis by (metis fun_upd_triv fun_upd_upd)
qed

text \<open>Closing a descriptor and opening another gives the closed number back when
  every lower number is in use.\<close>

lemma close_then_install:
  assumes used: "lookup t g \<noteq> None" and g: "0 \<le> g" and c: "close t g = (r, u)"
    and low: "\<And>h. 0 \<le> h \<Longrightarrow> h < g \<Longrightarrow> lookup t h \<noteq> None"
    and lim: "g < int limit" and i: "install u s = (k, v)"
  shows "k = g \<and> lookup v = (lookup t)(g \<mapsto> s)"
proof -
  have u: "lookup u = (lookup t)(g := None)" using close_used [OF used c] by simp
  have k: "0 \<le> k"
  proof (rule ccontr)
    assume "\<not> 0 \<le> k"
    then have "lookup u g \<noteq> None" using install_full [OF i] g lim by simp
    then show False by (simp add: u)
  qed
  have "k \<le> g" using install_least [OF i k g] by (simp add: u)
  moreover have "\<not> k < g" using install_fits [OF i k] low [of k] k by (auto simp: u)
  ultimately have "k = g" by simp
  then show ?thesis using install_fits [OF i k] by (simp add: u)
qed

end

section \<open>\<open>FdSlots\<close> provides it\<close>

text \<open>The entry a guest can use: the file with its close-on-exec bit and \<open>Extra\<close>.\<close>

definition fd_lookup :: "('f, 'e) fd_slot list \<Rightarrow> int \<Rightarrow> ('f \<times> bool \<times> 'e) option" where
  "fd_lookup slots g =
    (case fd_at slots g of
       None \<Rightarrow> None
     | Some s \<Rightarrow> map_option (\<lambda>f. (f, sl_cloexec s, sl_extra s)) (sl_file s))"

lemma fd_at_simps:
  "g < 0 \<Longrightarrow> fd_at slots g = None"
  "fd_at slots (int n) = (if n < length slots then Some (slots ! n) else None)"
  by (simp_all add: fd_at_def)

lemma fd_lookup_int:
  "fd_lookup slots (int n) =
    (if n < length slots
     then map_option (\<lambda>f. (f, sl_cloexec (slots ! n), sl_extra (slots ! n))) (sl_file (slots ! n))
     else None)"
  by (simp add: fd_lookup_def fd_at_simps)

lemma fd_lookup_neg: "g < 0 \<Longrightarrow> fd_lookup slots g = None"
  by (simp add: fd_lookup_def fd_at_simps)

lemma fd_lookup_None_iff:
  "fd_lookup slots (int n) = None \<longleftrightarrow> \<not> (n < length slots \<and> occupied (slots ! n))"
  by (auto simp: fd_lookup_int occupied_def)

lemma fd_lookup_ex_iff:
  "(\<exists>f c e. fd_lookup slots (int n) = Some (f, c, e)) \<longleftrightarrow> n < length slots \<and> occupied (slots ! n)"
  by (auto simp: fd_lookup_int occupied_def)

text \<open>Two tables have the same entries when they agree on the natural numbers.\<close>

lemma fd_lookup_eqI:
  assumes "\<And>n. fd_lookup slots (int n) = m (int n)" and "\<And>g. g < 0 \<Longrightarrow> m g = None"
  shows "fd_lookup slots = m"
proof
  fix g show "fd_lookup slots g = m g"
    using assms by (cases g) (auto simp: fd_lookup_neg)
qed

lemma first_free_SomeD:
  "first_free ss = Some g \<Longrightarrow>
     g < length ss \<and> \<not> occupied (ss ! g) \<and> (\<forall>h<g. occupied (ss ! h))"
proof (induction ss arbitrary: g)
  case (Cons s ss)
  then show ?case by (cases g) (auto split: if_splits simp: less_Suc_eq_0_disj)
qed simp

lemma first_free_NoneD: "first_free ss = None \<Longrightarrow> h < length ss \<Longrightarrow> occupied (ss ! h)"
  by (induction ss arbitrary: h) (auto split: if_splits simp: nth_Cons split: nat.splits)

lemma fd_install_at_length:
  "0 \<le> g \<Longrightarrow> length (fd_install_at e0 slots g f c e) = max (length slots) (nat g + 1)"
  by (auto simp: fd_install_at_def Let_def)

lemma fd_lookup_install_at:
  assumes "0 \<le> g"
  shows "fd_lookup (fd_install_at e0 slots g (Some f) c e) = (fd_lookup slots)(g \<mapsto> (f, c, e))"
proof (rule fd_lookup_eqI)
  fix n
  obtain k where g: "g = int k" using assms by (metis nonneg_int_cases)
  show "fd_lookup (fd_install_at e0 slots g (Some f) c e) (int n)
      = ((fd_lookup slots)(g \<mapsto> (f, c, e))) (int n)"
    by (auto simp: fd_lookup_int fd_install_at_def Let_def g nth_append nth_list_update empty_slot_def)
qed (use assms in \<open>auto simp: fd_lookup_neg\<close>)

lemma fd_lookup_update:
  assumes "k < length slots"
  shows "fd_lookup (slots[k := s]) =
    (fd_lookup slots)(int k := map_option (\<lambda>f. (f, sl_cloexec s, sl_extra s)) (sl_file s))"
  using assms by (intro fd_lookup_eqI) (auto simp: fd_lookup_int nth_list_update fd_lookup_neg)

lemma fd_lookup_append:
  "fd_lookup (slots @ [s]) =
    (fd_lookup slots)(int (length slots) := map_option (\<lambda>f. (f, sl_cloexec s, sl_extra s)) (sl_file s))"
  by (intro fd_lookup_eqI) (auto simp: fd_lookup_int nth_append fd_lookup_neg less_Suc_eq)

interpretation slots: fd_table fd_lookup "\<lambda>t (f, c, e). fd_install t (Some f) c e" "fd_close e0" kMaxFds
proof (unfold_locales, goal_cases)
  case (1 g t)
  then show ?case by (rule fd_lookup_neg)
next
  case (2 t s g t')
  obtain f c e where s: "s = (f, c, e)" by (cases s)
  show ?case
  proof (cases "first_free t")
    case None
    then have "g = int (length t)" "t' = t @ [\<lparr>sl_file = Some f, sl_cloexec = c, sl_extra = e\<rparr>]"
      using 2 by (auto simp: s fd_install_def Let_def split: if_splits)
    then show ?thesis
      using first_free_NoneD [OF None]
      by (simp add: fd_lookup_append s fd_lookup_None_iff fd_lookup_ex_iff all_nonneg_less_iff)
  next
    case (Some k)
    then have "g = int k" "t' = t[k := \<lparr>sl_file = Some f, sl_cloexec = c, sl_extra = e\<rparr>]"
      using 2 by (auto simp: s fd_install_def Let_def)
    then show ?thesis
      using first_free_SomeD [OF Some]
      by (simp add: fd_lookup_update s fd_lookup_None_iff fd_lookup_ex_iff all_nonneg_less_iff)
  qed
next
  case (3 t s g t')
  obtain f c e where s: "s = (f, c, e)" by (cases s)
  have "first_free t = None" "g = - errno_code EMFILE" "t' = t" "kMaxFds \<le> length t"
    using 3 by (auto simp: s fd_install_def Let_def split: option.splits if_splits)
  then show ?case
    using first_free_NoneD [of t] by (simp only: all_nonneg_less_iff) (simp add: fd_lookup_None_iff)
next
  case (4 t g r t')
  have "0 \<le> g" using 4(1) fd_lookup_neg [of g t] by (cases "g < 0") auto
  then obtain k where g: "g = int k" by (metis nonneg_int_cases)
  have "k < length t" "occupied (t ! k)" using 4 fd_lookup_None_iff [of t k] by (auto simp: g)
  then show ?case
    using 4 by (auto simp: fd_close_def fd_at_simps g fd_lookup_update empty_slot_def)
next
  case (5 t g)
  then show ?case
    by (auto simp: fd_close_def fd_lookup_def occupied_def split: option.splits)
qed

section \<open>Properties\<close>

lemma fd_valid_iff: "fd_valid slots g \<longleftrightarrow> fd_lookup slots g \<noteq> None"
  by (auto simp: fd_valid_def fd_lookup_def occupied_def split: option.splits)

lemma fd_cloexec_iff: "fd_cloexec slots g \<longleftrightarrow> (\<exists>f e. fd_lookup slots g = Some (f, True, e))"
  by (auto simp: fd_cloexec_def fd_lookup_def occupied_def split: option.splits)

lemma fd_dup_eq:
  "fd_dup slots from c e =
    (case fd_lookup slots from of
       None \<Rightarrow> (- errno_code EBADF, slots)
     | Some (f, _, _) \<Rightarrow> fd_install slots (Some f) c e)"
  by (auto simp: fd_dup_def fd_lookup_def occupied_def split: option.splits)

lemma fd_dup_to_eq:
  "fd_dup_to e0 slots from to c e =
    (case fd_lookup slots from of
       None \<Rightarrow> (- errno_code EBADF, slots)
     | Some (f, _, _) \<Rightarrow>
         if from = to then (to, slots) else (to, fd_install_at e0 slots to (Some f) c e))"
  by (auto simp: fd_dup_to_def fd_lookup_def occupied_def split: option.splits)

text \<open>C12: \<open>dup\<close> of an open descriptor either finds the table full, when every number
  below 1024 is in use, and changes nothing; or returns the lowest free number,
  which from then on names the same file as the source with the close-on-exec bit
  and \<open>Extra\<close> passed in, while every other descriptor is untouched.\<close>

theorem fd_dup_correct:
  assumes "fd_lookup slots from = Some (f, c0, x0)" and "fd_dup slots from c e = (g, slots')"
  shows "if g < 0 then g = - errno_code EMFILE \<and> slots' = slots
                       \<and> (\<forall>h. 0 \<le> h \<longrightarrow> h < 1024 \<longrightarrow> fd_lookup slots h \<noteq> None)
         else fd_lookup slots g = None \<and> (\<forall>h. 0 \<le> h \<longrightarrow> h < g \<longrightarrow> fd_lookup slots h \<noteq> None)
              \<and> fd_lookup slots' = (fd_lookup slots)(g \<mapsto> (f, c, e))"
  using assms slots.install_fits [of slots "(f, c, e)" g slots'] slots.install_full [of slots "(f, c, e)" g slots']
  by (simp add: fd_dup_eq)

theorem fd_dup_correct_witness:
  "fd_dup [\<lparr>sl_file = Some ''tty'', sl_cloexec = False, sl_extra = ()\<rparr>, empty_slot ()] 0 True ()
     = (1, [\<lparr>sl_file = Some ''tty'', sl_cloexec = False, sl_extra = ()\<rparr>,
            \<lparr>sl_file = Some ''tty'', sl_cloexec = True, sl_extra = ()\<rparr>])
   \<and> fd_lookup [\<lparr>sl_file = Some ''tty'', sl_cloexec = False, sl_extra = ()\<rparr>,
                \<lparr>sl_file = Some ''tty'', sl_cloexec = True, sl_extra = ()\<rparr>] 1 = Some (''tty'', True, ())"
proof -
  let ?s = "\<lparr>sl_file = Some ''tty'', sl_cloexec = False, sl_extra = ()\<rparr>"
  let ?d = "\<lparr>sl_file = Some ''tty'', sl_cloexec = True, sl_extra = ()\<rparr>"
  have l: "fd_lookup [?s, empty_slot ()] 0 = Some (''tty'', False, ())"
    by (simp add: fd_lookup_def fd_at_def)
  have d: "fd_dup [?s, empty_slot ()] 0 True () = (1, [?s, ?d])"
    by (simp add: fd_dup_def fd_at_def fd_install_def occupied_def empty_slot_def)
  show ?thesis using fd_dup_correct [OF l d] d by simp
qed

text \<open>\<open>dup_to\<close> onto a different, non-negative number makes the target name the
  source's file whatever it named before and changes nothing else; onto itself it
  changes nothing, the close-on-exec bit included.\<close>

theorem fd_dup_to_correct:
  assumes "fd_lookup slots from = Some (f, c0, x0)" and "0 \<le> to"
  shows "fd_dup_to e0 slots from to c e = (to, snd (fd_dup_to e0 slots from to c e))
   \<and> fd_lookup (snd (fd_dup_to e0 slots from to c e)) =
       (if from = to then fd_lookup slots else (fd_lookup slots)(to \<mapsto> (f, c, e)))"
  using assms by (simp add: fd_dup_to_eq fd_lookup_install_at)

theorem fd_dup_to_correct_witness:
  "fd_lookup (snd (fd_dup_to () [\<lparr>sl_file = Some ''tty'', sl_cloexec = True, sl_extra = ()\<rparr>] 0 3 False ()))
     = [0 \<mapsto> (''tty'', True, ()), 3 \<mapsto> (''tty'', False, ())]"
proof -
  let ?t = "[\<lparr>sl_file = Some ''tty'', sl_cloexec = True, sl_extra = ()\<rparr>]"
  have "fd_lookup ?t 0 = Some (''tty'', True, ())"
    by (simp add: fd_lookup_def fd_at_def)
  from fd_dup_to_correct [OF this, of 3 "()" False "()"]
  have "fd_lookup (snd (fd_dup_to () ?t 0 3 False ())) = (fd_lookup ?t)(3 \<mapsto> (''tty'', False, ()))"
    by simp
  moreover have "fd_lookup ?t = [0 \<mapsto> (''tty'', True, ())]"
    by (auto simp: fd_lookup_def fd_at_def fun_eq_iff)
  ultimately show ?thesis by simp
qed

text \<open>\<open>on_exec\<close> drops exactly the descriptors with close-on-exec set and keeps the
  others, number and file; afterwards no descriptor has the bit.\<close>

theorem fd_on_exec_correct:
  "fd_lookup (fd_on_exec e0 slots) g =
     (case fd_lookup slots g of
        Some (f, c, e) \<Rightarrow> if c then None else Some (f, c, e)
      | None \<Rightarrow> None)
   \<and> \<not> fd_cloexec (fd_on_exec e0 slots) g"
  by (auto simp: fd_on_exec_def fd_lookup_def fd_cloexec_def fd_at_def occupied_def empty_slot_def
      split: option.splits)

section \<open>Refinement of the POSIX table\<close>

text \<open>The calls on a table, and the table of POSIX they refine: a map from numbers to entries, in which
  a new descriptor is the least number not in use.\<close>

datatype ('f, 'e) fd_op =
    Op_install 'f bool 'e
  | Op_close int
  | Op_dup int bool 'e
  | Op_dup_to int int bool 'e
  | Op_set_cloexec int bool
  | Op_on_exec

type_synonym ('f, 'e) fd_map = "int \<rightharpoonup> ('f \<times> bool \<times> 'e)"

fun fd_apply :: "'e \<Rightarrow> ('f, 'e) fd_op \<Rightarrow> ('f, 'e) fd_slot list \<Rightarrow> int \<times> ('f, 'e) fd_slot list" where
  "fd_apply e0 (Op_install f c e) t = fd_install t (Some f) c e"
| "fd_apply e0 (Op_close g) t = fd_close e0 t g"
| "fd_apply e0 (Op_dup g c e) t = fd_dup t g c e"
| "fd_apply e0 (Op_dup_to g h c e) t = fd_dup_to e0 t g h c e"
| "fd_apply e0 (Op_set_cloexec g b) t = (0, fd_set_cloexec t g b)"
| "fd_apply e0 Op_on_exec t = (0, fd_on_exec e0 t)"

inductive posix :: "('f, 'e) fd_op \<Rightarrow> ('f, 'e) fd_map \<Rightarrow> int \<Rightarrow> ('f, 'e) fd_map \<Rightarrow> bool" where
  least: "0 \<le> g \<Longrightarrow> m g = None \<Longrightarrow> (\<And>h. 0 \<le> h \<Longrightarrow> h < g \<Longrightarrow> m h \<noteq> None) \<Longrightarrow>
    posix (Op_install f c e) m g (m(g \<mapsto> (f, c, e)))"
| full: "(\<And>h. 0 \<le> h \<Longrightarrow> h < int kMaxFds \<Longrightarrow> m h \<noteq> None) \<Longrightarrow> posix (Op_install f c e) m (- errno_code EMFILE) m"
| close: "m g \<noteq> None \<Longrightarrow> posix (Op_close g) m 0 (m(g := None))"
| close_bad: "m g = None \<Longrightarrow> posix (Op_close g) m (- errno_code EBADF) m"
| dup: "m g = Some (f, c0, x) \<Longrightarrow> posix (Op_install f c e) m r m' \<Longrightarrow> posix (Op_dup g c e) m r m'"
| dup_bad: "m g = None \<Longrightarrow> posix (Op_dup g c e) m (- errno_code EBADF) m"
| dup_to: "m g = Some (f, c0, x) \<Longrightarrow> g \<noteq> h \<Longrightarrow> posix (Op_dup_to g h c e) m h (m(h \<mapsto> (f, c, e)))"
| dup_same: "m g \<noteq> None \<Longrightarrow> posix (Op_dup_to g g c e) m g m"
| dup_to_bad: "m g = None \<Longrightarrow> posix (Op_dup_to g h c e) m (- errno_code EBADF) m"
| cloexec: "posix (Op_set_cloexec g b) m 0 (m(g := map_option (\<lambda>(f, _, e). (f, b, e)) (m g)))"
| exec: "posix Op_on_exec m 0 (\<lambda>g. case m g of Some (f, c, e) \<Rightarrow> if c then None else Some (f, c, e) | None \<Rightarrow> None)"

text \<open>The targets \<open>dup2\<close> is called with.\<close>

fun op_ok :: "('f, 'e) fd_op \<Rightarrow> bool" where
  "op_ok (Op_dup_to g h c e) = (0 \<le> h)"
| "op_ok _ = True"

lemma install_refines: "fd_install t (Some f) c e = (r, t') \<Longrightarrow> posix (Op_install f c e) (fd_lookup t) r (fd_lookup t')"
  using slots.install_fits [of t "(f, c, e)" r t'] slots.install_full [of t "(f, c, e)" r t']
  by (cases "0 \<le> r") (auto intro: posix.least posix.full [simplified])

lemma set_cloexec_lookup:
  "fd_lookup (fd_set_cloexec t g b) = (fd_lookup t)(g := map_option (\<lambda>(f, _, e). (f, b, e)) (fd_lookup t g))"
proof (cases "fd_at t g")
  case (Some s)
  then have "0 \<le> g" "nat g < length t" "s = t ! nat g" by (auto simp: fd_at_def split: if_splits)
  then show ?thesis
    using Some fd_lookup_update [of "nat g" t "s\<lparr>sl_cloexec := b\<rparr>"]
    by (cases "sl_file s") (auto simp: fd_set_cloexec_def occupied_def fd_lookup_def fun_upd_idem)
qed (auto simp: fd_set_cloexec_def fd_lookup_def fun_upd_idem)

lemma apply_refines:
  assumes "op_ok a" "fd_apply e0 a t = (r, t')"
  shows "posix a (fd_lookup t) r (fd_lookup t')"
proof (cases a)
  case (Op_install f c e)
  then show ?thesis using assms by (simp add: install_refines)
next
  case (Op_close g)
  show ?thesis
  proof (cases "fd_lookup t g = None")
    case True
    then show ?thesis using assms slots.close_unused [of t g e0] Op_close by (auto intro: posix.close_bad [simplified])
  next
    case False
    then show ?thesis using assms slots.close_used [of t g e0 r t'] Op_close by (auto intro: posix.close)
  qed
next
  case (Op_dup g c e)
  then show ?thesis using assms
    by (auto simp: fd_dup_eq intro: posix.dup [OF _ install_refines] posix.dup_bad [simplified] split: option.splits)
next
  case (Op_dup_to g h c e)
  show ?thesis
  proof (cases "fd_lookup t g")
    case None
    then show ?thesis using assms Op_dup_to posix.dup_to_bad [of "fd_lookup t" g h c e] by (auto simp: fd_dup_to_eq)
  next
    case (Some s)
    obtain f c0 x where s: "fd_lookup t g = Some (f, c0, x)" using Some by (cases s) auto
    have "posix (Op_dup_to g g c e) (fd_lookup t) g (fd_lookup t)" by (rule posix.dup_same) (simp add: s)
    then show ?thesis
      using assms Op_dup_to s posix.dup_to [of "fd_lookup t" g f c0 x h c e]
      by (auto simp: fd_dup_to_eq fd_lookup_install_at split: if_splits)
  qed
next
  case (Op_set_cloexec g b)
  then show ?thesis using assms by (auto simp: set_cloexec_lookup intro: posix.cloexec)
next
  case Op_on_exec
  have "fd_lookup (fd_on_exec e0 t) = (\<lambda>g. case fd_lookup t g of Some (f, c, e) \<Rightarrow> if c then None else Some (f, c, e) | None \<Rightarrow> None)"
    by (auto simp: fun_eq_iff fd_on_exec_def fd_lookup_def fd_at_def occupied_def empty_slot_def split: option.splits)
  then show ?thesis using assms Op_on_exec by (auto intro: posix.exec)
qed

fun fd_applies :: "'e \<Rightarrow> ('f, 'e) fd_op list \<Rightarrow> ('f, 'e) fd_slot list \<Rightarrow> int list \<times> ('f, 'e) fd_slot list" where
  "fd_applies e0 [] t = ([], t)"
| "fd_applies e0 (a # as) t =
     (let (r, t1) = fd_apply e0 a t; (rs, t2) = fd_applies e0 as t1 in (r # rs, t2))"

inductive posix_run :: "('f, 'e) fd_op list \<Rightarrow> ('f, 'e) fd_map \<Rightarrow> int list \<Rightarrow> ('f, 'e) fd_map \<Rightarrow> bool" where
  posix_nil: "posix_run [] m [] m"
| posix_cons: "posix a m r m1 \<Longrightarrow> posix_run as m1 rs m2 \<Longrightarrow> posix_run (a # as) m (r # rs) m2"



lemma fd_dup_to_negative_target:
  "fd_dup_to () [\<lparr>sl_file = Some ''tty'', sl_cloexec = True, sl_extra = ()\<rparr>] 0 (- 1) False ()
     = (- errno_code EPERM, [\<lparr>sl_file = Some ''tty'', sl_cloexec = True, sl_extra = ()\<rparr>])"
  by (simp add: fd_dup_to_def fd_at_def occupied_def fd_install_at_def)

end
