(* ===== verification/Lx_AddressSpace.thy ===== *)
theory Lx_AddressSpace
  imports Lx_Result
begin

unbundle bit_operations_syntax

text \<open>
  The guest memory map \<open>AddressSpace\<close> of \<open>runtime/shared/address_space.hpp\<close>: an ordered
  vector of virtual memory areas with \<open>mmap\<close>, \<open>munmap\<close>, \<open>mprotect\<close> and \<open>brk\<close>, on
  64-bit addresses that wrap.  The areas are related to the map \<open>vm_at\<close> from
  addresses to attributes, which is the specification the operations implement.
\<close>

section \<open>The code\<close>

type_synonym guest_prot = u32

definition gp_none :: guest_prot where "gp_none = 0"
definition gp_read :: guest_prot where "gp_read = 1"
definition gp_write :: guest_prot where "gp_write = 2"
definition gp_exec :: guest_prot where "gp_exec = 4"

definition gp_has :: "guest_prot \<Rightarrow> guest_prot \<Rightarrow> bool" where
  "gp_has s p \<longleftrightarrow> s AND p \<noteq> 0"

definition prot_from_linux :: "u64 \<Rightarrow> guest_prot" where
  "prot_from_linux p =
    (gp_none OR (if p AND 1 \<noteq> 0 then gp_read else 0)
             OR (if p AND 2 \<noteq> 0 then gp_write else 0)
             OR (if p AND 4 \<noteq> 0 then gp_exec else 0))"

definition prot_from_elf :: "u64 \<Rightarrow> guest_prot" where
  "prot_from_elf pf =
    (gp_none OR (if pf AND 4 \<noteq> 0 then gp_read else 0)
             OR (if pf AND 2 \<noteq> 0 then gp_write else 0)
             OR (if pf AND 1 \<noteq> 0 then gp_exec else 0))"

record vma =
  v_begin :: u64
  v_end :: u64
  v_prot :: guest_prot
  v_anon :: bool

abbreviation mk_vma :: "u64 \<Rightarrow> u64 \<Rightarrow> guest_prot \<Rightarrow> bool \<Rightarrow> vma" where
  "mk_vma b e p an \<equiv> \<lparr>v_begin = b, v_end = e, v_prot = p, v_anon = an\<rparr>"

record aspace =
  vmas :: "vma list"
  arena_low :: u64
  arena_high :: u64
  brk_base :: u64
  brk_cur :: u64

abbreviation kPageSize :: u64 where
  "kPageSize \<equiv> 0x1000"

definition kFail :: u64 where
  "kFail = NOT 0"

definition page_up :: "u64 \<Rightarrow> u64" where
  "page_up a = (a + kPageSize - 1) AND NOT (kPageSize - 1)"

definition page_down :: "u64 \<Rightarrow> u64" where
  "page_down a = a AND NOT (kPageSize - 1)"

definition as_reset :: "u64 \<Rightarrow> u64 \<Rightarrow> aspace" where
  "as_reset low high =
    \<lparr>vmas = [], arena_low = page_up low, arena_high = page_down high,
     brk_base = page_up low, brk_cur = page_up low\<rparr>"

record arena =
  ar_low :: u64
  ar_high :: u64
  ar_brk_base :: u64

definition as_arena :: "aspace \<Rightarrow> arena" where
  "as_arena s = \<lparr>ar_low = arena_low s, ar_high = arena_high s, ar_brk_base = brk_base s\<rparr>"

definition as_restore :: "vma list \<Rightarrow> u64 \<Rightarrow> arena \<Rightarrow> aspace" where
  "as_restore vs brk a =
    \<lparr>vmas = vs, arena_low = ar_low a, arena_high = ar_high a,
     brk_base = ar_brk_base a, brk_cur = brk\<rparr>"

text \<open>\<open>coalesce\<close>: \<open>l\<close> is the last area already pushed to the output.\<close>

fun coalesce_from :: "vma \<Rightarrow> vma list \<Rightarrow> vma list" where
  "coalesce_from l [] = [l]"
| "coalesce_from l (c # cs) =
    (if v_end l = v_begin c \<and> v_prot l = v_prot c \<and> v_anon l = v_anon c
     then coalesce_from (l\<lparr>v_end := v_end c\<rparr>) cs
     else l # coalesce_from c cs)"

definition as_coalesce :: "vma list \<Rightarrow> vma list" where
  "as_coalesce vs = (case vs of [] \<Rightarrow> [] | v # rest \<Rightarrow> coalesce_from v rest)"

text \<open>\<open>std::lower_bound\<close> and \<open>std::upper_bound\<close> are the first position at which the
  ordering predicate fails.\<close>

definition as_insert :: "vma list \<Rightarrow> vma \<Rightarrow> vma list" where
  "as_insert vs v =
    as_coalesce (takeWhile (\<lambda>a. v_begin a < v_begin v) vs @ v #
                 dropWhile (\<lambda>a. v_begin a < v_begin v) vs)"

fun fully_mapped_from :: "u64 \<Rightarrow> u64 \<Rightarrow> vma list \<Rightarrow> bool" where
  "fully_mapped_from cursor hi [] = (cursor \<ge> hi)"
| "fully_mapped_from cursor hi (v # vs) =
    (if v_end v \<le> cursor then fully_mapped_from cursor hi vs
     else if v_begin v > cursor then False
     else if v_end v \<ge> hi then True
     else fully_mapped_from (v_end v) hi vs)"

definition fully_mapped :: "vma list \<Rightarrow> u64 \<Rightarrow> u64 \<Rightarrow> bool" where
  "fully_mapped vs lo hi = fully_mapped_from lo hi vs"

definition ceiling_above :: "aspace \<Rightarrow> u64 \<Rightarrow> u64" where
  "ceiling_above s addr =
    (case List.find (\<lambda>v. v_begin v \<ge> addr) (vmas s) of
       Some v \<Rightarrow> v_begin v
     | None \<Rightarrow> arena_high s)"

text \<open>The scan of \<open>find_gap\<close> over the areas from the highest down: \<open>Inl\<close> is the address
  it returns, \<open>Inr\<close> the ceiling left when it runs out of areas.\<close>

fun gap_scan :: "u64 \<Rightarrow> u64 \<Rightarrow> vma list \<Rightarrow> u64 + u64" where
  "gap_scan len ceil [] = Inr ceil"
| "gap_scan len ceil (v # vs) =
    (if ceil \<ge> v_end v \<and> ceil - v_end v \<ge> len then Inl (ceil - len)
     else gap_scan len (min ceil (v_begin v)) vs)"

definition find_gap :: "aspace \<Rightarrow> u64 \<Rightarrow> u64 option" where
  "find_gap s len =
    (case gap_scan len (arena_high s) (rev (vmas s)) of
       Inl at \<Rightarrow> Some at
     | Inr ceil \<Rightarrow>
         let floor = max (page_up (brk_cur s)) (arena_low s)
         in if ceil \<ge> floor \<and> ceil - floor \<ge> len then Some (ceil - len) else None)"

definition as_set_brk :: "aspace \<Rightarrow> u64 \<Rightarrow> u64 \<times> aspace" where
  "as_set_brk s want =
    (if want = 0 then (brk_cur s, s)
     else if want < brk_base s then (brk_cur s, s)
     else if page_up want > ceiling_above s (brk_base s) then (brk_cur s, s)
     else (want, s\<lparr>brk_cur := want\<rparr>))"

definition unmap_piece :: "u64 \<Rightarrow> u64 \<Rightarrow> vma \<Rightarrow> vma list" where
  "unmap_piece lo hi v =
    (if v_end v \<le> lo \<or> v_begin v \<ge> hi then [v]
     else (if v_begin v < lo then [mk_vma (v_begin v) lo (v_prot v) (v_anon v)] else [])
          @ (if v_end v > hi then [mk_vma hi (v_end v) (v_prot v) (v_anon v)] else []))"

definition as_unmap :: "aspace \<Rightarrow> u64 \<Rightarrow> u64 \<Rightarrow> aspace" where
  "as_unmap s addr len =
    (let lo = page_down addr; hi = page_up (addr + len)
     in if hi \<le> lo then s
        else s\<lparr>vmas := concat (map (unmap_piece lo hi) (vmas s))\<rparr>)"

definition as_map :: "aspace \<Rightarrow> u64 \<Rightarrow> u64 \<Rightarrow> guest_prot \<Rightarrow> bool \<Rightarrow> bool \<Rightarrow> u64 \<times> aspace" where
  "as_map s hint len0 prot fixed anon =
    (let len = page_up len0
     in if len = 0 then (kFail, s)
        else if fixed \<and> hint \<noteq> 0 then
          (let at = page_down hint
           in if at < arena_low s \<or> at + len > arena_high s then (kFail, s)
              else let s' = as_unmap s at len
                   in (at, s'\<lparr>vmas := as_insert (vmas s') (mk_vma at (at + len) prot anon)\<rparr>))
        else
          (case find_gap s len of
             None \<Rightarrow> (kFail, s)
           | Some at \<Rightarrow> (at, s\<lparr>vmas := as_insert (vmas s) (mk_vma at (at + len) prot anon)\<rparr>)))"

definition protect_piece :: "u64 \<Rightarrow> u64 \<Rightarrow> guest_prot \<Rightarrow> vma \<Rightarrow> vma list" where
  "protect_piece lo hi prot v =
    (if v_end v \<le> lo \<or> v_begin v \<ge> hi then [v]
     else (if v_begin v < lo then [mk_vma (v_begin v) lo (v_prot v) (v_anon v)] else [])
          @ [mk_vma (max (v_begin v) lo) (min (v_end v) hi) prot (v_anon v)]
          @ (if v_end v > hi then [mk_vma hi (v_end v) (v_prot v) (v_anon v)] else []))"

definition as_protect :: "aspace \<Rightarrow> u64 \<Rightarrow> u64 \<Rightarrow> guest_prot \<Rightarrow> bool \<times> aspace" where
  "as_protect s addr len prot =
    (let lo = page_down addr; hi = page_up (addr + len)
     in if hi \<le> lo then (True, s)
        else if \<not> fully_mapped (vmas s) lo hi then (False, s)
        else (True, s\<lparr>vmas := as_coalesce (concat (map (protect_piece lo hi prot) (vmas s)))\<rparr>))"

definition as_adopt :: "aspace \<Rightarrow> vma \<Rightarrow> aspace" where
  "as_adopt s v =
    (if v_end v \<le> v_begin v then s
     else let s' = as_unmap s (v_begin v) (v_end v - v_begin v)
          in s'\<lparr>vmas := as_insert (vmas s') v\<rparr>)"

definition as_find :: "aspace \<Rightarrow> u64 \<Rightarrow> vma option" where
  "as_find s addr =
    (let before = takeWhile (\<lambda>v. \<not> addr < v_begin v) (vmas s)
     in if before = [] then None
        else if addr < v_end (last before) then Some (last before) else None)"

definition mapped_bytes :: "aspace \<Rightarrow> u64" where
  "mapped_bytes s = sum_list (map (\<lambda>v. v_end v - v_begin v) (vmas s))"

section \<open>What a list of areas denotes\<close>

definition in_vma :: "u64 \<Rightarrow> vma \<Rightarrow> bool" where
  "in_vma a v \<longleftrightarrow> v_begin v \<le> a \<and> a < v_end v"

text \<open>The attributes of an address, absent when it is not mapped.\<close>

fun vm_at :: "vma list \<Rightarrow> u64 \<Rightarrow> (guest_prot \<times> bool) option" where
  "vm_at [] a = None"
| "vm_at (v # vs) a = (if in_vma a v then Some (v_prot v, v_anon v) else vm_at vs a)"

text \<open>The areas are non-empty, in increasing order and do not overlap.\<close>

definition wf_vmas :: "vma list \<Rightarrow> bool" where
  "wf_vmas vs \<longleftrightarrow> (\<forall>v\<in>set vs. v_begin v < v_end v) \<and> sorted_wrt (\<lambda>u v. v_end u \<le> v_begin v) vs"

lemmas word_nat = word_le_nat_alt word_less_nat_alt

lemma wf_vmas_Nil [simp]: "wf_vmas []"
  by (simp add: wf_vmas_def)

lemma wf_vmas_Cons:
  "wf_vmas (v # vs) \<longleftrightarrow>
     v_begin v < v_end v \<and> (\<forall>u\<in>set vs. v_end v \<le> v_begin u) \<and> wf_vmas vs"
  by (auto simp: wf_vmas_def)

lemma wf_vmas_append:
  "wf_vmas (us @ vs) \<longleftrightarrow>
     wf_vmas us \<and> wf_vmas vs \<and> (\<forall>u\<in>set us. \<forall>v\<in>set vs. v_end u \<le> v_begin v)"
  by (auto simp: wf_vmas_def sorted_wrt_append)

lemma vm_at_append:
  "vm_at (us @ vs) a = (case vm_at us a of Some x \<Rightarrow> Some x | None \<Rightarrow> vm_at vs a)"
  by (induction us) auto

lemma vm_at_None_iff: "vm_at vs a = None \<longleftrightarrow> (\<forall>v\<in>set vs. \<not> in_vma a v)"
  by (induction vs) auto

lemma vm_at_SomeE:
  assumes "vm_at vs a = Some x"
  obtains v where "v \<in> set vs" "in_vma a v" "x = (v_prot v, v_anon v)"
  using assms by (induction vs) (auto split: if_splits)

lemma vm_at_Some:
  "wf_vmas vs \<Longrightarrow> v \<in> set vs \<Longrightarrow> in_vma a v \<Longrightarrow> vm_at vs a = Some (v_prot v, v_anon v)"
  by (induction vs) (auto simp: wf_vmas_Cons in_vma_def word_nat)

lemma wf_vmas_unique:
  "wf_vmas vs \<Longrightarrow> u \<in> set vs \<Longrightarrow> v \<in> set vs \<Longrightarrow> in_vma a u \<Longrightarrow> in_vma a v \<Longrightarrow> u = v"
  by (induction vs) (auto simp: wf_vmas_Cons in_vma_def word_nat dest: bspec)

section \<open>Coalescing and insertion\<close>

lemma coalesce_from_begin:
  "v_begin ` set (coalesce_from l cs) \<subseteq> v_begin ` set (l # cs)"
  by (induction l cs rule: coalesce_from.induct) auto

lemma coalesce_from_wf: "wf_vmas (l # cs) \<Longrightarrow> wf_vmas (coalesce_from l cs)"
proof (induction l cs rule: coalesce_from.induct)
  case (2 l c cs)
  have "\<forall>u\<in>set (coalesce_from c cs). v_end l \<le> v_begin u"
    using coalesce_from_begin [of c cs] 2(3) by (auto simp: wf_vmas_Cons)
  then show ?case
    using 2 by (auto simp: wf_vmas_Cons word_nat)
qed simp

lemma coalesce_from_at:
  "wf_vmas (l # cs) \<Longrightarrow> vm_at (coalesce_from l cs) a = vm_at (l # cs) a"
  by (induction l cs rule: coalesce_from.induct)
    (auto simp: wf_vmas_Cons in_vma_def word_nat)

lemma as_coalesce_wf [lx_inv]: "wf_vmas vs \<Longrightarrow> wf_vmas (as_coalesce vs)"
  by (cases vs) (simp_all add: as_coalesce_def coalesce_from_wf)

lemma as_coalesce_at: "wf_vmas vs \<Longrightarrow> vm_at (as_coalesce vs) = vm_at vs"
  by (cases vs) (simp_all add: as_coalesce_def coalesce_from_at fun_eq_iff del: vm_at.simps(2))

definition vma_apart :: "vma \<Rightarrow> vma \<Rightarrow> bool" where
  "vma_apart v u \<longleftrightarrow> v_end u \<le> v_begin v \<or> v_end v \<le> v_begin u"

lemma wf_vmas_insert_at:
  assumes wf: "wf_vmas vs" and v: "v_begin v < v_end v" and ap: "\<forall>u\<in>set vs. vma_apart v u"
  shows "wf_vmas (takeWhile (\<lambda>a. v_begin a < v_begin v) vs @ v #
                  dropWhile (\<lambda>a. v_begin a < v_begin v) vs)"
  using wf ap
proof (induction vs)
  case Nil
  then show ?case using v by (simp add: wf_vmas_Cons)
next
  case (Cons u us)
  then show ?case
    using v by (auto simp: wf_vmas_Cons vma_apart_def word_nat dest: set_takeWhileD set_dropWhileD)
qed

lemma as_insert_wf [lx_inv]:
  "wf_vmas vs \<Longrightarrow> v_begin v < v_end v \<Longrightarrow> \<forall>u\<in>set vs. vma_apart v u \<Longrightarrow> wf_vmas (as_insert vs v)"
  by (simp add: as_insert_def as_coalesce_wf wf_vmas_insert_at)

lemma vm_at_insert_at:
  "\<forall>u\<in>set vs. vma_apart v u \<Longrightarrow>
   vm_at (takeWhile P vs @ v # dropWhile P vs) a =
     (if in_vma a v then Some (v_prot v, v_anon v) else vm_at vs a)"
  by (induction vs) (auto simp: vma_apart_def in_vma_def word_nat)

lemma as_insert_at:
  "wf_vmas vs \<Longrightarrow> v_begin v < v_end v \<Longrightarrow> \<forall>u\<in>set vs. vma_apart v u \<Longrightarrow>
   vm_at (as_insert vs v) a = (if in_vma a v then Some (v_prot v, v_anon v) else vm_at vs a)"
  by (simp add: as_insert_def as_coalesce_at wf_vmas_insert_at vm_at_insert_at)

section \<open>Splitting\<close>

text \<open>Replacing every area by pieces that lie inside it keeps the order.\<close>

lemma wf_vmas_concat:
  assumes wf: "wf_vmas vs"
    and f: "\<And>v. v \<in> set vs \<Longrightarrow> wf_vmas (f v) \<and> (\<forall>u\<in>set (f v). v_begin v \<le> v_begin u \<and> v_end u \<le> v_end v)"
  shows "wf_vmas (concat (map f vs))"
  using assms
proof (induction vs)
  case (Cons v vs)
  have "v_end u \<le> v_begin w" if "u \<in> set (f v)" "x \<in> set vs" "w \<in> set (f x)" for u w x
  proof -
    have "v_end u \<le> v_end v" using Cons(3) that by simp
    also have "\<dots> \<le> v_begin x" using Cons(2) that by (auto simp: wf_vmas_Cons)
    also have "\<dots> \<le> v_begin w" using Cons(3) [of x] that by simp
    finally show ?thesis .
  qed
  then show ?case using Cons by (auto simp: wf_vmas_append wf_vmas_Cons)
qed simp

lemma unmap_wf: "wf_vmas vs \<Longrightarrow> lo < hi \<Longrightarrow> wf_vmas (concat (map (unmap_piece lo hi) vs))"
  by (rule wf_vmas_concat) (auto simp: unmap_piece_def wf_vmas_def word_nat)

lemma unmap_at:
  "lo < hi \<Longrightarrow> vm_at (concat (map (unmap_piece lo hi) vs)) a = (if lo \<le> a \<and> a < hi then None else vm_at vs a)"
  by (induction vs) (auto simp: unmap_piece_def in_vma_def word_nat)

lemma unmap_apart:
  "wf_vmas vs \<Longrightarrow> lo < hi \<Longrightarrow> u \<in> set (concat (map (unmap_piece lo hi) vs)) \<Longrightarrow> v_end u \<le> lo \<or> hi \<le> v_begin u"
  by (auto simp: unmap_piece_def word_nat split: if_splits)

lemma protect_wf: "wf_vmas vs \<Longrightarrow> lo < hi \<Longrightarrow> wf_vmas (concat (map (protect_piece lo hi p) vs))"
  by (rule wf_vmas_concat) (auto simp: protect_piece_def wf_vmas_def word_nat max_def min_def)

lemma protect_at:
  "lo < hi \<Longrightarrow> vm_at (concat (map (protect_piece lo hi p) vs)) a =
     (if lo \<le> a \<and> a < hi then map_option (\<lambda>(_, an). (p, an)) (vm_at vs a) else vm_at vs a)"
  by (induction vs) (auto simp: protect_piece_def in_vma_def word_nat max_def min_def)

lemma fully_mapped_from_iff:
  "wf_vmas vs \<Longrightarrow> cursor < hi \<Longrightarrow>
   fully_mapped_from cursor hi vs \<longleftrightarrow> (\<forall>a. cursor \<le> a \<and> a < hi \<longrightarrow> vm_at vs a \<noteq> None)"
proof (induction vs arbitrary: cursor)
  case Nil
  then show ?case by auto
next
  case (Cons v vs)
  have above: "vm_at vs a = None" if "a < v_end v" for a
    using Cons(2) that by (auto simp: vm_at_None_iff wf_vmas_Cons in_vma_def word_nat)
  have wf: "wf_vmas vs" using Cons(2) by (simp add: wf_vmas_Cons)
  consider (below) "v_end v \<le> cursor" | (hole) "cursor < v_end v" "cursor < v_begin v"
    | (last) "cursor < v_end v" "v_begin v \<le> cursor" "hi \<le> v_end v"
    | (more) "cursor < v_end v" "v_begin v \<le> cursor" "v_end v < hi"
    by fastforce
  then show ?case
  proof cases
    case below
    then show ?thesis using Cons.IH [OF wf Cons.prems(2)] by (auto simp: in_vma_def word_nat)
  next
    case hole
    then have "vm_at (v # vs) cursor = None" using above by (simp add: in_vma_def word_nat)
    then show ?thesis using hole Cons.prems(2) by (force simp: word_nat)
  next
    case last
    then show ?thesis by (auto simp: in_vma_def word_nat)
  next
    case more
    have "(\<forall>a. cursor \<le> a \<and> a < hi \<longrightarrow> vm_at (v # vs) a \<noteq> None)
        \<longleftrightarrow> (\<forall>a. v_end v \<le> a \<and> a < hi \<longrightarrow> vm_at vs a \<noteq> None)"
      using more by (auto simp: in_vma_def word_nat)
    then show ?thesis using more Cons.IH [OF wf more(3)] by (simp add: word_nat)
  qed
qed

lemma fully_mapped_iff:
  "wf_vmas vs \<Longrightarrow> lo < hi \<Longrightarrow>
   fully_mapped vs lo hi \<longleftrightarrow> (\<forall>a. lo \<le> a \<and> a < hi \<longrightarrow> vm_at vs a \<noteq> None)"
  by (simp add: fully_mapped_def fully_mapped_from_iff)

section \<open>Searching\<close>

lemma as_find_wf:
  assumes "wf_vmas (vmas s)"
  shows "as_find s a = List.find (in_vma a) (vmas s)"
proof -
  have "(let before = takeWhile (\<lambda>v. \<not> a < v_begin v) vs
         in if before = [] then None else if a < v_end (last before) then Some (last before) else None)
      = List.find (in_vma a) vs" if "wf_vmas vs" for vs
    using that
  proof (induction vs)
    case (Cons v vs)
    show ?case
    proof (cases "vs = [] \<or> a < v_begin (hd vs)")
      case True
      then have "\<forall>u\<in>set vs. a < v_begin u"
        using Cons(2) by (cases vs) (auto simp: wf_vmas_Cons word_nat)
      then have "takeWhile (\<lambda>v. \<not> a < v_begin v) vs = []" "List.find (in_vma a) vs = None"
        by (cases vs, auto simp: find_None_iff in_vma_def word_nat)
      moreover have "in_vma a v \<longleftrightarrow> \<not> a < v_begin v \<and> a < v_end v"
        by (auto simp: in_vma_def word_nat)
      ultimately show ?thesis by simp
    next
      case False
      then have "\<not> in_vma a v" "\<not> a < v_begin v" "takeWhile (\<lambda>v. \<not> a < v_begin v) vs \<noteq> []"
        using Cons(2) by (cases vs, auto simp: wf_vmas_Cons in_vma_def word_nat)+
      then show ?thesis using Cons by (auto simp: wf_vmas_Cons Let_def split: if_splits)
    qed
  qed simp
  then show ?thesis using assms by (simp add: as_find_def)
qed

lemma find_in_vma: "map_option (\<lambda>v. (v_prot v, v_anon v)) (List.find (in_vma a) vs) = vm_at vs a"
  by (induction vs) auto

lemma gap_scan_Inl:
  "gap_scan len ceil rs = Inl at \<Longrightarrow> wf_vmas (rev rs) \<Longrightarrow>
   (\<exists>c. at = c - len \<and> len \<le> c \<and> c \<le> ceil \<and> (\<forall>v\<in>set rs. v_end v \<le> at \<or> c \<le> v_begin v)
        \<and> (\<exists>v\<in>set rs. v_end v \<le> at))"
proof (induction rs arbitrary: ceil)
  case (Cons v rs)
  have wf: "wf_vmas (rev rs)" and below: "\<forall>u\<in>set rs. v_end u < v_end v"
    using Cons(3) by (auto simp: wf_vmas_append wf_vmas_Cons word_nat)
  show ?case
  proof (cases "ceil \<ge> v_end v \<and> ceil - v_end v \<ge> len")
    case True
    then have "at = ceil - len" using Cons(2) by simp
    moreover have "len \<le> ceil" "v_end v \<le> ceil - len"
      using True by (auto simp: word_nat unat_sub)
    ultimately show ?thesis using below by (intro exI [of _ ceil]) (auto simp: word_nat)
  next
    case False
    then have "gap_scan len (min ceil (v_begin v)) rs = Inl at" using Cons(2) by auto
    from Cons.IH [OF this wf] show ?thesis by auto
  qed
qed simp

lemma gap_scan_Inr:
  "gap_scan len ceil rs = Inr c \<Longrightarrow> c \<le> ceil \<and> (\<forall>v\<in>set rs. c \<le> v_begin v)"
  by (induction rs arbitrary: ceil) (fastforce split: if_splits)+

lemma find_first_begin:
  "wf_vmas vs \<Longrightarrow> List.find (\<lambda>v. b \<le> v_begin v) vs = Some u \<Longrightarrow> v \<in> set vs \<Longrightarrow> b \<le> v_begin v \<Longrightarrow>
   v_begin u \<le> v_begin v"
  by (induction vs) (force simp: wf_vmas_Cons word_nat split: if_splits)+

definition heap_floor :: "aspace \<Rightarrow> u64" where
  "heap_floor s = max (page_up (brk_cur s)) (arena_low s)"

lemma find_gap_sound:
  assumes wf: "wf_vmas (vmas s)" and gap: "find_gap s len = Some at" and len: "len \<noteq> 0"
  shows "at < at + len \<and> at + len \<le> arena_high s
    \<and> (\<forall>v\<in>set (vmas s). v_end v \<le> at \<or> at + len \<le> v_begin v)
    \<and> ((\<forall>v\<in>set (vmas s). heap_floor s \<le> v_begin v) \<longrightarrow> heap_floor s \<le> at)"
proof (cases "gap_scan len (arena_high s) (rev (vmas s))")
  case (Inl b)
  then have "b = at" using gap by (simp add: find_gap_def)
  then obtain c where c: "at = c - len" "len \<le> c" "c \<le> arena_high s"
    and apart: "\<forall>v\<in>set (vmas s). v_end v \<le> at \<or> c \<le> v_begin v" and ex: "\<exists>v\<in>set (vmas s). v_end v \<le> at"
    using gap_scan_Inl [OF Inl] wf by auto
  have "at + len = c" "at < c" using c len by (auto simp: word_nat unat_sub unat_eq_0 [symmetric])
  moreover have "heap_floor s \<le> at" if "\<forall>v\<in>set (vmas s). heap_floor s \<le> v_begin v"
    using ex that wf by (force simp: wf_vmas_def word_nat)
  ultimately show ?thesis using c apart by auto
next
  case (Inr c)
  then have c: "c \<le> arena_high s" "\<forall>v\<in>set (vmas s). c \<le> v_begin v"
    using gap_scan_Inr [OF Inr] by auto
  have "heap_floor s \<le> c" "len \<le> c - heap_floor s" "at = c - len"
    using gap Inr by (auto simp: find_gap_def heap_floor_def Let_def split: if_splits)
  then have "at + len = c" "at < c" "heap_floor s \<le> at"
    using len by (auto simp: word_nat unat_sub unat_eq_0 [symmetric])
  then show ?thesis using c by auto
qed

section \<open>Pages\<close>

definition aligned :: "u64 \<Rightarrow> bool" where
  "aligned a \<longleftrightarrow> 4096 dvd unat a"

lemma page_down_eq: "page_down a = a - take_bit 12 a"
proof -
  have "a AND NOT (mask 12) = push_bit 12 (drop_bit 12 a)"
    by (rule bit_eqI) (auto simp: bit_simps)
  also have "\<dots> = a - take_bit 12 a"
    using bits_ident [of 12 a] by (simp add: algebra_simps)
  finally show ?thesis by (simp add: page_down_def mask_eq_exp_minus_1)
qed

lemma unat_page_down: "unat (page_down a) = unat a - unat a mod 4096"
proof -
  have t: "unat (take_bit 12 a) = unat a mod 4096"
    by (simp add: take_bit_eq_mod unat_mod_distrib)
  then have "take_bit 12 a \<le> a" by (simp add: word_le_nat_alt)
  then show ?thesis by (simp add: page_down_eq unat_sub t)
qed

lemma page_up_eq: "page_up a = page_down (a + 0xFFF)"
  by (simp add: page_up_def page_down_def algebra_simps)

lemma page_down_le: "page_down a \<le> a"
  by (simp add: word_le_nat_alt unat_page_down)

lemma aligned_page_down [simp]: "aligned (page_down a)"
  by (simp add: aligned_def unat_page_down dvd_minus_mod)

lemma aligned_page_up [simp]: "aligned (page_up a)"
  by (simp add: page_up_eq)

lemma page_down_aligned [simp]: "aligned a \<Longrightarrow> page_down a = a"
  by (simp add: aligned_def word_unat_eq_iff unat_page_down)

lemma aligned_add: "aligned a \<Longrightarrow> aligned b \<Longrightarrow> aligned (a + b)"
  by (simp add: aligned_def unat_word_ariths dvd_mod_iff)

lemma aligned_le: "aligned a \<Longrightarrow> unat a \<le> 2 ^ 64 - 4096"
proof -
  assume "aligned a"
  then obtain k where k: "unat a = 4096 * k" by (auto simp: aligned_def dvd_def)
  have "unat a < 2 ^ 64" by simp
  then show ?thesis using k by simp
qed

lemma page_up_nat:
  assumes "unat a \<le> 2 ^ 64 - 4096"
  shows "unat (page_up a) = (unat a + 4095) div 4096 * 4096"
proof -
  have "unat (a + 0xFFF) = unat a + 4095"
    using assms unat_plus_no_wrap [of a "0xFFF"] by simp
  then show ?thesis by (simp add: page_up_eq unat_page_down minus_mod_eq_div_mult)
qed

lemma page_up_ge: "unat a \<le> 2 ^ 64 - 4096 \<Longrightarrow> a \<le> page_up a"
  by (simp add: word_le_nat_alt page_up_nat)

lemma page_up_aligned [simp]: "aligned a \<Longrightarrow> page_up a = a"
proof -
  assume a: "aligned a"
  then obtain k where k: "unat a = 4096 * k" by (auto simp: aligned_def dvd_def)
  have "unat (page_up a) = unat a"
    using page_up_nat [OF aligned_le [OF a]] by (simp add: k)
  then show ?thesis by (simp add: word_unat_eq_iff)
qed

section \<open>The operations against the map of addresses\<close>

definition wf_aspace :: "aspace \<Rightarrow> bool" where
  "wf_aspace s \<longleftrightarrow> wf_vmas (vmas s)"

lemma as_unmap_frame [simp]:
  "arena_low (as_unmap s a l) = arena_low s" "arena_high (as_unmap s a l) = arena_high s"
  "brk_base (as_unmap s a l) = brk_base s" "brk_cur (as_unmap s a l) = brk_cur s"
  by (simp_all add: as_unmap_def Let_def)

lemma as_unmap_wf [lx_inv]: "wf_aspace s \<Longrightarrow> wf_aspace (as_unmap s a l)"
  by (simp add: wf_aspace_def as_unmap_def Let_def unmap_wf not_le)

lemma as_unmap_at:
  "vm_at (vmas (as_unmap s addr len)) a =
     (if page_down addr \<le> a \<and> a < page_up (addr + len) then None else vm_at (vmas s) a)"
  by (auto simp: as_unmap_def Let_def unmap_at not_le word_nat)

lemma as_unmap_apart:
  "wf_aspace s \<Longrightarrow> page_down addr < page_up (addr + len) \<Longrightarrow> u \<in> set (vmas (as_unmap s addr len)) \<Longrightarrow>
   v_end u \<le> page_down addr \<or> page_up (addr + len) \<le> v_begin u"
  using unmap_apart [of "vmas s" "page_down addr" "page_up (addr + len)" u]
  by (simp add: as_unmap_def Let_def wf_aspace_def not_le [symmetric] del: set_concat)

text \<open>A wrapping end address is the case the callers have to exclude.\<close>

definition no_wrap :: "u64 \<Rightarrow> u64 \<Rightarrow> bool" where
  "no_wrap at len \<longleftrightarrow> unat at + unat len < 2 ^ 64"

lemma no_wrap_less: "no_wrap at len \<Longrightarrow> len \<noteq> 0 \<Longrightarrow> at < at + len"
  by (simp add: no_wrap_def word_less_nat_alt unat_plus_no_wrap unat_gt_0)

lemma as_map_fixed:
  fixes p :: guest_prot and an :: bool
  assumes wf: "wf_aspace s" and al: "aligned at" "aligned len" and len: "len \<noteq> 0" and nw: "no_wrap at len"
  defines "s' \<equiv> as_unmap s at len"
  defines "vs \<equiv> as_insert (vmas s') (mk_vma at (at + len) p an)"
  shows "wf_vmas vs \<and> vm_at vs a = (if at \<le> a \<and> a < at + len then Some (p, an) else vm_at (vmas s) a)"
proof -
  have lt: "at < at + len" by (rule no_wrap_less [OF nw len])
  have pages: "page_down at = at" "page_up (at + len) = at + len"
    using al by (simp_all add: aligned_add)
  have "wf_vmas (vmas s')" using as_unmap_wf [OF wf] by (simp add: s'_def wf_aspace_def)
  moreover have "\<forall>u\<in>set (vmas s'). vma_apart (mk_vma at (at + len) p an) u"
    using as_unmap_apart [OF wf, of at len] lt pages by (auto simp: s'_def vma_apart_def)
  ultimately show ?thesis
    using lt by (auto simp: vs_def as_insert_wf as_insert_at in_vma_def s'_def as_unmap_at pages)
qed

lemma as_map_gap:
  fixes p :: guest_prot and an :: bool
  assumes wf: "wf_aspace s" and gap: "find_gap s len = Some at" and len: "len \<noteq> 0"
  defines "vs \<equiv> as_insert (vmas s) (mk_vma at (at + len) p an)"
  shows "wf_vmas vs \<and> vm_at vs a = (if at \<le> a \<and> a < at + len then Some (p, an) else vm_at (vmas s) a)
    \<and> (at \<le> a \<and> a < at + len \<longrightarrow> vm_at (vmas s) a = None)"
proof -
  have wf': "wf_vmas (vmas s)" using wf by (simp add: wf_aspace_def)
  note g = find_gap_sound [OF wf' gap len]
  then have "\<forall>u\<in>set (vmas s). vma_apart (mk_vma at (at + len) p an) u"
    by (auto simp: vma_apart_def)
  moreover have "at \<le> a \<and> a < at + len \<longrightarrow> vm_at (vmas s) a = None"
    using g by (auto simp: vm_at_None_iff in_vma_def word_nat)
  ultimately show ?thesis
    using g wf' by (auto simp: vs_def as_insert_wf as_insert_at in_vma_def)
qed

lemma kFail_not_aligned: "\<not> aligned kFail"
proof -
  have "unat kFail = 2 ^ 64 - 1" by (simp add: kFail_def unsigned_minus_1_eq_mask mask_eq_exp_minus_1)
  then show ?thesis using aligned_le [of kFail] by auto
qed

lemma less_not_kFail: "a < (b :: u64) \<Longrightarrow> a \<noteq> kFail"
  by (auto simp: kFail_def)

lemma as_map_cases:
  assumes "as_map s hint len0 p fixed an = (r, s')"
  obtains (fail) "r = kFail" "s' = s"
  | (fixed) "fixed" "hint \<noteq> 0" "r = page_down hint" "page_up len0 \<noteq> 0" "arena_low s \<le> r"
      "r + page_up len0 \<le> arena_high s"
      "s' = (as_unmap s r (page_up len0))
              \<lparr>vmas := as_insert (vmas (as_unmap s r (page_up len0))) (mk_vma r (r + page_up len0) p an)\<rparr>"
  | (gap) "\<not> (fixed \<and> hint \<noteq> 0)" "page_up len0 \<noteq> 0" "find_gap s (page_up len0) = Some r"
      "s' = s\<lparr>vmas := as_insert (vmas s) (mk_vma r (r + page_up len0) p an)\<rparr>"
proof (cases "page_up len0 = 0")
  case True
  then show thesis using assms by (intro fail) (simp_all add: as_map_def)
next
  case len: False
  show thesis
  proof (cases "fixed \<and> hint \<noteq> 0")
    case fx: True
    show thesis
    proof (cases "page_down hint < arena_low s \<or> page_down hint + page_up len0 > arena_high s")
      case True
      then show thesis using assms len fx by (intro fail) (auto simp: as_map_def Let_def)
    next
      case False
      then have "as_map s hint len0 p fixed an = (page_down hint,
          (as_unmap s (page_down hint) (page_up len0))
            \<lparr>vmas := as_insert (vmas (as_unmap s (page_down hint) (page_up len0)))
                       (mk_vma (page_down hint) (page_down hint + page_up len0) p an)\<rparr>)"
        using len fx by (simp add: as_map_def Let_def)
      then show thesis
        using assms len fx False by (intro fixed) auto
    qed
  next
    case nf: False
    show thesis
    proof (cases "find_gap s (page_up len0)")
      case None
      then show thesis using assms len nf by (intro fail) (auto simp: as_map_def)
    next
      case (Some at)
      then have "as_map s hint len0 p fixed an =
          (at, s\<lparr>vmas := as_insert (vmas s) (mk_vma at (at + page_up len0) p an)\<rparr>)"
        using len nf by (auto simp: as_map_def Let_def)
      then show thesis using assms len nf Some by (intro gap) auto
    qed
  qed
qed

lemma as_map_wf [lx_inv]:
  assumes wf: "wf_aspace s" and m: "as_map s hint len p fixed an = (r, s')"
    and nw: "fixed \<longrightarrow> no_wrap (page_down hint) (page_up len)"
  shows "wf_aspace s'"
  using m
proof (cases rule: as_map_cases)
  case fixed
  then show ?thesis
    using as_map_fixed [OF wf, of r "page_up len" p an] nw by (simp add: wf_aspace_def)
next
  case gap
  then show ?thesis using as_map_gap [OF wf, of "page_up len" r p an] by (simp add: wf_aspace_def)
qed (use wf in simp)

lemma as_protect_wf [lx_inv]:
  "wf_aspace s \<Longrightarrow> wf_aspace (snd (as_protect s addr len p))"
  by (simp add: as_protect_def Let_def wf_aspace_def as_coalesce_wf protect_wf not_le)

lemma as_set_brk_vmas [simp]: "vmas (snd (as_set_brk s want)) = vmas s"
  by (simp add: as_set_brk_def)

lemma as_adopt_correct:
  assumes wf: "wf_aspace s" and v: "v_begin v < v_end v" and top: "unat (v_end v) \<le> 2 ^ 64 - 4096"
  shows "wf_aspace (as_adopt s v)
    \<and> (\<forall>a. vm_at (vmas (as_adopt s v)) a =
         (if in_vma a v then Some (v_prot v, v_anon v)
          else if page_down (v_begin v) \<le> a \<and> a < page_up (v_end v) then None
          else vm_at (vmas s) a))"
proof -
  let ?s = "as_unmap s (v_begin v) (v_end v - v_begin v)"
  have range: "page_down (v_begin v) \<le> v_begin v" "v_end v \<le> page_up (v_end v)"
    using page_down_le page_up_ge [OF top] by auto
  then have "page_down (v_begin v) < page_up (v_end v)" using v by (simp add: word_nat)
  then have "\<forall>u\<in>set (vmas ?s). vma_apart v u"
    using as_unmap_apart [OF wf, of "v_begin v" "v_end v - v_begin v"] range
    by (force simp: vma_apart_def word_nat)
  moreover have "wf_vmas (vmas ?s)" using as_unmap_wf [OF wf] by (simp add: wf_aspace_def)
  moreover have "as_adopt s v = ?s\<lparr>vmas := as_insert (vmas ?s) v\<rparr>"
    using v by (auto simp: as_adopt_def Let_def)
  ultimately show ?thesis
    using v by (simp add: wf_aspace_def as_insert_wf as_insert_at as_unmap_at)
qed

section \<open>Properties\<close>

text \<open>The states a backend can bring the map into: any sequence of operations from
  \<open>reset\<close>, with fixed mappings and adopted areas that do not run past the top of
  the 64-bit space.\<close>

inductive as_reach :: "aspace \<Rightarrow> bool" where
  reset: "as_reach (as_reset low high)"
| brk: "as_reach s \<Longrightarrow> as_reach (snd (as_set_brk s want))"
| mmap: "as_reach s \<Longrightarrow> fixed \<longrightarrow> no_wrap (page_down hint) (page_up len) \<Longrightarrow>
         as_reach (snd (as_map s hint len p fixed an))"
| munmap: "as_reach s \<Longrightarrow> as_reach (as_unmap s addr len)"
| mprotect: "as_reach s \<Longrightarrow> as_reach (snd (as_protect s addr len p))"
| adopt: "as_reach s \<Longrightarrow> unat (v_end v) \<le> 2 ^ 64 - 4096 \<Longrightarrow> as_reach (as_adopt s v)"


text \<open>A small map used by the witnesses: 16 pages of arena with two areas.\<close>

definition demo_space :: aspace where
  "demo_space =
    \<lparr>vmas = [mk_vma 0x12000 0x14000 3 True, mk_vma 0x14000 0x18000 1 True],
     arena_low = 0x10000, arena_high = 0x20000, brk_base = 0x10000, brk_cur = 0x10000\<rparr>"

lemma demo_space_built:
  "demo_space =
     snd (as_map (snd (as_map (as_reset 0x10000 0x20000) 0x12000 0x2000 3 True True))
       0x14000 0x4000 1 True True)"
  by code_simp

lemma demo_space_wf: "wf_aspace demo_space"
  by (simp add: demo_space_def wf_aspace_def wf_vmas_def)


text \<open>C10: \<open>munmap\<close> removes exactly the pages of the range: every address of the rounded
  range becomes unmapped, every other address keeps its attributes, areas that the
  range cuts are split, and the break and the arena are untouched.\<close>

theorem as_unmap_correct:
  assumes "wf_vmas (vmas s)"
  shows "wf_vmas (vmas (as_unmap s addr len))
    \<and> (\<forall>a. vm_at (vmas (as_unmap s addr len)) a =
         (if page_down addr \<le> a \<and> a < page_up (addr + len) then None else vm_at (vmas s) a))
    \<and> as_arena (as_unmap s addr len) = as_arena s \<and> brk_cur (as_unmap s addr len) = brk_cur s"
  using assms as_unmap_wf [of s addr len] by (simp add: wf_aspace_def as_unmap_at as_arena_def)

theorem as_unmap_correct_witness:
  "vm_at (vmas (as_unmap demo_space 0x15000 0x800)) 0x14fff = Some (1, True)
   \<and> vm_at (vmas (as_unmap demo_space 0x15000 0x800)) 0x15fff = None
   \<and> vm_at (vmas (as_unmap demo_space 0x15000 0x800)) 0x16000 = Some (1, True)"
  using as_unmap_correct [where s = demo_space and addr = "0x15000" and len = "0x800"] demo_space_wf
  by (simp add: wf_aspace_def page_up_def page_down_def) (simp add: demo_space_def in_vma_def)

text \<open>C9: \<open>mprotect\<close> on a non-empty range reports failure exactly when some page of the
  range is not mapped, and then changes nothing; otherwise every address of the
  range gets the new protection, keeps its anonymous bit, and no other address
  changes.\<close>

theorem as_protect_correct:
  assumes "wf_vmas (vmas s)" and "page_down addr < page_up (addr + len)"
    and "as_protect s addr len p = (r, s')"
  shows "(r \<longleftrightarrow> (\<forall>a. page_down addr \<le> a \<and> a < page_up (addr + len) \<longrightarrow> vm_at (vmas s) a \<noteq> None))
    \<and> (if r
       then wf_vmas (vmas s')
            \<and> (\<forall>a. vm_at (vmas s') a =
                 (if page_down addr \<le> a \<and> a < page_up (addr + len)
                  then map_option (\<lambda>(_, an). (p, an)) (vm_at (vmas s) a) else vm_at (vmas s) a))
       else s' = s)"
proof -
  have nle: "\<not> page_up (addr + len) \<le> page_down addr" using assms(2) by simp
  show ?thesis
  proof (cases "fully_mapped (vmas s) (page_down addr) (page_up (addr + len))")
    case True
    then have r: "r" and s': "vmas s' = as_coalesce (concat (map (protect_piece (page_down addr) (page_up (addr + len)) p) (vmas s)))"
      using assms(3) by (auto simp: as_protect_def Let_def nle)
    show ?thesis
      using r s' True fully_mapped_iff [OF assms(1,2)] protect_wf [OF assms(1,2)]
      by (simp add: as_coalesce_wf as_coalesce_at protect_at [OF assms(2)])
  next
    case False
    then have "\<not> r" "s' = s" using assms(3) by (auto simp: as_protect_def Let_def nle)
    then show ?thesis using False fully_mapped_iff [OF assms(1,2)] by simp
  qed
qed

theorem as_protect_correct_witness:
  "fst (as_protect demo_space 0x13000 0x2000 5)
   \<and> vm_at (vmas (snd (as_protect demo_space 0x13000 0x2000 5))) 0x12fff = Some (3, True)
   \<and> vm_at (vmas (snd (as_protect demo_space 0x13000 0x2000 5))) 0x14fff = Some (5, True)
   \<and> vm_at (vmas (snd (as_protect demo_space 0x13000 0x2000 5))) 0x15000 = Some (1, True)"
proof -
  have r: "fst (as_protect demo_space 0x13000 0x2000 5)" by code_simp
  have "page_down 0x13000 < page_up (0x13000 + 0x2000)" by (simp add: page_up_def page_down_def)
  from as_protect_correct [OF _ this surjective_pairing] demo_space_wf
  have "\<forall>a. vm_at (vmas (snd (as_protect demo_space 0x13000 0x2000 5))) a =
      (if page_down 0x13000 \<le> a \<and> a < page_up (0x13000 + 0x2000)
       then map_option (\<lambda>(_, an). (5, an)) (vm_at (vmas demo_space) a) else vm_at (vmas demo_space) a)"
    using r unfolding wf_aspace_def by meson
  moreover have "vm_at (vmas demo_space) 0x12fff = Some (3, True)"
    "vm_at (vmas demo_space) 0x14fff = Some (1, True)" "vm_at (vmas demo_space) 0x15000 = Some (1, True)"
    by (simp_all add: demo_space_def in_vma_def)
  ultimately show ?thesis
    using r by (simp add: page_up_def page_down_def)
qed





section \<open>Arguments that wrap\<close>

text \<open>Without the guards above the 64-bit sums wrap.  A fixed request at the top of
  the address space passes the arena check and records an area that ends before
  it begins; a break request in the last page is granted.\<close>

lemma as_map_fixed_wraps:
  "let s = as_reset 0x10000 0x20000; (r, s') = as_map s 0xfffffffffffff000 0x2000 3 True True
   in r = 0xfffffffffffff000 \<and> vmas s' = [mk_vma 0xfffffffffffff000 0x1000 3 True] \<and> \<not> wf_vmas (vmas s')"
proof -
  have "as_map (as_reset 0x10000 0x20000) 0xfffffffffffff000 0x2000 3 True True
      = (0xfffffffffffff000, (as_reset 0x10000 0x20000)\<lparr>vmas := [mk_vma 0xfffffffffffff000 0x1000 3 True]\<rparr>)"
    by code_simp
  then show ?thesis by (simp add: wf_vmas_def)
qed

lemma as_set_brk_wraps:
  "fst (as_set_brk (as_reset 0x10000 0x20000) 0xffffffffffffffff) = 0xffffffffffffffff"
  by code_simp

text \<open>With an area below the heap (a loaded image), the downward scan returns as soon
  as the gap above that area is large enough, without looking at the break: the
  new mapping covers addresses of the heap.\<close>

lemma as_map_over_heap:
  "let s0 = as_adopt (as_reset 0x100000 0x200000) (mk_vma 0x10000 0x20000 5 False);
       s1 = snd (as_set_brk s0 0x180000);
       (r, s2) = as_map s1 0 0xc0000 3 False True
   in brk_base s1 = 0x100000 \<and> brk_cur s1 = 0x180000 \<and> r = 0x140000"
  by code_simp

end
