(* ===== verification/Lx_ProcTable.thy ===== *)
theory Lx_ProcTable
  imports Lx_Prelude
begin

text \<open>
  The virtual process table \<open>ProcessTable\<close> of \<open>kernel/process_table.hpp\<close>: process
  groups, sessions and controlling terminals.  The backend's view of live processes
  (\<open>LiveSource\<close>) is a record of functions.  \<open>pgid_of\<close>, \<open>sid_of\<close>, \<open>find\<close> and the walk of
  \<open>ctty_of\<close> follow parent links that nothing forces to be acyclic, so they take
  fuel and return \<open>None\<close> when it runs out; the result does not depend on the fuel
  once there is enough.
\<close>

section \<open>The code\<close>

record proc_info =
  pi_pid :: int
  pi_ppid :: int
  pi_pgid :: int
  pi_sid :: int
  pi_ctty :: int
  pi_comm :: string
  pi_cmdline :: string
  pi_state :: char
  pi_rss :: u64
  pi_vsize :: u64
  pi_uid :: u32
  pi_gid :: u32
  pi_exe :: string
  pi_threads :: "int list"
  pi_groups :: "u32 list"
  pi_groups_set :: bool

definition proc_default :: proc_info where
  "proc_default =
    \<lparr>pi_pid = 1, pi_ppid = 0, pi_pgid = 0, pi_sid = 0, pi_ctty = - 1, pi_comm = ''linuxity'',
     pi_cmdline = ''linuxity'', pi_state = CHR ''R'', pi_rss = 256, pi_vsize = 16 * 1048576,
     pi_uid = 0, pi_gid = 0, pi_exe = [], pi_threads = [], pi_groups = [], pi_groups_set = False\<rparr>"

record live_source =
  ls_alive :: "int \<Rightarrow> bool"
  ls_pids :: "int list"
  ls_info :: "int \<Rightarrow> proc_info"

record proc_table =
  pt_procs :: "(int \<times> proc_info) list"
  pt_live :: "live_source option"

abbreviation kInheritedPgid :: int where
  "kInheritedPgid \<equiv> 0x7fff0000"

definition pt_init :: proc_table where
  "pt_init =
    \<lparr>pt_procs = [(1, proc_default\<lparr>pi_pgid := kInheritedPgid, pi_sid := kInheritedPgid\<rparr>)], pt_live = None\<rparr>"

text \<open>\<open>procs_[pid]\<close>: default-constructs the record of an unknown pid.\<close>

definition pt_at :: "proc_table \<Rightarrow> int \<Rightarrow> proc_info" where
  "pt_at t pid = (case map_of (pt_procs t) pid of None \<Rightarrow> proc_default | Some p \<Rightarrow> p)"

definition pt_store :: "int \<Rightarrow> proc_info \<Rightarrow> proc_table \<Rightarrow> proc_table" where
  "pt_store pid p t = t\<lparr>pt_procs := tm_update pid p (pt_procs t)\<rparr>"

definition live_at :: "proc_table \<Rightarrow> int \<Rightarrow> proc_info option" where
  "live_at t pid =
    (case pt_live t of None \<Rightarrow> None | Some l \<Rightarrow> if ls_alive l pid then Some (ls_info l pid) else None)"

text \<open>The refresh of a known record from the live table in \<open>find\<close>.\<close>

definition pt_refresh :: "proc_info \<Rightarrow> proc_info \<Rightarrow> proc_info" where
  "pt_refresh l p =
    (let p1 = (if pi_exe l \<noteq> [] \<and> pi_exe l \<noteq> pi_exe p
               then p\<lparr>pi_comm := pi_comm l, pi_cmdline := pi_cmdline l, pi_exe := pi_exe l\<rparr> else p)
     in if pi_ppid l \<noteq> 0 then p1\<lparr>pi_ppid := pi_ppid l\<rparr> else p1)"

fun pgid_of :: "nat \<Rightarrow> proc_table \<Rightarrow> int \<Rightarrow> int option"
  and pt_find :: "nat \<Rightarrow> proc_table \<Rightarrow> int \<Rightarrow> proc_info option option" where
  "pgid_of 0 t pid = None"
| "pgid_of (Suc n) t pid =
    (if pid \<le> 0 then Some pid
     else case pt_find n t pid of
            None \<Rightarrow> None
          | Some None \<Rightarrow> Some pid
          | Some (Some p) \<Rightarrow>
              if pi_pgid p \<noteq> 0 then Some (pi_pgid p)
              else if pi_ppid p \<noteq> 0 \<and> pi_ppid p \<noteq> pi_pid p then pgid_of n t (pi_ppid p)
              else Some (pi_pid p))"
| "pt_find 0 t pid = None"
| "pt_find (Suc n) t pid =
    (case map_of (pt_procs t) pid of
       Some p \<Rightarrow> (case live_at t pid of
                    Some l \<Rightarrow> Some (Some (pt_refresh l p))
                  | None \<Rightarrow> Some (Some p))
     | None \<Rightarrow>
         (case live_at t pid of
            None \<Rightarrow> Some None
          | Some l \<Rightarrow>
              let p = l\<lparr>pi_pid := pid\<rparr>
              in if pi_pgid p = 0 \<and> pi_ppid p \<noteq> 0 \<and> pi_ppid p \<noteq> pid
                 then (case pgid_of n t (pi_ppid p) of
                         None \<Rightarrow> None
                       | Some g \<Rightarrow> Some (Some (p\<lparr>pi_pgid := g\<rparr>)))
                 else Some (Some p)))"

fun sid_of :: "nat \<Rightarrow> proc_table \<Rightarrow> int \<Rightarrow> int option" where
  "sid_of 0 t pid = None"
| "sid_of (Suc n) t pid =
    (if pid \<le> 0 then Some pid
     else case pt_find n t pid of
            None \<Rightarrow> None
          | Some None \<Rightarrow> Some pid
          | Some (Some p) \<Rightarrow>
              if pi_sid p \<noteq> 0 then Some (pi_sid p)
              else if pi_ppid p \<noteq> 0 \<and> pi_ppid p \<noteq> pi_pid p then sid_of n t (pi_ppid p)
              else Some (pi_pid p))"

definition pt_upsert :: "proc_info \<Rightarrow> proc_table \<Rightarrow> proc_table" where
  "pt_upsert p t =
    (let cur = pt_at t (pi_pid p);
         new = p\<lparr>pi_pgid := if pi_pgid p \<noteq> 0 then pi_pgid p else pi_pgid cur,
                 pi_sid := if pi_sid p \<noteq> 0 then pi_sid p else pi_sid cur,
                 pi_threads := if pi_threads p = [] then pi_threads cur else pi_threads p,
                 pi_groups := if \<not> pi_groups_set p then pi_groups cur else pi_groups p,
                 pi_groups_set := if \<not> pi_groups_set p then pi_groups_set cur else True\<rparr>
     in pt_store (pi_pid p) new t)"

definition add_thread :: "int \<Rightarrow> int \<Rightarrow> proc_table \<Rightarrow> proc_table" where
  "add_thread pid tid t =
    (case map_of (pt_procs t) pid of
       None \<Rightarrow> t
     | Some p \<Rightarrow>
         if tid = pid \<or> tid \<in> set (pi_threads p) then t
         else pt_store pid (p\<lparr>pi_threads := pi_threads p @ [tid]\<rparr>) t)"

definition drop_thread :: "int \<Rightarrow> proc_table \<Rightarrow> proc_table" where
  "drop_thread tid t =
    t\<lparr>pt_procs := map (\<lambda>(k, p). (k, p\<lparr>pi_threads := removeAll tid (pi_threads p)\<rparr>)) (pt_procs t)\<rparr>"

definition set_comm :: "int \<Rightarrow> string \<Rightarrow> proc_table \<Rightarrow> proc_table" where
  "set_comm pid comm t =
    (let p = (pt_at t pid)\<lparr>pi_pid := pid, pi_comm := comm\<rparr>
     in pt_store pid (if pi_cmdline p = [] then p\<lparr>pi_cmdline := comm\<rparr> else p) t)"

definition pt_add :: "nat \<Rightarrow> int \<Rightarrow> int \<Rightarrow> proc_table \<Rightarrow> proc_table option" where
  "pt_add n pid ppid t =
    (case pgid_of n t ppid of
       None \<Rightarrow> None
     | Some g \<Rightarrow> Some (pt_store pid (proc_default\<lparr>pi_pid := pid, pi_ppid := ppid, pi_pgid := g\<rparr>) t))"

text \<open>\<open>if (p.pid == 0) p.pid = pid\<close>, which the four setters below share.\<close>

definition first_mention :: "int \<Rightarrow> proc_info \<Rightarrow> proc_info" where
  "first_mention pid p = (if pi_pid p = 0 then p\<lparr>pi_pid := pid\<rparr> else p)"

definition set_sid :: "int \<Rightarrow> proc_table \<Rightarrow> proc_table" where
  "set_sid pid t =
    pt_store pid ((first_mention pid (pt_at t pid))\<lparr>pi_sid := pid, pi_pgid := pid, pi_ctty := - 1\<rparr>) t"

definition set_pgid :: "int \<Rightarrow> int \<Rightarrow> proc_table \<Rightarrow> proc_table" where
  "set_pgid pid pgid t =
    pt_store pid ((first_mention pid (pt_at t pid))\<lparr>pi_pgid := if pgid \<noteq> 0 then pgid else pid\<rparr>) t"

text \<open>The walk of \<open>ctty_of\<close> from \<open>p\<close> up the tree, inside session \<open>sess\<close>.\<close>

fun ctty_walk :: "nat \<Rightarrow> proc_table \<Rightarrow> int \<Rightarrow> proc_info option \<Rightarrow> int option" where
  "ctty_walk 0 t sess q = None"
| "ctty_walk (Suc n) t sess None = Some (- 1)"
| "ctty_walk (Suc n) t sess (Some p) =
    (case sid_of n t (pi_pid p) of
       None \<Rightarrow> None
     | Some s \<Rightarrow>
         if s \<noteq> sess then Some (- 1)
         else if pi_ctty p \<ge> 0 then Some (pi_ctty p)
         else if pi_ppid p = 0 \<or> pi_ppid p = pi_pid p then Some (- 1)
         else case pt_find n t (pi_ppid p) of
                None \<Rightarrow> None
              | Some q \<Rightarrow> ctty_walk n t sess q)"

definition ctty_of :: "nat \<Rightarrow> proc_table \<Rightarrow> int \<Rightarrow> int option" where
  "ctty_of n t pid =
    (if pid \<le> 0 then Some (- 1)
     else case sid_of n t pid of
            None \<Rightarrow> None
          | Some leader \<Rightarrow>
              (case pt_find n t leader of
                 None \<Rightarrow> None
               | Some l \<Rightarrow>
                   if (case l of None \<Rightarrow> False | Some p \<Rightarrow> pi_ctty p \<ge> 0)
                   then Some (pi_ctty (the l))
                   else case pt_find n t pid of None \<Rightarrow> None | Some q \<Rightarrow> ctty_walk n t leader q))"

definition set_ctty :: "nat \<Rightarrow> int \<Rightarrow> int \<Rightarrow> proc_table \<Rightarrow> proc_table option" where
  "set_ctty n pid tty t =
    (case sid_of n t pid of
       None \<Rightarrow> None
     | Some leader \<Rightarrow>
         let t1 = pt_store leader ((first_mention leader (pt_at t leader))\<lparr>pi_ctty := tty\<rparr>) t
         in Some (pt_store pid ((first_mention pid (pt_at t1 pid))\<lparr>pi_ctty := tty\<rparr>) t1))"

text \<open>The loop of \<open>clear_ctty\<close> writes only \<open>ctty\<close>, which \<open>sid_of\<close> does not read.\<close>

definition clear_ctty :: "nat \<Rightarrow> int \<Rightarrow> proc_table \<Rightarrow> proc_table" where
  "clear_ctty n pid t =
    t\<lparr>pt_procs := map (\<lambda>(k, p). (k, if sid_of n t k = sid_of n t pid then p\<lparr>pi_ctty := - 1\<rparr> else p)) (pt_procs t)\<rparr>"

definition pt_remove :: "int \<Rightarrow> proc_table \<Rightarrow> proc_table" where
  "pt_remove pid t = (if pid \<noteq> 1 then t\<lparr>pt_procs := AList.delete pid (pt_procs t)\<rparr> else t)"

definition pt_has :: "nat \<Rightarrow> proc_table \<Rightarrow> int \<Rightarrow> bool option" where
  "pt_has n t pid = map_option (\<lambda>q. q \<noteq> None) (pt_find n t pid)"

definition groups_of :: "nat \<Rightarrow> proc_table \<Rightarrow> int \<Rightarrow> u32 list option" where
  "groups_of n t pid =
    map_option (\<lambda>q. case q of Some p \<Rightarrow> if pi_groups_set p then pi_groups p else [0] | None \<Rightarrow> [0])
      (pt_find n t pid)"

definition set_groups :: "int \<Rightarrow> u32 list \<Rightarrow> proc_table \<Rightarrow> proc_table" where
  "set_groups pid g t =
    pt_store pid ((first_mention pid (pt_at t pid))\<lparr>pi_groups := g, pi_groups_set := True\<rparr>) t"

definition pt_pids :: "proc_table \<Rightarrow> int list" where
  "pt_pids t =
    (case pt_live t of
       None \<Rightarrow> map fst (pt_procs t)
     | Some l \<Rightarrow> sort (map fst (pt_procs t) @ filter (\<lambda>p. map_of (pt_procs t) p = None) (ls_pids l)))"

definition pt_count :: "proc_table \<Rightarrow> nat" where
  "pt_count t = length (pt_pids t)"

definition members_of :: "nat \<Rightarrow> proc_table \<Rightarrow> int \<Rightarrow> int list" where
  "members_of n t pgid =
    filter (\<lambda>p. \<not> (case pt_live t of Some l \<Rightarrow> \<not> ls_alive l p | None \<Rightarrow> False) \<and> pgid_of n t p = Some pgid)
      (pt_pids t)"

section \<open>Fuel\<close>

declare pgid_of.simps [simp del] pt_find.simps [simp del] sid_of.simps [simp del] ctty_walk.simps [simp del]

lemmas zero_fuel [simp] = pgid_of.simps(1) pt_find.simps(1) sid_of.simps(1)

lemma fuel_Suc:
  "(\<forall>pid g. pgid_of n t pid = Some g \<longrightarrow> pgid_of (Suc n) t pid = Some g)
   \<and> (\<forall>pid q. pt_find n t pid = Some q \<longrightarrow> pt_find (Suc n) t pid = Some q)"
proof (induction n)
  case (Suc n)
  have "pgid_of (Suc (Suc n)) t pid = Some g" if h: "pgid_of (Suc n) t pid = Some g" for pid g
    using h [unfolded pgid_of.simps(2) [of n]] Suc unfolding pgid_of.simps(2) [of "Suc n"]
    by (auto split: if_splits option.splits)
  moreover have "pt_find (Suc (Suc n)) t pid = Some q" if h: "pt_find (Suc n) t pid = Some q" for pid q
    using h [unfolded pt_find.simps(2) [of n]] Suc unfolding pt_find.simps(2) [of "Suc n"]
    by (auto simp: Let_def split: if_splits option.splits)
  ultimately show ?case by blast
qed simp

lemma fuel_mono:
  assumes "n \<le> m"
  shows "pgid_of n t pid = Some g \<Longrightarrow> pgid_of m t pid = Some g"
    and "pt_find n t pid = Some q \<Longrightarrow> pt_find m t pid = Some q"
  using assms by (induction rule: dec_induct) (use fuel_Suc in blast)+

lemma sid_mono: "sid_of n t pid = Some s \<Longrightarrow> n \<le> m \<Longrightarrow> sid_of m t pid = Some s"
proof (induction n arbitrary: m pid)
  case (Suc n)
  obtain k where m: "m = Suc k" "n \<le> k" using Suc(3) by (cases m) auto
  show ?case
    using Suc(2) [unfolded sid_of.simps(2) [of n]] Suc.IH [OF _ m(2)] fuel_mono(2) [OF m(2)]
    unfolding m sid_of.simps(2) [of k]
    by (auto split: if_splits option.splits)
qed simp

section \<open>Termination on a tree\<close>

text \<open>Parents have smaller numbers than their children, in the table and in the live
  source.  Then twice the pid is enough fuel.\<close>

definition descending :: "proc_table \<Rightarrow> bool" where
  "descending t \<longleftrightarrow>
    (\<forall>pid p. map_of (pt_procs t) pid = Some p \<longrightarrow> pi_ppid p < pid)
    \<and> (\<forall>pid l. live_at t pid = Some l \<longrightarrow> pi_ppid l < pid)"

lemma pt_refresh_simps [simp]:
  "pi_pid (pt_refresh l p) = pi_pid p" "pi_pgid (pt_refresh l p) = pi_pgid p"
  "pi_sid (pt_refresh l p) = pi_sid p" "pi_ctty (pt_refresh l p) = pi_ctty p"
  "pi_ppid (pt_refresh l p) = (if pi_ppid l \<noteq> 0 then pi_ppid l else pi_ppid p)"
  by (simp_all add: pt_refresh_def Let_def)

lemma descendingD:
  "descending t \<Longrightarrow> map_of (pt_procs t) pid = Some p \<Longrightarrow> pi_ppid p < pid"
  "descending t \<Longrightarrow> live_at t pid = Some l \<Longrightarrow> pi_ppid l < pid"
  by (auto simp: descending_def)

lemma pt_find_ppid:
  assumes d: "descending t" and f: "pt_find n t pid = Some (Some p)"
  shows "pi_ppid p < pid"
proof -
  obtain m where n: "n = Suc m" using f by (cases n) auto
  show ?thesis
  proof (cases "map_of (pt_procs t) pid")
    case None
    then show ?thesis
      using f descendingD(2) [OF d, of pid]
      by (cases "live_at t pid") (auto simp: n pt_find.simps Let_def split: if_splits option.splits)
  next
    case (Some p0)
    then show ?thesis
      using f descendingD(2) [OF d, of pid] descendingD(1) [OF d Some]
      by (cases "live_at t pid") (auto simp: n pt_find.simps split: if_splits)
  qed
qed

lemma pt_find_total:
  assumes "descending t" and "\<And>q. q < pid \<Longrightarrow> \<exists>g. pgid_of n t q = Some g"
  shows "\<exists>q. pt_find (Suc n) t pid = Some q"
proof (cases "live_at t pid")
  case None
  then show ?thesis by (auto simp: pt_find.simps split: option.splits)
next
  case (Some l)
  then obtain g where "pgid_of n t (pi_ppid l) = Some g"
    using assms(2) [of "pi_ppid l"] descendingD(2) [OF assms(1) Some] by blast
  then show ?thesis using Some by (auto simp: pt_find.simps Let_def split: option.splits)
qed

lemma pgid_total: "descending t \<Longrightarrow> \<exists>g. pgid_of (2 * nat pid + 2) t pid = Some g"
proof (induction "nat pid" arbitrary: pid rule: less_induct)
  case less
  show ?case
  proof (cases "pid \<le> 0")
    case True
    then show ?thesis by (simp add: pgid_of.simps)
  next
    case False
    let ?n = "2 * nat pid"
    have small: "\<exists>g. pgid_of ?n t q = Some g" if "q < pid" for q
    proof (cases "q \<le> 0")
      case True
      then show ?thesis using False by (cases ?n) (auto simp: pgid_of.simps)
    next
      case qpos: False
      then have "\<exists>g. pgid_of (2 * nat q + 2) t q = Some g" using less that by simp
      moreover have "2 * nat q + 2 \<le> ?n" using that qpos by linarith
      ultimately show ?thesis using fuel_mono(1) by blast
    qed
    obtain q where q: "pt_find (Suc ?n) t pid = Some q" using pt_find_total [OF less(2) small] by blast
    have "\<exists>g. pgid_of (Suc ?n) t (pi_ppid p) = Some g" if "q = Some p" for p
    proof -
      have "pi_ppid p < pid" using pt_find_ppid [OF less(2)] q that by blast
      then show ?thesis using small fuel_mono(1) [of ?n "Suc ?n" t] by (meson le_SucI order_refl)
    qed
    then show ?thesis
      using q by (cases q) (auto simp: pgid_of.simps(2) [of "Suc ?n"])
  qed
qed

lemma pgid_total_ge: "descending t \<Longrightarrow> 2 * nat pid + 2 \<le> n \<Longrightarrow> \<exists>g. pgid_of n t pid = Some g"
  using pgid_total fuel_mono(1) by blast

lemma find_total:
  assumes d: "descending t" and n: "2 * nat pid + 2 \<le> n"
  shows "\<exists>q. pt_find n t pid = Some q"
proof -
  obtain k where k: "n = Suc k" "2 * nat pid + 1 \<le> k" using n by (cases n) auto
  have "\<exists>g. pgid_of k t q = Some g" if "q < pid" for q
  proof (cases "q \<le> 0")
    case True
    then show ?thesis using k by (cases k) (auto simp: pgid_of.simps)
  next
    case False
    then show ?thesis using that k by (intro pgid_total_ge [OF d]) linarith
  qed
  then show ?thesis unfolding k(1) by (rule pt_find_total [OF d])
qed

lemma sid_total: "descending t \<Longrightarrow> 2 * nat pid + 3 \<le> n \<Longrightarrow> \<exists>s. sid_of n t pid = Some s"
proof (induction "nat pid" arbitrary: pid n rule: less_induct)
  case less
  obtain k where k: "n = Suc k" "2 * nat pid + 2 \<le> k" using less(3) by (cases n) auto
  obtain q where q: "pt_find k t pid = Some q" using find_total [OF less(2) k(2)] by blast
  show ?case
  proof (cases "pid \<le> 0 \<or> q = None")
    case True
    then show ?thesis using q by (auto simp: k sid_of.simps)
  next
    case False
    then obtain p where p: "q = Some p" by auto
    have lt: "pi_ppid p < pid" using pt_find_ppid [OF less(2)] q p by blast
    have "\<exists>s. sid_of k t (pi_ppid p) = Some s"
    proof (cases "pi_ppid p \<le> 0")
      case True
      then show ?thesis using k by (cases k) (auto simp: sid_of.simps)
    next
      case pos: False
      then have "nat (pi_ppid p) < nat pid" "2 * nat (pi_ppid p) + 3 \<le> k" using lt k by linarith+
      then show ?thesis by (intro less(1)) (use less(2) in auto)
    qed
    then show ?thesis using False q p by (auto simp: k sid_of.simps)
  qed
qed

section \<open>Records that are present\<close>

lemma find_known:
  "map_of (pt_procs t) pid = Some p \<Longrightarrow>
   \<exists>p'. pt_find (Suc n) t pid = Some (Some p') \<and> pi_pid p' = pi_pid p \<and> pi_pgid p' = pi_pgid p
        \<and> pi_sid p' = pi_sid p \<and> pi_ctty p' = pi_ctty p"
  by (cases "live_at t pid") (auto simp: pt_find.simps)

lemma pgid_recorded:
  assumes "map_of (pt_procs t) pid = Some p" and "0 < pid" and "pi_pgid p \<noteq> 0" and "2 \<le> m"
  shows "pgid_of m t pid = Some (pi_pgid p)"
proof -
  obtain k where m: "m = Suc (Suc k)" using assms(4) by (auto simp: numeral_2_eq_2 dest: Suc_le_D)
  obtain p' where "pt_find (Suc k) t pid = Some (Some p')" "pi_pgid p' = pi_pgid p"
    using find_known [OF assms(1)] by blast
  then show ?thesis using assms by (simp add: m pgid_of.simps)
qed

lemma sid_recorded:
  assumes "map_of (pt_procs t) pid = Some p" and "0 < pid" and "pi_sid p \<noteq> 0" and "2 \<le> m"
  shows "sid_of m t pid = Some (pi_sid p)"
proof -
  obtain k where m: "m = Suc (Suc k)" using assms(4) by (auto simp: numeral_2_eq_2 dest: Suc_le_D)
  obtain p' where "pt_find (Suc k) t pid = Some (Some p')" "pi_sid p' = pi_sid p"
    using find_known [OF assms(1)] by blast
  then show ?thesis using assms by (simp add: m sid_of.simps)
qed

lemma pt_store_procs [simp]:
  "map_of (pt_procs (pt_store pid p t)) = (map_of (pt_procs t))(pid \<mapsto> p)"
  "pt_live (pt_store pid p t) = pt_live t"
  by (simp_all add: pt_store_def)

lemma live_at_store [simp]: "live_at (pt_store pid p t) = live_at t"
  by (simp add: live_at_def fun_eq_iff)

section \<open>Properties\<close>



text \<open>Job control sees the group that was set: after \<open>setpgid\<close> the target reports the
  given group (its own pid for 0), a process with a recorded group keeps it when
  another one is moved, and a forked child reports its parent's group.\<close>

theorem process_groups:
  assumes "0 < pid" and "2 \<le> m"
  shows "pgid_of m (set_pgid pid g t) pid = Some (if g \<noteq> 0 then g else pid)
    \<and> (\<forall>q p. q \<noteq> pid \<and> 0 < q \<and> map_of (pt_procs t) q = Some p \<and> pi_pgid p \<noteq> 0 \<longrightarrow>
         pgid_of m (set_pgid pid g t) q = Some (pi_pgid p))
    \<and> (\<forall>child h t'. 0 < child \<and> pgid_of n t pid = Some h \<and> h \<noteq> 0 \<and> pt_add n child pid t = Some t' \<longrightarrow>
         pgid_of m t' child = Some h)"
  using assms by (auto simp: set_pgid_def pt_add_def intro!: pgid_recorded [THEN trans])

theorem process_groups_witness:
  "pgid_of 2 (set_pgid 1 5 pt_init) 1 = Some 5
   \<and> (\<exists>t'. pt_add 2 2 1 pt_init = Some t' \<and> pgid_of 2 t' 2 = Some kInheritedPgid)"
proof -
  have p1: "pgid_of 2 pt_init 1 = Some kInheritedPgid"
    using pgid_recorded [of pt_init 1 "proc_default\<lparr>pi_pgid := kInheritedPgid, pi_sid := kInheritedPgid\<rparr>" 2]
    by (simp add: pt_init_def)
  then obtain t' where "pt_add 2 2 1 pt_init = Some t'" by (simp add: pt_add_def)
  then show ?thesis
    using process_groups [of 1 2 5 pt_init 2] p1 by auto
qed

text \<open>Facts about the members of other sessions.  \<open>keys_match\<close>: every record carries its
  own number.\<close>

definition keys_match :: "proc_table \<Rightarrow> bool" where
  "keys_match t \<longleftrightarrow> (\<forall>pid p. map_of (pt_procs t) pid = Some p \<longrightarrow> pi_pid p = pid)"

definition session_unused :: "int \<Rightarrow> proc_table \<Rightarrow> bool" where
  "session_unused sid t \<longleftrightarrow>
    (\<forall>pid p. pid \<noteq> sid \<and> map_of (pt_procs t) pid = Some p \<longrightarrow> pi_sid p \<noteq> sid)
    \<and> (\<forall>pid l. live_at t pid = Some l \<longrightarrow> pi_sid l \<noteq> sid)"

lemma pt_find_pid: "keys_match t \<Longrightarrow> pt_find n t pid = Some (Some p) \<Longrightarrow> pi_pid p = pid"
  by (cases n) (auto simp: pt_find.simps keys_match_def Let_def split: option.splits if_splits)

lemma pt_find_sid:
  assumes u: "session_unused sid t" and ne: "pid \<noteq> sid" and f: "pt_find n t pid = Some (Some p)"
  shows "pi_sid p \<noteq> sid"
proof -
  obtain m where n: "n = Suc m" using f by (cases n) auto
  have l: "\<And>l. live_at t pid = Some l \<Longrightarrow> pi_sid l \<noteq> sid"
    and r: "\<And>p. map_of (pt_procs t) pid = Some p \<Longrightarrow> pi_sid p \<noteq> sid"
    using u ne by (auto simp: session_unused_def)
  show ?thesis
    using f l r by (cases "map_of (pt_procs t) pid"; cases "live_at t pid")
      (auto simp: n pt_find.simps Let_def split: if_splits option.splits)
qed

lemma sid_of_other:
  "descending t \<Longrightarrow> keys_match t \<Longrightarrow> session_unused sid t \<Longrightarrow> pid < sid \<Longrightarrow> sid_of n t pid \<noteq> Some sid"
proof (induction n arbitrary: pid)
  case (Suc n)
  show ?case
  proof (cases "pt_find n t pid")
    case (Some q)
    show ?thesis
    proof (cases q)
      case None
      then show ?thesis using Some Suc(5) by (auto simp: sid_of.simps)
    next
      case q: (Some p)
      have "pi_ppid p < pid" "pi_pid p = pid" "pi_sid p \<noteq> sid"
        using pt_find_ppid [OF Suc(2)] pt_find_pid [OF Suc(3)] pt_find_sid [OF Suc(4), of pid] Suc(5) Some q by auto
      then show ?thesis using Suc.IH [of "pi_ppid p"] Suc(2-5) Some q by (auto simp: sid_of.simps)
    qed
  qed (use Suc(5) in \<open>auto simp: sid_of.simps\<close>)
qed simp

text \<open>\<open>setsid\<close> makes a known process the leader of a new session and group that has
  no controlling terminal, even if its parent's session has one; the terminal it
  then claims with \<open>TIOCSCTTY\<close> is the one it reports.\<close>

theorem set_sid_new_session:
  assumes tree: "descending t" "keys_match t" and p: "map_of (pt_procs t) pid = Some p" "0 < pid"
    and new: "session_unused pid t" and m: "2 * nat pid + 5 \<le> m" and tty: "0 \<le> tty"
  shows "sid_of m (set_sid pid t) pid = Some pid \<and> pgid_of m (set_sid pid t) pid = Some pid
    \<and> ctty_of m (set_sid pid t) pid = Some (- 1)
    \<and> (\<exists>t'. set_ctty m pid tty (set_sid pid t) = Some t' \<and> ctty_of m t' pid = Some tty)"
proof -
  let ?t = "set_sid pid t" and ?p = "p\<lparr>pi_sid := pid, pi_pgid := pid, pi_ctty := - 1\<rparr>"
  have pid: "pi_pid p = pid" using tree(2) p by (auto simp: keys_match_def)
  then have t: "?t = pt_store pid ?p t" using p by (simp add: set_sid_def pt_at_def first_mention_def)
  have d: "descending ?t" and k: "keys_match ?t" and u: "session_unused pid ?t"
    using tree new p by (auto simp: t descending_def keys_match_def session_unused_def pid)
  have at: "map_of (pt_procs ?t) pid = Some ?p" by (simp add: t)
  have sid: "sid_of n ?t pid = Some pid" if "2 \<le> n" for n
    using sid_recorded [OF at] p(2) that by simp
  have pgid: "pgid_of m ?t pid = Some pid" using pgid_recorded [OF at p(2)] p(2) m by simp
  obtain n where n: "m = Suc n" "2 * nat pid + 4 \<le> n" using m by (cases m) auto
  then obtain q where q: "pt_find m ?t pid = Some (Some q)" "pi_ctty q = - 1" "pi_pid q = pid"
    using find_known [OF at, of n] pid by auto
  have lt: "pi_ppid q < pid" using pt_find_ppid [OF d q(1)] .
  have walk: "ctty_walk m ?t pid (Some q) = Some (- 1)"
  proof (cases "pi_ppid q = 0 \<or> pi_ppid q = pi_pid q")
    case True
    then show ?thesis using q sid [of n] n p(2) by (auto simp: ctty_walk.simps)
  next
    case False
    have small: "nat (pi_ppid q) \<le> nat pid" using lt by simp
    then obtain r where r: "pt_find n ?t (pi_ppid q) = Some r"
      using find_total [OF d, of "pi_ppid q" n] n by auto
    obtain j where j: "n = Suc j" "2 * nat pid + 3 \<le> j" using n by (cases n) auto
    have "ctty_walk n ?t pid r = Some (- 1)"
    proof (cases r)
      case (Some r')
      obtain s' where "sid_of j ?t (pi_ppid q) = Some s'"
        using sid_total [OF d, of "pi_ppid q" j] small j by auto
      moreover have "pi_pid r' = pi_ppid q" using pt_find_pid [OF k] r Some by blast
      ultimately show ?thesis
        using sid_of_other [OF d k u lt, of j] by (simp add: j Some ctty_walk.simps)
    qed (simp add: j ctty_walk.simps)
    then show ?thesis using False q r sid [of n] n by (simp add: n ctty_walk.simps)
  qed
  have ctty: "ctty_of m ?t pid = Some (- 1)" using p(2) sid [of m] m q walk by (simp add: ctty_of_def)
  define t2 where "t2 = pt_store pid (?p\<lparr>pi_ctty := tty\<rparr>) (pt_store pid (?p\<lparr>pi_ctty := tty\<rparr>) ?t)"
  have set: "set_ctty m pid tty ?t = Some t2"
    using sid [of m] m p(2) at pid by (simp add: set_ctty_def pt_at_def first_mention_def t2_def)
  have at2: "map_of (pt_procs t2) pid = Some (?p\<lparr>pi_ctty := tty\<rparr>)" by (simp add: t2_def)
  then obtain q2 where "pt_find m t2 pid = Some (Some q2)" "pi_ctty q2 = tty"
    using find_known [OF at2, of n] n by auto
  moreover have "sid_of m t2 pid = Some pid" using sid_recorded [OF at2 p(2)] p(2) m by simp
  ultimately have "ctty_of m t2 pid = Some tty" using p(2) tty by (simp add: ctty_of_def)
  then show ?thesis using sid [of m] m pgid ctty set by auto
qed

theorem set_sid_new_session_witness:
  "\<exists>t'. pt_add 2 2 1 pt_init = Some t' \<and> sid_of 9 (set_sid 2 t') 2 = Some 2
     \<and> ctty_of 9 (set_sid 2 t') 2 = Some (- 1)"
proof -
  have "pgid_of 2 pt_init 1 = Some kInheritedPgid"
    using pgid_recorded [of pt_init 1 "proc_default\<lparr>pi_pgid := kInheritedPgid, pi_sid := kInheritedPgid\<rparr>" 2]
    by (simp add: pt_init_def)
  then obtain t' where t': "pt_add 2 2 1 pt_init = Some t'"
    "t' = pt_store 2 (proc_default\<lparr>pi_pid := 2, pi_ppid := 1, pi_pgid := kInheritedPgid\<rparr>) pt_init"
    by (simp add: pt_add_def)
  have "descending t'" "keys_match t'" "session_unused 2 t'"
    by (auto simp: t' descending_def keys_match_def session_unused_def pt_init_def live_at_def proc_default_def
        pt_store_def split: if_splits)
  moreover have "map_of (pt_procs t') 2 = Some (proc_default\<lparr>pi_pid := 2, pi_ppid := 1, pi_pgid := kInheritedPgid\<rparr>)"
    by (simp add: t')
  ultimately show ?thesis using set_sid_new_session [of t' 2 _ 9 0] t'(1) by auto
qed

section \<open>Two defects\<close>

text \<open>A first mention through a setter is meant to fill in the number of the record, but
  the default number is 1, not 0: the new record of pid 7 carries the number 1, and
  its session is reported as 1.\<close>

lemma first_mention_keeps_1: "pi_pid (pt_at (set_pgid 7 7 pt_init) 7) = 1"
  by (simp add: set_pgid_def pt_at_def pt_store_def pt_init_def first_mention_def proc_default_def)

lemma first_mention_session: "sid_of 3 (set_pgid 7 7 pt_init) 7 = Some 1"
  by code_simp

text \<open>Nothing keeps the parent links acyclic: with two records that name each other as
  parent, \<open>pgid_of\<close> does not return.\<close>

lemma parent_cycle_diverges:
  fixes t
  defines "t \<equiv> pt_upsert (proc_default\<lparr>pi_pid := 3, pi_ppid := 2\<rparr>)
                (pt_upsert (proc_default\<lparr>pi_pid := 2, pi_ppid := 3\<rparr>) pt_init)"
  shows "pgid_of n t 2 = None \<and> pgid_of n t 3 = None"
proof (induction n)
  case (Suc n)
  have "pt_find n t 2 = None \<or> pt_find n t 2 = Some (Some (proc_default\<lparr>pi_pid := 2, pi_ppid := 3\<rparr>))"
    "pt_find n t 3 = None \<or> pt_find n t 3 = Some (Some (proc_default\<lparr>pi_pid := 3, pi_ppid := 2\<rparr>))"
    by (cases n; simp add: t_def pt_find.simps pt_upsert_def pt_at_def pt_store_def pt_init_def live_at_def
        proc_default_def Let_def)+
  then show ?case using Suc by (auto simp: pgid_of.simps proc_default_def)
qed simp

end
