(* ===== verification/Lx_Path.thy ===== *)
theory Lx_Path
  imports Lx_Prelude
begin

text \<open>
  Lexical guest paths: \<open>normalize_path\<close> and \<open>absolutize_path\<close> of
  \<open>abi/wire/path.hpp\<close>.  The loop works on the output string, popping a component
  by truncating at the last separator.  It is shown to refine a stack of path
  components (\<open>comps_of\<close>, \<open>resolve_comps\<close>, \<open>render_path\<close>), from which canonical
  form, clamping at the root and idempotence follow.
\<close>

section \<open>The code\<close>

definition path_pop :: "string \<Rightarrow> string" where
  "path_pop out =
    (if length out > 1
     then (case str_rfind slash out of
             Some k \<Rightarrow> take (if k = 0 then 1 else k) out
           | None \<Rightarrow> out)
     else out)"

definition path_push :: "string \<Rightarrow> string \<Rightarrow> string" where
  "path_push out c = (if length out > 1 then out @ [slash] else out) @ c"

definition path_step :: "string \<Rightarrow> string \<Rightarrow> string" where
  "path_step out c =
    (if c = ''.'' then out
     else if c = ''..'' then path_pop out
     else path_push out c)"

lemma normalize_rest_less:
  "p \<noteq> [] \<Longrightarrow> length (dropWhile (\<lambda>c. c \<noteq> slash) (dropWhile (\<lambda>c. c = slash) p)) < length p"
  by (cases p) (auto simp: less_Suc_eq_le intro: order_trans [OF length_dropWhile_le])

text \<open>The two scanning loops of \<open>normalize_path\<close>; the string argument is the part of
  \<open>p\<close> from index \<open>i\<close> on.\<close>

function normalize_loop :: "string \<Rightarrow> string \<Rightarrow> string" where
  "normalize_loop out p =
    (if p = [] then out
     else let q = dropWhile (\<lambda>c. c = slash) p;
              c = takeWhile (\<lambda>c. c \<noteq> slash) q;
              rest = dropWhile (\<lambda>c. c \<noteq> slash) q
          in normalize_loop (if c \<noteq> [] then path_step out c else out) rest)"
  by pat_completeness auto

termination
  by (relation "measure (\<lambda>(out, p). length p)") (auto simp: normalize_rest_less)

declare normalize_loop.simps [simp del]

definition normalize_path :: "string \<Rightarrow> string" where
  "normalize_path p =
    (let out = normalize_loop [slash] p
     in if length out > 1 \<and> last out = slash then butlast out else out)"

definition absolutize_path :: "string \<Rightarrow> string \<Rightarrow> string" where
  "absolutize_path path cwd =
    (if path = [] then normalize_path cwd
     else if hd path = slash then normalize_path path
     else normalize_path
            ((if cwd \<noteq> [] \<and> last cwd \<noteq> slash then cwd @ [slash] else cwd) @ path))"

section \<open>The component stack it implements\<close>

function comps_of :: "string \<Rightarrow> string list" where
  "comps_of p =
    (if p = [] then []
     else let q = dropWhile (\<lambda>c. c = slash) p;
              c = takeWhile (\<lambda>c. c \<noteq> slash) q;
              rest = dropWhile (\<lambda>c. c \<noteq> slash) q
          in (if c \<noteq> [] then [c] else []) @ comps_of rest)"
  by pat_completeness auto
termination
  by (relation "measure length") (auto simp: normalize_rest_less)

declare comps_of.simps [simp del]

text \<open>One component against the stack of those kept so far.\<close>

definition comp_step :: "string list \<Rightarrow> string \<Rightarrow> string list" where
  "comp_step st c = (if c = ''.'' then st else if c = ''..'' then butlast st else st @ [c])"

definition resolve_comps :: "string list \<Rightarrow> string list" where
  "resolve_comps cs = foldl comp_step [] cs"

definition render_path :: "string list \<Rightarrow> string" where
  "render_path cs = (if cs = [] then [slash] else concat (map (\<lambda>c. slash # c) cs))"

definition plain_comp :: "string \<Rightarrow> bool" where
  "plain_comp c \<longleftrightarrow> c \<noteq> [] \<and> slash \<notin> set c"

definition valid_comp :: "string \<Rightarrow> bool" where
  "valid_comp c \<longleftrightarrow> plain_comp c \<and> c \<noteq> ''.'' \<and> c \<noteq> ''..''"

definition canonical_path :: "string \<Rightarrow> bool" where
  "canonical_path p \<longleftrightarrow> p = render_path (comps_of p) \<and> list_all valid_comp (comps_of p)"

section \<open>Splitting and rendering\<close>

lemma comps_of_Nil [simp]: "comps_of [] = []"
  by (simp add: comps_of.simps)

lemma comps_of_slash [simp]: "comps_of (slash # p) = comps_of p"
proof (cases p)
  case Nil
  then show ?thesis by (simp add: comps_of.simps [of "[slash]"])
next
  case (Cons a q)
  then have "p \<noteq> []" by simp
  then show ?thesis
    by (subst (1 2) comps_of.simps) (simp add: Let_def)
qed

lemma comps_of_comp:
  assumes "plain_comp c" and "rest = [] \<or> hd rest = slash"
  shows "comps_of (c @ rest) = c # comps_of rest"
proof -
  obtain x xs where c: "c = x # xs" "x \<noteq> slash" "slash \<notin> set xs"
    using assms(1) by (cases c) (auto simp: plain_comp_def)
  have tw: "takeWhile (\<lambda>c. c \<noteq> slash) (xs @ rest) = xs"
    using c assms(2) by (cases rest) (auto simp: takeWhile_append)
  have dw: "dropWhile (\<lambda>c. c \<noteq> slash) (xs @ rest) = rest"
    using c assms(2) by (cases rest) (auto simp: dropWhile_append)
  show ?thesis
    using c tw dw by (simp add: comps_of.simps [of "x # xs @ rest"] Let_def)
qed

lemma comps_of_plain: "list_all plain_comp (comps_of p)"
proof (induction p rule: comps_of.induct)
  case (1 p)
  show ?case
  proof (cases "p = []")
    case False
    define q where "q = dropWhile (\<lambda>c. c = slash) p"
    have "slash \<notin> set (takeWhile (\<lambda>c. c \<noteq> slash) q)"
      by (auto dest: set_takeWhileD)
    moreover have "list_all plain_comp (comps_of (dropWhile (\<lambda>c. c \<noteq> slash) q))"
      using 1 [OF False q_def refl] by simp
    ultimately show ?thesis
      using False by (subst comps_of.simps) (simp add: Let_def plain_comp_def q_def)
  qed simp
qed

lemma comps_of_concat:
  "list_all plain_comp cs \<Longrightarrow> comps_of (concat (map (\<lambda>c. slash # c) cs)) = cs"
proof (induction cs)
  case (Cons c cs)
  have "concat (map (\<lambda>c. slash # c) cs) = [] \<or> hd (concat (map (\<lambda>c. slash # c) cs)) = slash"
    by (cases cs) auto
  then show ?case using Cons by (simp add: comps_of_comp)
qed simp

lemma comps_of_render [simp]: "list_all plain_comp cs \<Longrightarrow> comps_of (render_path cs) = cs"
  by (simp add: render_path_def comps_of_concat)

lemma render_snoc:
  "render_path (cs @ [c]) = (if cs = [] then [slash] else render_path cs @ [slash]) @ c"
  by (simp add: render_path_def)

lemma render_length: "cs \<noteq> [] \<Longrightarrow> list_all plain_comp cs \<Longrightarrow> 1 < length (render_path cs)"
  by (cases cs) (auto simp: render_path_def plain_comp_def)

lemma path_push_render:
  "list_all plain_comp cs \<Longrightarrow> path_push (render_path cs) c = render_path (cs @ [c])"
  using render_length [of cs] by (cases "cs = []") (auto simp: path_push_def render_snoc render_path_def)

lemma path_pop_render:
  assumes "list_all plain_comp cs"
  shows "path_pop (render_path cs) = render_path (butlast cs)"
proof (cases cs rule: rev_cases)
  case Nil
  then show ?thesis by (simp add: path_pop_def render_path_def)
next
  case (snoc bs b)
  then have b: "slash \<notin> set b" "b \<noteq> []" and bs: "list_all plain_comp bs"
    using assms by (auto simp: plain_comp_def)
  show ?thesis
  proof (cases "bs = []")
    case True
    then show ?thesis
      using snoc b str_rfind_append [of slash b "[]"]
      by (simp add: path_pop_def render_path_def)
  next
    case False
    then have "0 < length (render_path bs)" using render_length bs by fastforce
    then show ?thesis
      using snoc b False str_rfind_append [of slash b "render_path bs"]
      by (simp add: path_pop_def render_snoc)
  qed
qed

lemma comp_step_plain:
  "list_all plain_comp st \<Longrightarrow> plain_comp c \<Longrightarrow> list_all plain_comp (comp_step st c)"
  by (auto simp: comp_step_def list_all_iff dest: in_set_butlastD)

lemma comp_step_valid:
  "list_all valid_comp st \<Longrightarrow> plain_comp c \<Longrightarrow> list_all valid_comp (comp_step st c)"
  by (auto simp: comp_step_def list_all_iff valid_comp_def dest: in_set_butlastD)

lemma path_step_render:
  "list_all plain_comp st \<Longrightarrow> path_step (render_path st) c = render_path (comp_step st c)"
  by (simp add: path_step_def comp_step_def path_pop_render path_push_render)

lemma normalize_loop_refines:
  "list_all plain_comp st \<Longrightarrow>
     normalize_loop (render_path st) p = render_path (foldl comp_step st (comps_of p))"
proof (induction "render_path st" p arbitrary: st rule: normalize_loop.induct)
  case (1 p)
  show ?case
  proof (cases "p = []")
    case True
    then show ?thesis by (simp add: normalize_loop.simps)
  next
    case False
    define q c where "q = dropWhile (\<lambda>c. c = slash) p" and "c = takeWhile (\<lambda>c. c \<noteq> slash) q"
    have c: "slash \<notin> set c" by (auto simp: c_def dest: set_takeWhileD)
    let ?st = "if c \<noteq> [] then comp_step st c else st"
    have st: "list_all plain_comp ?st"
      using c 1(2) comp_step_plain [of st c] by (simp add: plain_comp_def)
    have "normalize_loop (render_path ?st) (dropWhile (\<lambda>c. c \<noteq> slash) q)
        = render_path (foldl comp_step ?st (comps_of (dropWhile (\<lambda>c. c \<noteq> slash) q)))"
      by (rule 1(1) [OF False q_def c_def refl _ st]) (simp add: path_step_render 1(2))
    then show ?thesis
      using False 1(2)
      by (subst normalize_loop.simps, subst comps_of.simps)
        (auto simp: Let_def path_step_render q_def c_def)
  qed
qed

lemma foldl_comp_step_valid:
  "list_all plain_comp cs \<Longrightarrow> list_all valid_comp st \<Longrightarrow> list_all valid_comp (foldl comp_step st cs)"
  by (induction cs arbitrary: st) (auto intro: comp_step_valid)

lemma resolve_comps_valid: "list_all plain_comp cs \<Longrightarrow> list_all valid_comp (resolve_comps cs)"
  by (simp add: resolve_comps_def foldl_comp_step_valid)

lemma valid_plain: "list_all valid_comp cs \<Longrightarrow> list_all plain_comp cs"
  by (auto simp: list_all_iff valid_comp_def)

lemma foldl_comp_step_id: "list_all valid_comp cs \<Longrightarrow> foldl comp_step st cs = st @ cs"
  by (induction cs arbitrary: st) (auto simp: comp_step_def valid_comp_def)

lemma resolve_comps_id: "list_all valid_comp cs \<Longrightarrow> resolve_comps cs = cs"
  by (simp add: resolve_comps_def foldl_comp_step_id)

lemma last_render:
  "cs \<noteq> [] \<Longrightarrow> list_all plain_comp cs \<Longrightarrow> last (render_path cs) \<noteq> slash"
  by (cases cs rule: rev_cases)
    (auto simp: render_snoc plain_comp_def split: if_splits dest: last_in_set)

lemma normalize_path_refines: "normalize_path p = render_path (resolve_comps (comps_of p))"
proof -
  let ?cs = "resolve_comps (comps_of p)"
  have out: "normalize_loop [slash] p = render_path ?cs"
    using normalize_loop_refines [of "[]" p] by (simp add: render_path_def resolve_comps_def)
  have "list_all plain_comp ?cs" by (rule valid_plain [OF resolve_comps_valid [OF comps_of_plain]])
  then have "\<not> (1 < length (render_path ?cs) \<and> last (render_path ?cs) = slash)"
    using last_render [of ?cs] by (cases "?cs = []") (auto simp: render_path_def)
  then show ?thesis by (simp only: normalize_path_def out Let_def if_False)
qed

lemma comps_of_normalize: "comps_of (normalize_path p) = resolve_comps (comps_of p)"
  by (simp add: normalize_path_refines valid_plain resolve_comps_valid comps_of_plain)

lemma normalize_path_canonical: "canonical_path (normalize_path p)"
  by (simp add: canonical_path_def comps_of_normalize resolve_comps_valid comps_of_plain)
    (simp add: normalize_path_refines)

lemma normalize_path_id: "canonical_path p \<Longrightarrow> normalize_path p = p"
  by (simp add: canonical_path_def normalize_path_refines resolve_comps_id)

lemma canonical_pathE:
  assumes "canonical_path p"
  obtains cs where "p = render_path cs" and "list_all valid_comp cs"
  using assms by (auto simp: canonical_path_def)

lemma canonical_render: "list_all valid_comp cs \<Longrightarrow> canonical_path (render_path cs)"
  by (simp add: canonical_path_def valid_plain)

lemma comps_of_append_slash: "comps_of (p @ slash # r) = comps_of p @ comps_of r"
proof (induction p rule: comps_of.induct)
  case (1 p)
  show ?case
  proof (cases "p = []")
    case False
    define q c s where "q = dropWhile (\<lambda>c. c = slash) p" and "c = takeWhile (\<lambda>c. c \<noteq> slash) q"
      and "s = dropWhile (\<lambda>c. c \<noteq> slash) q"
    have IH: "comps_of (s @ slash # r) = comps_of s @ comps_of r"
      using 1 [OF False q_def refl] by (simp add: s_def)
    have qe: "q = c @ s" by (simp add: c_def s_def)
    have s: "s = [] \<or> hd s = slash" using hd_dropWhile [of "\<lambda>c. c \<noteq> slash" q] by (auto simp: s_def)
    have pq: "comps_of (p @ t) = comps_of (q @ t)" for t
      unfolding q_def by (induction p) auto
    have c: "slash \<notin> set c" by (auto simp: c_def dest: set_takeWhileD)
    show ?thesis
    proof (cases "c = []")
      case True
      then have "q = []"
        using s qe hd_dropWhile [of "\<lambda>c. c = slash" p] by (cases q) (auto simp: q_def [symmetric])
      then show ?thesis using pq [of "slash # r"] pq [of "[]"] by simp
    next
      case cne: False
      then have pc: "plain_comp c" using c by (simp add: plain_comp_def)
      have "hd (s @ slash # r) = slash" using s by (cases s) auto
      then show ?thesis
        using pq [of "slash # r"] pq [of "[]"] IH s pc by (auto simp: qe comps_of_comp)
    qed
  qed simp
qed

lemma comps_of_last_slash: "p \<noteq> [] \<Longrightarrow> last p = slash \<Longrightarrow> comps_of (p @ r) = comps_of p @ comps_of r"
  by (cases p rule: rev_cases) (auto simp: comps_of_append_slash)

lemma comps_of_absolutize:
  "comps_of (absolutize_path path cwd) =
     (if path \<noteq> [] \<and> hd path = slash then resolve_comps (comps_of path)
      else resolve_comps (comps_of cwd @ comps_of path))"
  by (cases "cwd = []")
    (auto simp: absolutize_path_def comps_of_normalize comps_of_append_slash comps_of_last_slash)

section \<open>Properties\<close>

text \<open>C6: \<open>normalize_path\<close> always returns a canonical absolute path: it is \<open>/\<close> followed by
  the components joined with one separator, no component is empty, \<open>.\<close> or \<open>..\<close>, so
  the path cannot leave the root; what it keeps is exactly the stack obtained by
  reading the components from left to right, dropping \<open>.\<close> and popping at \<open>..\<close> (a pop
  at the root does nothing); and normalizing again changes nothing.\<close>

theorem normalize_path_correct:
  "canonical_path (normalize_path p)
   \<and> comps_of (normalize_path p) = resolve_comps (comps_of p)
   \<and> normalize_path (normalize_path p) = normalize_path p"
  by (simp add: normalize_path_canonical comps_of_normalize normalize_path_id)

text \<open>\<open>absolutize_path\<close> is canonical, ignores the working directory for an absolute
  path, and otherwise resolves the path's components on top of those of the
  working directory, so only the normal form of the working directory matters.\<close>

theorem absolutize_path_correct:
  "canonical_path (absolutize_path path cwd)
   \<and> comps_of (absolutize_path path cwd) =
       foldl comp_step (if path \<noteq> [] \<and> hd path = slash then [] else resolve_comps (comps_of cwd))
         (comps_of path)
   \<and> absolutize_path path (normalize_path cwd) = absolutize_path path cwd"
proof -
  have can: "canonical_path (absolutize_path path c)" for c
    by (simp add: absolutize_path_def normalize_path_canonical)
  have comps: "comps_of (absolutize_path path c) =
      foldl comp_step (if path \<noteq> [] \<and> hd path = slash then [] else resolve_comps (comps_of c))
        (comps_of path)" for c
    by (simp add: comps_of_absolutize resolve_comps_def)
  have "comps_of (absolutize_path path (normalize_path cwd)) = comps_of (absolutize_path path cwd)"
    by (simp add: comps comps_of_normalize resolve_comps_id resolve_comps_valid comps_of_plain)
  then have "absolutize_path path (normalize_path cwd) = absolutize_path path cwd"
    using can by (metis canonical_path_def)
  then show ?thesis using can comps by blast
qed

end
