(* ===== verification/Lx_Mounts.thy ===== *)
theory Lx_Mounts
  imports Lx_Path Lx_Result
begin

text \<open>
  The mount table of \<open>FileNamespace\<close> (\<open>kernel/file_namespace.hpp\<close>): which mount serves a
  guest path, how a guest path becomes a host path below a mount, and the way back.
  A virtual mount carries a producer, a function of the path.
\<close>

section \<open>The code\<close>

datatype dtype = Dregular | Ddir | Dsymlink

record virtual_dirent =
  vd_name :: string
  vd_type :: dtype
  vd_ino :: u64

record virtual_file =
  vf_bytes :: "u8 list"
  vf_is_dir :: bool
  vf_entries :: "virtual_dirent list"
  vf_redirect :: string
  vf_symlink :: string

type_synonym producer = "string \<Rightarrow> virtual_file result"

record mount =
  mt_prefix :: string
  mt_base :: string
  mt_upper :: string
  mt_producer :: "producer option"

definition strip_slash :: "string \<Rightarrow> string" where
  "strip_slash p = (if length p > 1 \<and> last p = slash then butlast p else p)"

text \<open>\<open>absolute_host\<close>: a host path made absolute against the supervisor's directory.\<close>

definition absolute_host :: "string \<Rightarrow> string \<Rightarrow> string" where
  "absolute_host host_cwd p =
    (if p = [] then p
     else if hd p = slash then normalize_path p
     else let base = (if host_cwd = [] then ''/'' else host_cwd);
              base2 = (if last base \<noteq> slash then base @ ''/'' else base)
          in normalize_path (base2 @ p))"

text \<open>The entry \<open>mount_host\<close> pushes.\<close>

definition mount_host_entry :: "string \<Rightarrow> string \<Rightarrow> string \<Rightarrow> string \<Rightarrow> mount" where
  "mount_host_entry host_cwd prefix host_base upper =
    \<lparr>mt_prefix = strip_slash prefix,
     mt_base = strip_slash (absolute_host host_cwd host_base),
     mt_upper = strip_slash (absolute_host host_cwd upper),
     mt_producer = None\<rparr>"

definition mount_virtual :: "string \<Rightarrow> producer \<Rightarrow> mount list \<Rightarrow> mount list" where
  "mount_virtual prefix pr ms =
    ms @ [\<lparr>mt_prefix = strip_slash prefix, mt_base = [], mt_upper = [], mt_producer = Some pr\<rparr>]"

text \<open>\<open>p\<close> is the directory \<open>d\<close> or lies below it.\<close>

definition under_dir :: "string \<Rightarrow> string \<Rightarrow> bool" where
  "under_dir d p \<longleftrightarrow> starts_with p d \<and> (length p = length d \<or> p ! length d = slash)"

definition mount_match :: "mount \<Rightarrow> string \<Rightarrow> bool" where
  "mount_match m ap \<longleftrightarrow> (if mt_prefix m = ''/'' then True else under_dir (mt_prefix m) ap)"

text \<open>The scan of \<open>deepest\<close>: \<open>i\<close> is the index of the next mount, \<open>best\<close> the pointer and the
  length kept so far.\<close>

fun deepest_from :: "nat \<Rightarrow> mount list \<Rightarrow> string \<Rightarrow> (nat option \<times> nat) \<Rightarrow> nat option" where
  "deepest_from i [] ap best = fst best"
| "deepest_from i (m # ms) ap best =
    deepest_from (Suc i) ms ap
      (if mount_match m ap \<and> length (mt_prefix m) \<ge> snd best
       then (Some i, length (mt_prefix m)) else best)"

definition deepest :: "mount list \<Rightarrow> string \<Rightarrow> nat option" where
  "deepest ms ap = deepest_from 0 ms ap (None, 0)"

definition under_virtual_mount :: "mount list \<Rightarrow> string \<Rightarrow> bool" where
  "under_virtual_mount ms ap = (\<exists>m\<in>set ms. mt_producer m \<noteq> None \<and> under_dir (mt_prefix m) ap)"

definition produce :: "mount list \<Rightarrow> string \<Rightarrow> virtual_file result" where
  "produce ms ap =
    (case deepest ms ap of
       None \<Rightarrow> err ENOENT
     | Some i \<Rightarrow> (case mt_producer (ms ! i) of None \<Rightarrow> err ENOENT | Some f \<Rightarrow> f ap))"

definition join_host :: "string \<Rightarrow> string \<Rightarrow> string" where
  "join_host base rel =
    (if rel \<noteq> [] then (if base \<noteq> [] \<and> last base \<noteq> slash then base @ ''/'' else base) @ rel else base)"

text \<open>The path relative to its mount, without leading separators.\<close>

definition mount_rel :: "mount \<Rightarrow> string \<Rightarrow> string" where
  "mount_rel m ap =
    dropWhile (\<lambda>c. c = slash) (if mt_prefix m = ''/'' then ap else drop (length (mt_prefix m)) ap)"

text \<open>The scan of \<open>guest_path_of\<close>: the best base so far, its length, and whether it is an
  upper layer.\<close>

definition base_match :: "string \<Rightarrow> string \<Rightarrow> bool" where
  "base_match base host \<longleftrightarrow> base \<noteq> [] \<and> under_dir base host"

fun guest_scan :: "mount list \<Rightarrow> string \<Rightarrow> (mount \<times> string) option \<Rightarrow> (mount \<times> string) option" where
  "guest_scan [] host best = best"
| "guest_scan (m # ms) host best =
    (let len = (\<lambda>b. case b of None \<Rightarrow> 0 | Some (_, base) \<Rightarrow> length base);
         b1 = (if base_match (mt_upper m) host \<and> length (mt_upper m) > len best
               then Some (m, mt_upper m) else best);
         b2 = (if base_match (mt_base m) host \<and> length (mt_base m) > len b1
               then Some (m, mt_base m) else b1)
     in guest_scan ms host b2)"

definition guest_path_of :: "mount list \<Rightarrow> string \<Rightarrow> string" where
  "guest_path_of ms host =
    (case guest_scan ms host None of
       None \<Rightarrow> []
     | Some (m, base) \<Rightarrow>
         let rel = drop (length base) host
         in if mt_prefix m = ''/'' then (if rel = [] then ''/'' else rel)
            else if rel = [] then mt_prefix m else mt_prefix m @ rel)"

definition is_mount_point :: "mount list \<Rightarrow> string \<Rightarrow> bool" where
  "is_mount_point ms ap = (\<exists>m\<in>set ms. mt_prefix m = normalize_path ap)"

definition host_side_under :: "string \<Rightarrow> string \<Rightarrow> bool" where
  "host_side_under ap base \<longleftrightarrow>
    \<not> (length base < 2 \<or> base = ''/'') \<and> length ap > length base
    \<and> take (length base) ap = base \<and> ap ! length base = slash"

definition is_host_side_path :: "mount list \<Rightarrow> string \<Rightarrow> bool" where
  "is_host_side_path ms ap =
    (\<exists>m\<in>set ms. host_side_under ap (mt_base m) \<or> host_side_under ap (mt_upper m))"

definition host_to_guest_base :: "mount \<Rightarrow> string \<Rightarrow> string \<Rightarrow> string" where
  "host_to_guest_base m base host =
    (let rel = drop (length base) host;
         out = (if mt_prefix m = ''/'' then [] else mt_prefix m)
               @ (if rel \<noteq> [] \<and> hd rel \<noteq> slash then ''/'' else []) @ rel
     in if out = [] then ''/'' else out)"

definition host_to_guest :: "mount \<Rightarrow> string \<Rightarrow> string" where
  "host_to_guest m host =
    (if mt_upper m \<noteq> [] \<and> starts_with host (mt_upper m) then host_to_guest_base m (mt_upper m) host
     else if mt_base m \<noteq> [] \<and> starts_with host (mt_base m) then host_to_guest_base m (mt_base m) host
     else host)"

section \<open>Longest prefix\<close>

lemma deepest_from_spec:
  "(deepest_from i ms ap (b, n) = b
      \<and> (\<forall>m\<in>set ms. mount_match m ap \<longrightarrow> length (mt_prefix m) < n))
   \<or> (\<exists>k<length ms. deepest_from i ms ap (b, n) = Some (i + k)
        \<and> mount_match (ms ! k) ap \<and> n \<le> length (mt_prefix (ms ! k))
        \<and> (\<forall>j<length ms. mount_match (ms ! j) ap \<longrightarrow>
              length (mt_prefix (ms ! j)) \<le> length (mt_prefix (ms ! k))
              \<and> (k < j \<longrightarrow> length (mt_prefix (ms ! j)) < length (mt_prefix (ms ! k)))))"
proof (induction ms arbitrary: i b n)
  case (Cons m ms)
  let ?l = "length (mt_prefix m)"
  show ?case
  proof (cases "mount_match m ap \<and> n \<le> ?l")
    case True
    then have step: "deepest_from i (m # ms) ap (b, n) = deepest_from (Suc i) ms ap (Some i, ?l)" by simp
    show ?thesis
      using Cons [of "Suc i" "Some i" ?l] True unfolding step
      by (elim disjE) (auto simp: Ex_less_Suc2 All_less_Suc2 all_set_conv_all_nth intro: le_trans less_imp_le)
  next
    case False
    then have step: "deepest_from i (m # ms) ap (b, n) = deepest_from (Suc i) ms ap (b, n)" by auto
    show ?thesis
      using Cons [of "Suc i" b n] False unfolding step
      by (elim disjE) (auto simp: Ex_less_Suc2 All_less_Suc2 intro: le_trans)
  qed
qed simp

lemma deepest_None: "deepest ms ap = None \<longleftrightarrow> (\<forall>m\<in>set ms. \<not> mount_match m ap)"
  using deepest_from_spec [of 0 ms ap None 0] by (auto simp: deepest_def all_set_conv_all_nth)

lemma deepest_Some:
  assumes "deepest ms ap = Some k"
  shows "k < length ms \<and> mount_match (ms ! k) ap
    \<and> (\<forall>j<length ms. mount_match (ms ! j) ap \<longrightarrow>
          length (mt_prefix (ms ! j)) \<le> length (mt_prefix (ms ! k))
          \<and> (k < j \<longrightarrow> length (mt_prefix (ms ! j)) < length (mt_prefix (ms ! k))))"
  using deepest_from_spec [of 0 ms ap None 0] assms by (auto simp: deepest_def)

section \<open>Component prefixes\<close>

lemma render_append:
  "cs \<noteq> [] \<Longrightarrow> ds \<noteq> [] \<Longrightarrow> render_path (cs @ ds) = render_path cs @ render_path ds"
  by (simp add: render_path_def)

lemma concat_slash_prefix:
  "list_all plain_comp cs \<Longrightarrow> list_all plain_comp ds \<Longrightarrow>
   concat (map (\<lambda>c. slash # c) ds) = concat (map (\<lambda>c. slash # c) cs) @ t \<Longrightarrow>
   t = [] \<or> hd t = slash \<Longrightarrow> \<exists>es. ds = cs @ es \<and> t = concat (map (\<lambda>c. slash # c) es)"
proof -
  assume a: "list_all plain_comp cs" "list_all plain_comp ds"
    "concat (map (\<lambda>c. slash # c) ds) = concat (map (\<lambda>c. slash # c) cs) @ t" "t = [] \<or> hd t = slash"
  have "ds = cs @ comps_of t"
  proof (cases t)
    case Nil
    then show ?thesis using a comps_of_concat [of cs] comps_of_concat [of ds] by simp
  next
    case (Cons x u)
    then have "x = slash" using a(4) by simp
    then show ?thesis
      using a(1-3) Cons comps_of_concat [of cs] comps_of_concat [of ds]
        comps_of_append_slash [of "concat (map (\<lambda>c. slash # c) cs)" u] by simp
  qed
  then show ?thesis using a(3) by auto
qed

lemma under_dir_iff:
  "under_dir d p \<longleftrightarrow> (\<exists>t. p = d @ t \<and> (t = [] \<or> hd t = slash))"
proof
  assume u: "under_dir d p"
  then obtain t where "p = d @ t" by (auto simp: under_dir_def starts_with_iff)
  then show "\<exists>t. p = d @ t \<and> (t = [] \<or> hd t = slash)"
    using u by (cases t) (auto simp: under_dir_def nth_append)
next
  assume "\<exists>t. p = d @ t \<and> (t = [] \<or> hd t = slash)"
  then obtain t where "p = d @ t" "t = [] \<or> hd t = slash" by blast
  then show "under_dir d p" by (cases t) (auto simp: under_dir_def nth_append)
qed

lemma under_dir_render:
  assumes "list_all valid_comp cs" "list_all valid_comp ds" "cs \<noteq> []"
  shows "under_dir (render_path cs) (render_path ds) \<longleftrightarrow> (\<exists>es. ds = cs @ es)"
proof
  assume "under_dir (render_path cs) (render_path ds)"
  then obtain t where t: "render_path ds = render_path cs @ t" "t = [] \<or> hd t = slash"
    by (auto simp: under_dir_iff)
  have "1 < length (render_path cs)" using assms render_length valid_plain by blast
  moreover have "length (render_path cs) \<le> length (render_path ds)" using t(1) by simp
  ultimately have "ds \<noteq> []" by (auto simp: render_path_def [of ds])
  then show "\<exists>es. ds = cs @ es"
    using t assms concat_slash_prefix [OF valid_plain valid_plain, of cs ds t]
    by (auto simp: render_path_def)
next
  assume "\<exists>es. ds = cs @ es"
  then obtain es where "ds = cs @ es" ..
  then show "under_dir (render_path cs) (render_path ds)"
    using assms(3) by (cases es) (auto simp: under_dir_iff render_path_def)
qed

lemma mount_match_comps:
  assumes "canonical_path (mt_prefix m)" "canonical_path p"
  shows "mount_match m p \<longleftrightarrow> (\<exists>es. comps_of p = comps_of (mt_prefix m) @ es)"
proof (cases "mt_prefix m = ''/''")
  case True
  then show ?thesis by (simp add: mount_match_def)
next
  case False
  then have "comps_of (mt_prefix m) \<noteq> []"
    using assms(1) by (auto simp: canonical_path_def render_path_def)
  then show ?thesis
    using False assms under_dir_render [of "comps_of (mt_prefix m)" "comps_of p"]
    by (simp add: mount_match_def canonical_path_def)
qed

section \<open>Guest paths and host paths\<close>

text \<open>The components of a path below its mount.\<close>

definition rel_comps :: "mount \<Rightarrow> string \<Rightarrow> string list" where
  "rel_comps m p = drop (length (comps_of (mt_prefix m))) (comps_of p)"

lemma hd_tl_render:
  "list_all plain_comp cs \<Longrightarrow> cs \<noteq> [] \<Longrightarrow> tl (render_path cs) \<noteq> [] \<and> hd (tl (render_path cs)) \<noteq> slash"
  by (cases cs) (auto simp: render_path_def plain_comp_def hd_append dest: hd_in_set)

lemma render_Cons: "render_path cs = slash # tl (render_path cs)"
  by (cases cs) (auto simp: render_path_def)

lemma dropWhile_render:
  "list_all plain_comp cs \<Longrightarrow> dropWhile (\<lambda>c. c = slash) (render_path cs) = tl (render_path cs)"
proof (cases "cs = []")
  case False
  assume a: "list_all plain_comp cs"
  have "dropWhile (\<lambda>c. c = slash) (tl (render_path cs)) = tl (render_path cs)"
    using hd_tl_render [OF a False] by (cases "tl (render_path cs)") auto
  then show ?thesis by (subst render_Cons) simp
qed (simp add: render_path_def)

lemma mount_rel_render:
  assumes "canonical_path (mt_prefix m)" "canonical_path p" "mount_match m p"
  shows "comps_of p = comps_of (mt_prefix m) @ rel_comps m p"
    and "list_all valid_comp (rel_comps m p)"
    and "mount_rel m p = tl (render_path (rel_comps m p))"
proof -
  obtain es where es: "comps_of p = comps_of (mt_prefix m) @ es"
    using mount_match_comps [OF assms(1,2)] assms(3) by blast
  then have rc: "rel_comps m p = es" by (simp add: rel_comps_def)
  show "comps_of p = comps_of (mt_prefix m) @ rel_comps m p" by (simp add: es rc)
  show v: "list_all valid_comp (rel_comps m p)"
    using assms(2) es rc by (simp add: canonical_path_def)
  have p: "p = render_path (comps_of (mt_prefix m) @ es)" using assms(2) es by (simp add: canonical_path_def)
  show "mount_rel m p = tl (render_path (rel_comps m p))"
  proof (cases "mt_prefix m = ''/''")
    case True
    then have "comps_of (mt_prefix m) = []" by simp
    then show ?thesis using True p v rc by (simp add: mount_rel_def dropWhile_render valid_plain)
  next
    case False
    then have ne: "comps_of (mt_prefix m) \<noteq> []"
      using assms(1) by (auto simp: canonical_path_def render_path_def)
    have pre: "mt_prefix m = render_path (comps_of (mt_prefix m))"
      using assms(1) by (simp add: canonical_path_def)
    show ?thesis
    proof (cases "es = []")
      case True
      then have "p = mt_prefix m" using p pre by simp
      then show ?thesis using True False by (simp add: mount_rel_def rel_comps_def render_path_def)
    next
      case esne: False
      have "p = mt_prefix m @ render_path es"
        using p pre ne esne render_append by metis
      then show ?thesis using False v rc by (simp add: mount_rel_def dropWhile_render valid_plain)
    qed
  qed
qed

lemma join_host_render:
  assumes "canonical_path base" "list_all valid_comp cs"
  shows "join_host base (tl (render_path cs)) = render_path (comps_of base @ cs)"
proof (cases "cs = []")
  case True
  then show ?thesis using assms(1) by (simp add: join_host_def render_path_def canonical_path_def)
next
  case False
  have t: "tl (render_path cs) \<noteq> []" using hd_tl_render [OF valid_plain [OF assms(2)] False] by simp
  have b: "base = render_path (comps_of base)" "list_all plain_comp (comps_of base)"
    using assms(1) by (simp_all add: canonical_path_def valid_plain)
  show ?thesis
  proof (cases "comps_of base = []")
    case True
    then have "base = [slash]" using b by (simp add: render_path_def)
    then show ?thesis using True t render_Cons [of cs] by (simp add: join_host_def)
  next
    case ne: False
    have "last base \<noteq> slash" using last_render [OF ne b(2)] b(1) by simp
    moreover have "base \<noteq> []" using b(1) render_Cons [of "comps_of base"] by (metis list.distinct(1))
    ultimately show ?thesis
      using t render_append [OF ne False] b(1) render_Cons [of cs] by (simp add: join_host_def)
  qed
qed

lemma translate_render:
  assumes "canonical_path (mt_prefix m)" "canonical_path p" "mount_match m p" "canonical_path base"
  shows "join_host base (mount_rel m p) = render_path (comps_of base @ rel_comps m p)"
  by (simp add: mount_rel_render [OF assms(1-3)] join_host_render [OF assms(4)])

lemma layer_prefix_contained:
  assumes "canonical_path base" "list_all valid_comp cs" "base \<noteq> ''/''"
  shows "under_dir base (render_path (comps_of base @ cs))"
proof -
  have "comps_of base \<noteq> []" using assms(1,3) by (auto simp: canonical_path_def render_path_def)
  then show ?thesis
    using assms(1,2) under_dir_render [of "comps_of base" "comps_of base @ cs"]
    by (simp add: canonical_path_def)
qed

abbreviation layers :: "mount \<Rightarrow> string set" where
  "layers m \<equiv> {mt_upper m, mt_base m}"

definition best_len :: "(mount \<times> string) option \<Rightarrow> nat" where
  "best_len b = (case b of None \<Rightarrow> 0 | Some (_, base) \<Rightarrow> length base)"

lemma guest_scan_spec:
  "(guest_scan ms host best = best \<or>
      (\<exists>m\<in>set ms. \<exists>b\<in>layers m. guest_scan ms host best = Some (m, b) \<and> base_match b host))
   \<and> best_len best \<le> best_len (guest_scan ms host best)
   \<and> (\<forall>m\<in>set ms. \<forall>b\<in>layers m. base_match b host \<longrightarrow> length b \<le> best_len (guest_scan ms host best))"
proof (induction ms arbitrary: best)
  case (Cons m ms)
  define b1 where "b1 = (if base_match (mt_upper m) host \<and> length (mt_upper m) > best_len best
    then Some (m, mt_upper m) else best)"
  define b2 where "b2 = (if base_match (mt_base m) host \<and> length (mt_base m) > best_len b1
    then Some (m, mt_base m) else b1)"
  have step: "guest_scan (m # ms) host best = guest_scan ms host b2"
    by (simp add: Let_def b2_def b1_def best_len_def)
  have b1: "best_len best \<le> best_len b1" "base_match (mt_upper m) host \<Longrightarrow> length (mt_upper m) \<le> best_len b1"
    "b1 = best \<or> b1 = Some (m, mt_upper m) \<and> base_match (mt_upper m) host"
    by (auto simp: b1_def best_len_def)
  have b2: "best_len b1 \<le> best_len b2" "base_match (mt_base m) host \<Longrightarrow> length (mt_base m) \<le> best_len b2"
    "b2 = b1 \<or> b2 = Some (m, mt_base m) \<and> base_match (mt_base m) host"
    by (auto simp: b2_def best_len_def)
  show ?case
    unfolding step using Cons [of b2] b1 b2 by (auto intro: le_trans)
qed simp

lemma guest_path_of_layer:
  assumes m: "m \<in> set ms" "base \<in> layers m" "canonical_path base" "base \<noteq> ''/''"
    and p: "canonical_path (mt_prefix m)" "canonical_path p" "mount_match m p"
    and host: "host = join_host base (mount_rel m p)"
    and uniq: "\<And>m' b. m' \<in> set ms \<Longrightarrow> b \<in> layers m' \<Longrightarrow> base_match b host \<Longrightarrow>
                length b \<le> length base \<and> (b = base \<longrightarrow> mt_prefix m' = mt_prefix m)"
  shows "guest_path_of ms host = p"
proof -
  have bne: "comps_of base \<noteq> []" "base = render_path (comps_of base)"
    using m(3,4) by (auto simp: canonical_path_def render_path_def)
  have hr: "host = render_path (comps_of base @ rel_comps m p)"
    by (simp add: host translate_render p m(3))
  have ub: "under_dir base host"
    using layer_prefix_contained [OF m(3) mount_rel_render(2) [OF p] m(4)] by (simp add: hr)
  have bm: "base_match base host" using ub bne render_Cons by (auto simp: base_match_def)
  obtain m' b where r: "guest_scan ms host None = Some (m', b)" "m' \<in> set ms" "b \<in> layers m'" "base_match b host"
    and len: "length base \<le> length b"
    using guest_scan_spec [of ms host None] m(1,2) bm by (auto simp: best_len_def base_match_def)
  have "b = base"
    using uniq [OF r(2-4)] len r(4) bm by (auto simp: base_match_def under_dir_def starts_with_def)
  then have pre: "mt_prefix m' = mt_prefix m" using uniq [OF r(2-4)] by simp
  have drop: "drop (length base) host = (if rel_comps m p = [] then [] else render_path (rel_comps m p))"
    using hr bne render_append [OF bne(1), of "rel_comps m p"] by auto
  have pc: "p = render_path (comps_of (mt_prefix m) @ rel_comps m p)"
    using p(2) mount_rel_render(1) [OF p] by (simp add: canonical_path_def)
  have mp: "mt_prefix m = render_path (comps_of (mt_prefix m))" using p(1) by (simp add: canonical_path_def)
  show ?thesis
  proof (cases "comps_of (mt_prefix m) = []")
    case True
    then have "mt_prefix m = [slash]" using mp by (simp add: render_path_def)
    then show ?thesis
      using r(1) \<open>b = base\<close> pre drop pc True render_Cons [of "rel_comps m p"]
      by (auto simp: guest_path_of_def Let_def render_path_def)
  next
    case False
    then have "mt_prefix m \<noteq> ''/''" by auto
    then show ?thesis
      using r(1) \<open>b = base\<close> pre drop pc mp render_append [OF False, of "rel_comps m p"] render_Cons [of "rel_comps m p"]
      by (auto simp: guest_path_of_def Let_def)
  qed
qed

lemma strip_slash_canonical: "canonical_path p \<Longrightarrow> strip_slash p = p"
  using last_render [of "comps_of p"] valid_plain [of "comps_of p"]
  by (cases "comps_of p = []") (auto simp: canonical_path_def strip_slash_def render_path_def)

lemma absolute_host_canonical: "p \<noteq> [] \<Longrightarrow> canonical_path (absolute_host c p)"
  by (simp add: absolute_host_def Let_def normalize_path_canonical)

lemma mount_host_entry_canonical:
  "base \<noteq> [] \<Longrightarrow> canonical_path (mt_base (mount_host_entry c p base u))"
  "u \<noteq> [] \<Longrightarrow> canonical_path (mt_upper (mount_host_entry c p base u))"
  by (simp_all add: mount_host_entry_def strip_slash_canonical absolute_host_canonical)

lemma mount_host_entry_virtual [simp]: "mt_producer (mount_host_entry c p base u) = None"
  by (simp add: mount_host_entry_def)

text \<open>A host directory whose only layer is \<open>/\<close> has no inverse: the scan asks for a separator
  after the base, and below \<open>/\<close> there is none.\<close>

lemma guest_path_of_root_base:
  "guest_path_of [mount_host_entry ''/'' ''/'' ''/'' []] ''/usr/bin/ls'' = []"
  by code_simp

section \<open>Properties\<close>

text \<open>A table with a persistent root, a bind and a virtual mount.\<close>

definition demo_mounts :: "mount list" where
  "demo_mounts = mount_virtual ''/proc'' (\<lambda>_. err ENOENT)
     [mount_host_entry ''/home/u'' ''/'' ''arch'' ''./arch-upper/'',
      mount_host_entry ''/home/u'' ''/usr/local'' ''/opt//tools'' []]"

text \<open>\<open>deepest\<close> returns nothing exactly when no mount's prefix is a component prefix of
  the path; otherwise the mount it returns is a component prefix of the path, no other
  mount is a longer one, and among equal prefixes the one mounted last is returned.\<close>

theorem deepest_mount_correct:
  assumes "\<forall>m\<in>set ms. canonical_path (mt_prefix m)" and "canonical_path p"
  shows "(deepest ms p = None \<longleftrightarrow>
           (\<forall>m\<in>set ms. \<forall>es. comps_of p \<noteq> comps_of (mt_prefix m) @ es))
    \<and> (\<forall>k. deepest ms p = Some k \<longrightarrow>
           k < length ms \<and> (\<exists>es. comps_of p = comps_of (mt_prefix (ms ! k)) @ es)
           \<and> (\<forall>j<length ms. \<forall>es. comps_of p = comps_of (mt_prefix (ms ! j)) @ es \<longrightarrow>
                length (comps_of (mt_prefix (ms ! j))) \<le> length (comps_of (mt_prefix (ms ! k)))
                \<and> (mt_prefix (ms ! j) = mt_prefix (ms ! k) \<longrightarrow> j \<le> k)))"
proof -
  have mm: "mount_match m p \<longleftrightarrow> (\<exists>es. comps_of p = comps_of (mt_prefix m) @ es)" if "m \<in> set ms" for m
    using mount_match_comps assms that by blast
  have none: "deepest ms p = None \<longleftrightarrow> (\<forall>m\<in>set ms. \<forall>es. comps_of p \<noteq> comps_of (mt_prefix m) @ es)"
    using deepest_None [of ms p] mm by blast
  have "length (comps_of (mt_prefix (ms ! j))) \<le> length (comps_of (mt_prefix (ms ! k)))
      \<and> (mt_prefix (ms ! j) = mt_prefix (ms ! k) \<longrightarrow> j \<le> k)"
    if k: "deepest ms p = Some k" and j: "j < length ms"
      and es: "comps_of p = comps_of (mt_prefix (ms ! j)) @ es" for k j es
  proof -
    note D = deepest_Some [OF k]
    have mj: "mount_match (ms ! j) p" using mm j es nth_mem by blast
    have le: "length (mt_prefix (ms ! j)) \<le> length (mt_prefix (ms ! k))" using D j mj by blast
    obtain fs where fs: "comps_of p = comps_of (mt_prefix (ms ! k)) @ fs" using D mm nth_mem by blast
    have cj: "canonical_path (mt_prefix (ms ! j))" "canonical_path (mt_prefix (ms ! k))"
      using assms(1) j D nth_mem by auto
    have "length (comps_of (mt_prefix (ms ! j))) \<le> length (comps_of (mt_prefix (ms ! k)))"
    proof (rule ccontr)
      assume n: "\<not> ?thesis"
      then obtain gs where gs: "comps_of (mt_prefix (ms ! j)) = comps_of (mt_prefix (ms ! k)) @ gs" "gs \<noteq> []"
        using es fs by (auto simp: append_eq_append_conv2) (metis append_Nil2 order_refl)
      have "length (render_path (comps_of (mt_prefix (ms ! k)))) < length (render_path (comps_of (mt_prefix (ms ! j))))"
        using gs cj(1) valid_plain [of gs] render_length [of gs] render_Cons [of gs]
        by (cases "comps_of (mt_prefix (ms ! k)) = []")
          (auto simp: render_append canonical_path_def, simp add: render_path_def)
      then show False using le cj by (simp add: canonical_path_def)
    qed
    moreover have "mt_prefix (ms ! j) = mt_prefix (ms ! k) \<longrightarrow> j \<le> k" using D j mj by (metis less_irrefl not_le)
    ultimately show ?thesis by blast
  qed
  then show ?thesis using none deepest_Some mm nth_mem by blast
qed

theorem deepest_mount_correct_witness:
  "deepest demo_mounts ''/usr/local/bin'' = Some 1
   \<and> (\<exists>es. comps_of ''/usr/local/bin'' = comps_of (mt_prefix (demo_mounts ! 1)) @ es)
   \<and> deepest demo_mounts ''/usr/locale'' = Some 0"
proof -
  have c: "\<forall>m\<in>set demo_mounts. canonical_path (mt_prefix m)" by code_simp
  have p: "canonical_path ''/usr/local/bin''" by code_simp
  have d: "deepest demo_mounts ''/usr/local/bin'' = Some 1" "deepest demo_mounts ''/usr/locale'' = Some 0"
    by code_simp+
  show ?thesis using d deepest_mount_correct [OF c p] by blast
qed

text \<open>C23: The host path of a guest path never leaves its layer: whatever string the guest
  passes, once normalized and matched to a mount, \<open>join_host\<close> of a layer directory and
  the mount-relative rest is the canonical path with the components of the layer
  followed by those below the mount point; it is the layer or lies under it; and as long
  as no other mount serves that host path through a deeper or the same directory,
  \<open>guest_path_of\<close> maps it back to the guest path.\<close>

theorem host_path_contained:
  assumes "m \<in> set ms" and "base \<in> {mt_base m, mt_upper m}" and "base \<noteq> ''/''"
    and "canonical_path base" and "canonical_path (mt_prefix m)"
    and "mount_match m (normalize_path s)"
  shows "let p = normalize_path s; host = join_host base (mount_rel m p)
    in canonical_path host \<and> comps_of host = comps_of base @ rel_comps m p
       \<and> comps_of p = comps_of (mt_prefix m) @ rel_comps m p
       \<and> under_dir base host
       \<and> ((\<forall>m'\<in>set ms. \<forall>b\<in>{mt_base m', mt_upper m'}. base_match b host \<longrightarrow>
              length b \<le> length base \<and> (b = base \<longrightarrow> mt_prefix m' = mt_prefix m))
          \<longrightarrow> guest_path_of ms host = p)"
proof -
  let ?p = "normalize_path s"
  have v: "list_all valid_comp (comps_of base @ rel_comps m ?p)"
    using assms(4) mount_rel_render(2) [OF assms(5) normalize_path_canonical assms(6)]
    by (simp add: canonical_path_def)
  have host: "join_host base (mount_rel m ?p) = render_path (comps_of base @ rel_comps m ?p)"
    by (rule translate_render [OF assms(5) normalize_path_canonical assms(6,4)])
  have inv: "guest_path_of ms (join_host base (mount_rel m ?p)) = ?p"
    if "\<forall>m'\<in>set ms. \<forall>b\<in>{mt_base m', mt_upper m'}. base_match b (join_host base (mount_rel m ?p)) \<longrightarrow>
              length b \<le> length base \<and> (b = base \<longrightarrow> mt_prefix m' = mt_prefix m)"
    using assms(2) that
    by (intro guest_path_of_layer [OF assms(1) _ assms(4,3,5) normalize_path_canonical assms(6) refl]) auto
  have u: "under_dir base (join_host base (mount_rel m ?p))"
    using v layer_prefix_contained [OF assms(4) _ assms(3), of "rel_comps m ?p"] by (simp add: host)
  have c: "canonical_path (join_host base (mount_rel m ?p))"
    "comps_of (join_host base (mount_rel m ?p)) = comps_of base @ rel_comps m ?p"
    by (simp_all only: host canonical_render [OF v] comps_of_render [OF valid_plain [OF v]])
  note mount_rel_render(1) [OF assms(5) normalize_path_canonical assms(6)]
  then show ?thesis unfolding Let_def using u c inv by blast
qed

theorem host_path_contained_witness:
  "join_host (mt_upper (demo_mounts ! 0)) (mount_rel (demo_mounts ! 0) (normalize_path ''/etc/../../usr//lib/''))
     = ''/home/u/arch-upper/usr/lib''
   \<and> guest_path_of demo_mounts ''/home/u/arch-upper/usr/lib'' = ''/usr/lib''"
proof -
  let ?m = "demo_mounts ! 0" and ?s = "''/etc/../../usr//lib/''"
  have "?m \<in> set demo_mounts" by (simp add: demo_mounts_def mount_virtual_def)
  moreover have "mt_upper ?m \<noteq> ''/''" "canonical_path (mt_upper ?m)" "canonical_path (mt_prefix ?m)"
    "mount_match ?m (normalize_path ?s)" by code_simp+
  moreover have "\<forall>m'\<in>set demo_mounts. \<forall>b\<in>{mt_base m', mt_upper m'}.
      base_match b (join_host (mt_upper ?m) (mount_rel ?m (normalize_path ?s))) \<longrightarrow>
      length b \<le> length (mt_upper ?m) \<and> (b = mt_upper ?m \<longrightarrow> mt_prefix m' = mt_prefix ?m)"
    by code_simp
  moreover have "join_host (mt_upper ?m) (mount_rel ?m (normalize_path ?s)) = ''/home/u/arch-upper/usr/lib''"
    "normalize_path ?s = ''/usr/lib''" by code_simp+
  ultimately show ?thesis
    using host_path_contained [of ?m demo_mounts "mt_upper ?m" ?s] unfolding Let_def
    by (metis insertCI)
qed

end
