(* ===== verification/Lx_Journal.thy ===== *)
theory Lx_Journal
  imports Lx_Prelude
begin

text \<open>
  Append-only text journals.  Three components keep one beside the overlay's upper
  layer (the link table, the metadata store and the whiteout list): every change
  appends a line, and a restart reads the lines back with \<open>fgets\<close>, later lines
  winning.  The locale \<open>line_journal\<close> is what such a format has to provide, one law
  per change; that replaying a file gives the effect of the changes written to it
  is proved here once.
\<close>

definition journal_file :: "('op \<Rightarrow> string) \<Rightarrow> 'op list \<Rightarrow> string" where
  "journal_file encode ops = concat (map (\<lambda>e. encode e @ [newline]) ops)"

definition replay_file :: "('st \<Rightarrow> string \<Rightarrow> 'st) \<Rightarrow> nat \<Rightarrow> 'st \<Rightarrow> string \<Rightarrow> 'st" where
  "replay_file step buf st body = foldl step st (fgets_lines buf body)"

definition whole_lines :: "string \<Rightarrow> bool" where
  "whole_lines body \<longleftrightarrow> body = [] \<or> last body = newline"

lemma whole_lines_snoc [simp]: "whole_lines (body @ l @ [newline])" "whole_lines []"
  by (simp_all add: whole_lines_def)

lemma replay_file_Nil [simp]: "replay_file step buf st [] = st"
  by (simp add: replay_file_def)

locale line_journal =
  fixes encode :: "'op \<Rightarrow> string"
    and step :: "'st \<Rightarrow> string \<Rightarrow> 'st"
    and effect :: "'op \<Rightarrow> 'st \<Rightarrow> 'st"
    and writable :: "'op \<Rightarrow> bool"
    and buf :: nat
  assumes one_line: "writable e \<Longrightarrow> newline \<notin> set (encode e) \<and> length (encode e) < buf"
    and step_encode: "writable e \<Longrightarrow> step st (encode e @ [newline]) = effect e st"
begin

lemma replay_append:
  assumes "whole_lines body" and "writable e"
  shows "replay_file step buf st (body @ encode e @ [newline]) = effect e (replay_file step buf st body)"
  using assms one_line [OF assms(2)] fgets_lines_append [of body buf "encode e @ [newline]"]
    fgets_lines_line [of "encode e" buf "[]"] step_encode [OF assms(2)]
  by (simp add: replay_file_def whole_lines_def)

lemma whole_lines_journal: "whole_lines (journal_file encode ops)"
  by (induction ops rule: rev_induct) (simp_all add: journal_file_def whole_lines_def)

lemma replay_journal:
  "list_all writable ops \<Longrightarrow> replay_file step buf st (journal_file encode ops) = fold effect ops st"
proof (induction ops rule: rev_induct)
  case (snoc e ops)
  have "journal_file encode (ops @ [e]) = journal_file encode ops @ encode e @ [newline]"
    by (simp add: journal_file_def)
  then show ?case using snoc replay_append [OF whole_lines_journal [of ops]] by simp
qed (simp add: journal_file_def)

end

end
