(* ===== verification/Lx_Whiteouts.thy ===== *)
theory Lx_Whiteouts
  imports Lx_Journal
begin

text \<open>
  Whiteouts of \<open>FileNamespace\<close> (\<open>kernel/file_namespace.hpp\<close>): the guest paths removed
  from the overlay view although the read-only lower layer still holds them, and the
  append-only journal that carries them across runs.  A line is a path, or a path after
  \<open>!\<close> when the whiteout is taken back.  \<open>std::unordered_set\<close> is a list without
  duplicates.
\<close>

section \<open>The code\<close>

record whiteouts =
  wo_set :: "string list"
  wo_journal :: string
  wo_file :: "string option"

definition wo_insert :: "string \<Rightarrow> string list \<Rightarrow> string list" where
  "wo_insert p s = (if p \<in> set s then s else s @ [p])"

definition wo_append :: "string \<Rightarrow> whiteouts \<Rightarrow> whiteouts" where
  "wo_append l w =
    w\<lparr>wo_file := Some ((case wo_file w of None \<Rightarrow> [] | Some body \<Rightarrow> body) @ l @ [newline])\<rparr>"

definition add_whiteout :: "string \<Rightarrow> whiteouts \<Rightarrow> whiteouts" where
  "add_whiteout p w =
    (let w1 = w\<lparr>wo_set := wo_insert p (wo_set w)\<rparr>
     in if p \<notin> set (wo_set w) \<and> wo_journal w \<noteq> [] then wo_append p w1 else w1)"

definition clear_whiteout :: "string \<Rightarrow> whiteouts \<Rightarrow> whiteouts" where
  "clear_whiteout p w =
    (let w1 = w\<lparr>wo_set := removeAll p (wo_set w)\<rparr>
     in if p \<in> set (wo_set w) \<and> wo_journal w \<noteq> [] then wo_append (CHR ''!'' # p) w1 else w1)"

definition clear_whiteout_if_any :: "string \<Rightarrow> whiteouts \<Rightarrow> whiteouts" where
  "clear_whiteout_if_any p w = (if wo_set w \<noteq> [] then clear_whiteout p w else w)"

definition is_whiteout :: "whiteouts \<Rightarrow> string \<Rightarrow> bool" where
  "is_whiteout w p \<longleftrightarrow> p \<in> set (wo_set w)"

definition wo_chop :: "string \<Rightarrow> string" where
  "wo_chop s = rev (dropWhile (\<lambda>c. c = newline \<or> c = CHR 0x0D) (rev s))"

definition load_line :: "string list \<Rightarrow> string \<Rightarrow> string list" where
  "load_line s line =
    (let l = wo_chop line
     in if l = [] then s
        else if hd l = CHR ''!'' then removeAll (tl l) s
        else wo_insert l s)"

text \<open>The number of lines read, and the state.\<close>

definition load_whiteouts :: "whiteouts \<Rightarrow> nat \<times> whiteouts" where
  "load_whiteouts w =
    (if wo_journal w = [] then (0, w)
     else case wo_file w of
            None \<Rightarrow> (0, w)
          | Some body \<Rightarrow> (length (fgets_lines 4095 body),
                          w\<lparr>wo_set := replay_file load_line 4095 (wo_set w) body\<rparr>))"

definition rewrite_whiteouts :: "whiteouts \<Rightarrow> whiteouts" where
  "rewrite_whiteouts w = w\<lparr>wo_file := Some (concat (map (\<lambda>p. p @ [newline]) (wo_set w)))\<rparr>"

text \<open>The whiteout part of \<open>mount_host\<close> for the first overlay mounted at \<open>/\<close>.\<close>

definition attach_whiteouts :: "bool \<Rightarrow> string \<Rightarrow> whiteouts \<Rightarrow> whiteouts" where
  "attach_whiteouts is_root upper w =
    (let (wl, w1) = load_whiteouts (w\<lparr>wo_journal := upper @ ''/.linuxity-whiteout''\<rparr>)
     in if is_root \<and> wl > 1024 \<and> wl > length (wo_set w1) * 4 then rewrite_whiteouts w1 else w1)"

section \<open>The journal format\<close>

datatype wo_change = Hide string | Reveal string

primrec wo_line :: "wo_change \<Rightarrow> string" where
  "wo_line (Hide p) = p"
| "wo_line (Reveal p) = CHR ''!'' # p"

primrec wo_effect :: "wo_change \<Rightarrow> string list \<Rightarrow> string list" where
  "wo_effect (Hide p) s = wo_insert p s"
| "wo_effect (Reveal p) s = removeAll p s"

text \<open>Paths the format carries: absolute, on one line that fits the read buffer, and not
  ending in a carriage return.\<close>

definition wo_path :: "string \<Rightarrow> bool" where
  "wo_path p \<longleftrightarrow>
    p \<noteq> [] \<and> hd p = slash \<and> newline \<notin> set p \<and> last p \<noteq> CHR 0x0D \<and> length p < 4094"

primrec wo_writable :: "wo_change \<Rightarrow> bool" where
  "wo_writable (Hide p) \<longleftrightarrow> wo_path p"
| "wo_writable (Reveal p) \<longleftrightarrow> wo_path p"

lemma wo_chop_line:
  assumes "s \<noteq> []" "last s \<noteq> newline" "last s \<noteq> CHR 0x0D"
  shows "wo_chop (s @ [newline]) = s"
  using assms by (cases s rule: rev_cases) (simp_all add: wo_chop_def)

lemma wo_path_chop:
  assumes "wo_path p"
  shows "wo_chop (p @ [newline]) = p" and "wo_chop ((CHR ''!'' # p) @ [newline]) = CHR ''!'' # p"
proof -
  have "last p \<noteq> newline" using assms last_in_set [of p] by (metis wo_path_def)
  then show "wo_chop (p @ [newline]) = p" "wo_chop ((CHR ''!'' # p) @ [newline]) = CHR ''!'' # p"
    using assms wo_chop_line [of p] wo_chop_line [of "CHR ''!'' # p"] by (auto simp: wo_path_def)
qed

interpretation wo: line_journal wo_line load_line wo_effect wo_writable 4095
proof (unfold_locales, goal_cases)
  case (1 e)
  then show ?case by (cases e) (auto simp: wo_path_def)
next
  case (2 e st)
  then show ?case
    using wo_path_chop by (cases e) (auto simp: load_line_def wo_path_def)
qed

section \<open>Invariant\<close>

definition wo_text :: "whiteouts \<Rightarrow> string" where
  "wo_text w = (case wo_file w of None \<Rightarrow> [] | Some body \<Rightarrow> body)"

definition wo_ok :: "whiteouts \<Rightarrow> bool" where
  "wo_ok w \<longleftrightarrow> wo_journal w \<noteq> [] \<and> distinct (wo_set w) \<and> whole_lines (wo_text w)
     \<and> set (replay_file load_line 4095 [] (wo_text w)) = set (wo_set w)"

lemma set_wo_insert [simp]: "set (wo_insert p s) = insert p (set s)"
  by (auto simp: wo_insert_def)

lemma distinct_wo_insert [simp]: "distinct s \<Longrightarrow> distinct (wo_insert p s)"
  by (simp add: wo_insert_def)

lemma wo_append_simps [simp]:
  "wo_set (wo_append l w) = wo_set w" "wo_journal (wo_append l w) = wo_journal w"
  "wo_text (wo_append l w) = wo_text w @ l @ [newline]"
  by (simp_all add: wo_append_def wo_text_def)

lemma wo_text_set [simp]: "wo_text (w\<lparr>wo_set := s\<rparr>) = wo_text w"
  by (simp add: wo_text_def)

lemma add_whiteout_ok [lx_inv]:
  assumes "wo_ok w" "wo_path p"
  shows "wo_ok (add_whiteout p w)"
  using assms wo.replay_append [of "wo_text w" "Hide p" "[]"]
  by (auto simp: wo_ok_def add_whiteout_def Let_def)

lemma clear_whiteout_ok [lx_inv]:
  assumes "wo_ok w" "wo_path p"
  shows "wo_ok (clear_whiteout p w)"
  using assms wo.replay_append [of "wo_text w" "Reveal p" "[]"]
    whole_lines_snoc(1) [of "wo_text w" "CHR ''!'' # p"]
  by (auto simp: wo_ok_def clear_whiteout_def Let_def distinct_removeAll)

lemma clear_whiteout_if_any_ok [lx_inv]: "wo_ok w \<Longrightarrow> wo_path p \<Longrightarrow> wo_ok (clear_whiteout_if_any p w)"
  by (simp add: clear_whiteout_if_any_def clear_whiteout_ok)

lemma fold_wo_insert_set: "set (fold wo_insert ps s) = set s \<union> set ps"
  by (induction ps arbitrary: s) auto

lemma rewrite_whiteouts_ok [lx_inv]:
  assumes "wo_ok w" "list_all wo_path (wo_set w)"
  shows "wo_ok (rewrite_whiteouts w)"
proof -
  have e: "concat (map (\<lambda>p. p @ [newline]) ps) = journal_file wo_line (map Hide ps)" for ps
    by (simp add: journal_file_def o_def)
  have "list_all wo_writable (map Hide (wo_set w))"
    using assms(2) by (simp add: list_all_iff)
  then have r: "replay_file load_line 4095 [] (journal_file wo_line (map Hide (wo_set w)))
      = fold wo_effect (map Hide (wo_set w)) []"
    by (rule wo.replay_journal)
  have f: "fold wo_effect (map Hide ps) s = fold wo_insert ps s" for ps s
    by (induction ps arbitrary: s) simp_all
  show ?thesis
    using assms(1) wo.whole_lines_journal [of "map Hide (wo_set w)"] r
    by (simp add: wo_ok_def rewrite_whiteouts_def wo_text_def e f fold_wo_insert_set)
qed

lemma is_whiteout_simps [simp]:
  "is_whiteout (add_whiteout p w) q \<longleftrightarrow> q = p \<or> is_whiteout w q"
  "is_whiteout (clear_whiteout p w) q \<longleftrightarrow> q \<noteq> p \<and> is_whiteout w q"
  "is_whiteout (clear_whiteout_if_any p w) q \<longleftrightarrow> q \<noteq> p \<and> is_whiteout w q"
  by (auto simp: is_whiteout_def add_whiteout_def clear_whiteout_def clear_whiteout_if_any_def Let_def)

text \<open>A sequence of removals and re-creations.\<close>

primrec wo_apply :: "wo_change \<Rightarrow> whiteouts \<Rightarrow> whiteouts" where
  "wo_apply (Hide p) w = add_whiteout p w"
| "wo_apply (Reveal p) w = clear_whiteout_if_any p w"

lemma wo_run_ok: "wo_ok w \<Longrightarrow> list_all wo_writable es \<Longrightarrow> wo_ok (fold wo_apply es w)"
proof (induction es arbitrary: w)
  case (Cons e es)
  then show ?case by (cases e) (simp_all add: lx_inv)
qed simp

lemma wo_run_set:
  "is_whiteout (fold wo_apply es w) q \<longleftrightarrow> q \<in> set (fold wo_effect es (wo_set w))"
proof (induction es arbitrary: w)
  case (Cons e es)
  have "set (fold wo_effect es s) = set (fold wo_effect es t)" if "set s = set t" for s t es
    using that
  proof (induction es arbitrary: s t)
    case (Cons e es)
    then show ?case by (cases e) (auto intro!: Cons.IH)
  qed simp
  moreover have "set (wo_set (wo_apply e w)) = set (wo_effect e (wo_set w))"
    using is_whiteout_simps(1) [of _ w] is_whiteout_simps(3) [of _ w]
    by (cases e) (auto simp: is_whiteout_def)
  ultimately show ?case using Cons by (metis fold_simps(2))
qed (simp add: is_whiteout_def)

definition wo_fresh :: "string \<Rightarrow> whiteouts" where
  "wo_fresh upper = \<lparr>wo_set = [], wo_journal = upper @ ''/.linuxity-whiteout'', wo_file = None\<rparr>"

lemma wo_fresh_ok: "wo_ok (wo_fresh upper)"
  by (simp add: wo_ok_def wo_fresh_def wo_text_def)

text \<open>A name that ends in a carriage return comes back under another name.\<close>

lemma whiteout_cr_lost:
  "let p = ''/a'' @ [CHR 0x0D];
       w = add_whiteout p (wo_fresh ''/up'');
       w' = snd (load_whiteouts (w\<lparr>wo_set := []\<rparr>))
   in is_whiteout w p \<and> \<not> is_whiteout w' p \<and> is_whiteout w' ''/a''"
  using fgets_lines_line [of "''/a'' @ [CHR 0x0D]" 4095 "[]"]
  by (simp add: Let_def add_whiteout_def wo_fresh_def wo_append_def load_whiteouts_def replay_file_def
      load_line_def wo_chop_def wo_insert_def is_whiteout_def)

lemma wo_effect_paths:
  "list_all wo_writable es \<Longrightarrow> list_all wo_path s \<Longrightarrow> list_all wo_path (fold wo_effect es s)"
proof (induction es arbitrary: s)
  case (Cons e es)
  then have "list_all wo_path (wo_effect e s)" by (cases e) (auto simp: list_all_iff)
  then show ?case using Cons by simp
qed simp

lemma attach_whiteouts_recovers:
  assumes ok: "wo_ok w" and paths: "list_all wo_path (wo_set w)"
    and j: "wo_journal w = upper @ ''/.linuxity-whiteout''"
  shows "wo_ok (attach_whiteouts is_root upper (w\<lparr>wo_set := []\<rparr>))
    \<and> (\<forall>q. is_whiteout (attach_whiteouts is_root upper (w\<lparr>wo_set := []\<rparr>)) q \<longleftrightarrow> is_whiteout w q)"
proof -
  let ?s = "replay_file load_line 4095 [] (wo_text w)"
  define w1 where "w1 = w\<lparr>wo_set := ?s\<rparr>"
  have dist: "distinct (foldl load_line s ls)" if "distinct s" for s ls
    using that by (induction ls arbitrary: s) (simp_all add: load_line_def Let_def distinct_removeAll)
  have w1: "wo_ok w1" "set (wo_set w1) = set (wo_set w)" "list_all wo_path (wo_set w1)"
    using ok paths dist [of "[]"] by (auto simp: w1_def wo_ok_def replay_file_def list_all_iff)
  have "snd (load_whiteouts (w\<lparr>wo_set := [], wo_journal := upper @ ''/.linuxity-whiteout''\<rparr>)) = w1"
    using j by (cases "wo_file w") (auto simp: load_whiteouts_def w1_def wo_text_def)
  then have "attach_whiteouts is_root upper (w\<lparr>wo_set := []\<rparr>) \<in> {w1, rewrite_whiteouts w1}"
    by (auto simp: attach_whiteouts_def split_def Let_def)
  moreover have "wo_ok (rewrite_whiteouts w1)" by (rule rewrite_whiteouts_ok [OF w1(1,3)])
  moreover have "wo_set (rewrite_whiteouts w1) = wo_set w1" by (simp add: rewrite_whiteouts_def)
  ultimately show ?thesis using w1(1,2) by (elim insertE emptyE) (simp_all only: is_whiteout_def simp_thms)
qed

lemma wo_apply_journal [simp]: "wo_journal (fold wo_apply es w) = wo_journal w"
proof (induction es arbitrary: w)
  case (Cons e es)
  then show ?case
    by (cases e) (simp_all add: add_whiteout_def clear_whiteout_def clear_whiteout_if_any_def Let_def)
qed simp

section \<open>Properties\<close>

text \<open>C24: Whiteouts survive a restart: after any sequence of removals and re-creations of
  paths the format can carry, attaching the journal in a new process gives exactly the
  set of hidden paths the old process had, namely those whose last change was a removal;
  rewriting the journal compactly, as the attach of a root process may do, does not
  change that.\<close>

theorem whiteouts_recover:
  assumes "list_all wo_writable es" and "w = fold wo_apply es (wo_fresh upper)"
  shows "let w' = attach_whiteouts is_root upper (w\<lparr>wo_set := []\<rparr>)
    in wo_ok w' \<and> (\<forall>q. is_whiteout w' q \<longleftrightarrow> is_whiteout w q)
       \<and> (\<forall>q. is_whiteout w q \<longleftrightarrow> q \<in> set (fold wo_effect es []))"
proof -
  have ok: "wo_ok w" using assms by (simp add: wo_run_ok wo_fresh_ok)
  have set: "is_whiteout w q \<longleftrightarrow> q \<in> set (fold wo_effect es [])" for q
    using wo_run_set [of es "wo_fresh upper" q] assms(2) by (simp add: wo_fresh_def)
  have "list_all wo_path (wo_set w)"
    using wo_effect_paths [OF assms(1), of "[]"] set by (simp add: list_all_iff is_whiteout_def)
  then show ?thesis
    using attach_whiteouts_recovers [OF ok, of upper is_root] set assms(2)
    by (simp add: Let_def wo_fresh_def)
qed

definition demo_changes :: "wo_change list" where
  "demo_changes = [Hide ''/etc/motd'', Hide ''/bin/sh'', Reveal ''/etc/motd'', Hide ''/a b'']"

theorem whiteouts_recover_witness:
  "let w = fold wo_apply demo_changes (wo_fresh ''/up'');
       w' = attach_whiteouts True ''/up'' (w\<lparr>wo_set := []\<rparr>)
   in is_whiteout w' ''/bin/sh'' \<and> \<not> is_whiteout w' ''/etc/motd''"
proof -
  have "list_all wo_writable demo_changes" by (simp add: demo_changes_def wo_path_def)
  note T = whiteouts_recover [OF this refl, of True "''/up''", unfolded Let_def]
  have "fold wo_effect demo_changes [] = [''/bin/sh'', ''/a b'']"
    by (simp add: demo_changes_def wo_insert_def)
  then have "''/bin/sh'' \<in> set (fold wo_effect demo_changes [])" "''/etc/motd'' \<notin> set (fold wo_effect demo_changes [])"
    by simp_all
  with T show ?thesis unfolding Let_def by blast
qed

end
