(* ===== verification/Lx_Host.thy ===== *)
theory Lx_Host
  imports Lx_Path Lx_Result
begin

text \<open>
  The host file system as the namespace sees it.  The calls of the host kernel are a
  parameter, the record \<open>host_ops\<close>, over a host state of any type; the probes
  \<open>exists\<close>, \<open>is_dir\<close>, \<open>probe_link\<close> and the descent for over-long paths
  \<open>at_long_parent\<close> (\<open>kernel/file_namespace.hpp\<close>) are written over it.  A \<open>world\<close> adds to
  the host state the list of changing calls issued so far, so that properties can say
  which host paths an operation may touch.
\<close>

unbundle bit_operations_syntax

section \<open>Host calls\<close>

record hstat =
  hst_mode :: u32
  hst_ino :: u64
  hst_dev :: u64
  hst_uid :: u32
  hst_nlink :: u64

record hdirent =
  hd_name :: string
  hd_type :: nat
  hd_ino :: u64

text \<open>Reading a file is the list of the blocks that the successive \<open>read\<close> calls return, up to
  the first empty one; \<open>h_write\<close> returns what \<open>write\<close> returns.\<close>

record ('h, 'd) host_ops =
  h_lstat :: "'h \<Rightarrow> string \<Rightarrow> hstat result"
  h_stat :: "'h \<Rightarrow> string \<Rightarrow> hstat result"
  h_readlink :: "'h \<Rightarrow> string \<Rightarrow> string result"
  h_root :: "'h \<Rightarrow> 'd result"
  h_openat :: "'h \<Rightarrow> 'd \<Rightarrow> string \<Rightarrow> 'd result"
  h_lstatat :: "'h \<Rightarrow> 'd \<Rightarrow> string \<Rightarrow> hstat result"
  h_statat :: "'h \<Rightarrow> 'd \<Rightarrow> string \<Rightarrow> hstat result"
  h_readlinkat :: "'h \<Rightarrow> 'd \<Rightarrow> string \<Rightarrow> string result"
  h_readdir :: "'h \<Rightarrow> string \<Rightarrow> hdirent list result"
  h_readdirat :: "'h \<Rightarrow> 'd \<Rightarrow> string \<Rightarrow> hdirent list result"
  h_read :: "'h \<Rightarrow> string \<Rightarrow> u8 list list result"
  h_mkdir :: "string \<Rightarrow> u32 \<Rightarrow> 'h \<Rightarrow> bool \<times> 'h"
  h_chmod :: "string \<Rightarrow> u32 \<Rightarrow> 'h \<Rightarrow> 'h"
  h_create :: "string \<Rightarrow> u32 \<Rightarrow> 'h \<Rightarrow> bool \<times> 'h"
  h_write :: "string \<Rightarrow> u8 list \<Rightarrow> 'h \<Rightarrow> int \<times> 'h"
  h_unlink :: "string \<Rightarrow> 'h \<Rightarrow> 'h"
  h_rmdir :: "string \<Rightarrow> 'h \<Rightarrow> 'h"

datatype host_call =
    Mkdir string u32
  | Chmod string u32
  | Create string u32
  | Write string "u8 list"
  | Unlink string
  | Rmdir string
  | Rename string string
  | Link string string

text \<open>The name a call makes, changes or removes; a \<open>Rename\<close> also removes its source.\<close>

primrec call_path :: "host_call \<Rightarrow> string" where
  "call_path (Mkdir p m) = p"
| "call_path (Chmod p m) = p"
| "call_path (Create p m) = p"
| "call_path (Write p b) = p"
| "call_path (Unlink p) = p"
| "call_path (Rmdir p) = p"
| "call_path (Rename p q) = q"
| "call_path (Link p q) = q"

record 'h world =
  w_host :: 'h
  w_calls :: "host_call list"

definition issue :: "host_call \<Rightarrow> 'h \<Rightarrow> 'h world \<Rightarrow> 'h world" where
  "issue c h w = \<lparr>w_host = h, w_calls = w_calls w @ [c]\<rparr>"

definition do_mkdir :: "('h, 'd) host_ops \<Rightarrow> string \<Rightarrow> u32 \<Rightarrow> 'h world \<Rightarrow> bool \<times> 'h world" where
  "do_mkdir H p m w = (let (r, h) = h_mkdir H p m (w_host w) in (r, issue (Mkdir p m) h w))"

definition do_chmod :: "('h, 'd) host_ops \<Rightarrow> string \<Rightarrow> u32 \<Rightarrow> 'h world \<Rightarrow> 'h world" where
  "do_chmod H p m w = issue (Chmod p m) (h_chmod H p m (w_host w)) w"

definition do_create :: "('h, 'd) host_ops \<Rightarrow> string \<Rightarrow> u32 \<Rightarrow> 'h world \<Rightarrow> bool \<times> 'h world" where
  "do_create H p m w = (let (r, h) = h_create H p m (w_host w) in (r, issue (Create p m) h w))"

text \<open>The logged bytes are those the host accepted.\<close>

definition do_write :: "('h, 'd) host_ops \<Rightarrow> string \<Rightarrow> u8 list \<Rightarrow> 'h world \<Rightarrow> int \<times> 'h world" where
  "do_write H p b w =
    (let (n, h) = h_write H p b (w_host w) in (n, issue (Write p (take (nat n) b)) h w))"

definition do_unlink :: "('h, 'd) host_ops \<Rightarrow> string \<Rightarrow> 'h world \<Rightarrow> 'h world" where
  "do_unlink H p w = issue (Unlink p) (h_unlink H p (w_host w)) w"

definition do_rmdir :: "('h, 'd) host_ops \<Rightarrow> string \<Rightarrow> 'h world \<Rightarrow> 'h world" where
  "do_rmdir H p w = issue (Rmdir p) (h_rmdir H p (w_host w)) w"

section \<open>The code\<close>

text \<open>\<open>S_ISDIR\<close>, \<open>S_ISLNK\<close> and the low twelve mode bits.\<close>

definition s_isdir :: "u32 \<Rightarrow> bool" where
  "s_isdir m \<longleftrightarrow> m AND 0xF000 = 0x4000"

definition s_islnk :: "u32 \<Rightarrow> bool" where
  "s_islnk m \<longleftrightarrow> m AND 0xF000 = 0xA000"

fun walk_dirs :: "('h, 'd) host_ops \<Rightarrow> 'h \<Rightarrow> 'd result \<Rightarrow> string list \<Rightarrow> 'd result" where
  "walk_dirs H h (Inl e) cs = Inl e"
| "walk_dirs H h (Inr d) [] = Inr d"
| "walk_dirs H h (Inr d) (c # cs) = walk_dirs H h (h_openat H h d c) cs"

text \<open>\<open>errno\<close> is the left value: what the failing step left behind, or the
  \<open>ENAMETOOLONG\<close> that led here when the path has no leaf.\<close>

definition at_long_parent ::
  "('h, 'd) host_ops \<Rightarrow> 'h \<Rightarrow> string \<Rightarrow> ('d \<Rightarrow> string \<Rightarrow> 'a result) \<Rightarrow> 'a result" where
  "at_long_parent H h p f =
    (case str_rfind slash p of
       None \<Rightarrow> Inl ENAMETOOLONG
     | Some k \<Rightarrow>
         if k + 1 \<ge> length p then Inl ENAMETOOLONG
         else (case walk_dirs H h (h_root H h) (comps_of (take k p)) of
                 Inl e \<Rightarrow> Inl e
               | Inr d \<Rightarrow> f d (drop (k + 1) p)))"

definition isOK :: "'a result \<Rightarrow> bool" where
  "isOK r \<longleftrightarrow> (case r of Inl _ \<Rightarrow> False | Inr _ \<Rightarrow> True)"

definition h_exists :: "('h, 'd) host_ops \<Rightarrow> 'h \<Rightarrow> string \<Rightarrow> bool" where
  "h_exists H h p =
    (case h_lstat H h p of
       Inr _ \<Rightarrow> True
     | Inl e \<Rightarrow> if e \<noteq> ENAMETOOLONG then False
                else isOK (at_long_parent H h p (h_lstatat H h)))"

definition is_dir :: "('h, 'd) host_ops \<Rightarrow> 'h \<Rightarrow> string \<Rightarrow> bool" where
  "is_dir H h p =
    (case h_stat H h p of
       Inr st \<Rightarrow> s_isdir (hst_mode st)
     | Inl e \<Rightarrow> if e \<noteq> ENAMETOOLONG then False
                else (case at_long_parent H h p (h_statat H h) of
                        Inl _ \<Rightarrow> False
                      | Inr st \<Rightarrow> s_isdir (hst_mode st)))"

datatype probe = Psymlink string | Ppresent | Pabsent | Pnotdir

text \<open>The buffer holds 4095 characters of the target.\<close>

definition probe_link :: "('h, 'd) host_ops \<Rightarrow> 'h \<Rightarrow> string \<Rightarrow> probe" where
  "probe_link H h p =
    (let r = (case h_readlink H h p of
                Inr t \<Rightarrow> Inr t
              | Inl e \<Rightarrow> if e = ENAMETOOLONG then at_long_parent H h p (h_readlinkat H h) else Inl e)
     in case r of
          Inr t \<Rightarrow> Psymlink (take 4095 t)
        | Inl e \<Rightarrow> if e = EINVAL then Ppresent else if e = ENOTDIR then Pnotdir else Pabsent)"

lemma issue_simps [simp]: "w_calls (issue c h w) = w_calls w @ [c]" "w_host (issue c h w) = h"
  by (simp_all add: issue_def)

text \<open>What an operation added to the list of calls, and that it only added.\<close>

definition new_calls :: "'h world \<Rightarrow> 'h world \<Rightarrow> host_call list" where
  "new_calls w w' = drop (length (w_calls w)) (w_calls w')"

definition extends :: "'h world \<Rightarrow> 'h world \<Rightarrow> (host_call \<Rightarrow> bool) \<Rightarrow> bool" where
  "extends w w' P \<longleftrightarrow> (\<exists>cs. w_calls w' = w_calls w @ cs \<and> list_all P cs)"

lemma extends_refl [simp]: "extends w w P"
  by (simp add: extends_def)

lemma extends_trans [trans]: "extends u v P \<Longrightarrow> extends v w P \<Longrightarrow> extends u w P"
  by (auto simp: extends_def)

lemma extends_new: "extends w w' P \<Longrightarrow> list_all P (new_calls w w')"
  by (auto simp: extends_def new_calls_def)

lemma extends_mono: "extends w w' P \<Longrightarrow> (\<And>c. P c \<Longrightarrow> Q c) \<Longrightarrow> extends w w' Q"
  by (auto simp: extends_def list_all_iff)

named_theorems lx_calls "the calls an operation issues"

lemma do_mkdir_calls [lx_calls]: "P (Mkdir p m) \<Longrightarrow> extends w (snd (do_mkdir H p m w)) P"
  by (auto simp: extends_def do_mkdir_def split_def Let_def)

lemma do_chmod_calls [lx_calls]: "P (Chmod p m) \<Longrightarrow> extends w (do_chmod H p m w) P"
  by (auto simp: extends_def do_chmod_def)

lemma do_create_calls [lx_calls]: "P (Create p m) \<Longrightarrow> extends w (snd (do_create H p m w)) P"
  by (auto simp: extends_def do_create_def split_def Let_def)

lemma do_write_calls [lx_calls]: "(\<And>b. P (Write p b)) \<Longrightarrow> extends w (snd (do_write H p b w)) P"
  by (auto simp: extends_def do_write_def split_def Let_def)

lemma do_unlink_calls [lx_calls]: "P (Unlink p) \<Longrightarrow> extends w (do_unlink H p w) P"
  by (auto simp: extends_def do_unlink_def)

lemma do_rmdir_calls [lx_calls]: "P (Rmdir p) \<Longrightarrow> extends w (do_rmdir H p w) P"
  by (auto simp: extends_def do_rmdir_def)

end
