(* ===== verification/Lx_Overlay.thy ===== *)
theory Lx_Overlay
  imports Lx_Mounts Lx_Whiteouts Lx_Host
begin

text \<open>
  The copy-on-write side of \<open>kernel/file_namespace.hpp\<close>: \<open>mirror_parents_from_lower\<close>,
  \<open>copy_up\<close>, the merged directory listing \<open>overlay_dir_union\<close>, and the start-up repair of
  the package database.  Every changing host call is recorded in the \<open>world\<close>.
\<close>

unbundle bit_operations_syntax

section \<open>Copying up\<close>

type_synonym widened = "(nat \<times> u32) list"

text \<open>The mode \<open>mirror_parents_from_lower\<close> takes from the lower counterpart of \<open>take i dir\<close>.\<close>

definition mirror_mode :: "('h, 'd) host_ops \<Rightarrow> 'h \<Rightarrow> string \<Rightarrow> string \<Rightarrow> nat \<Rightarrow> u32" where
  "mirror_mode H h dir lo_dir i =
    (let tail = length dir - i
     in if lo_dir \<noteq> [] \<and> tail \<le> length lo_dir then
          (case h_stat H h (take (length lo_dir - tail) lo_dir) of
             Inr st \<Rightarrow> if s_isdir (hst_mode st) then hst_mode st AND 0xFFF else 0x1ED
           | Inl _ \<Rightarrow> 0x1ED)
        else 0x1ED)"

definition mirror_step ::
  "('h, 'd) host_ops \<Rightarrow> string \<Rightarrow> string \<Rightarrow> string \<Rightarrow> nat \<Rightarrow> 'h world \<times> widened \<Rightarrow> 'h world \<times> widened" where
  "mirror_step H up dir lo_dir i st =
    (let (w, wid) = st in
     if i \<noteq> length dir \<and> dir ! i \<noteq> slash then (w, wid)
     else let sub = take i dir;
              real = mirror_mode H (w_host w) dir lo_dir i;
              mode = real OR 0x1C0;
              (r, w1) = do_mkdir H sub mode w
          in if \<not> r then (w1, wid)
             else (do_chmod H sub mode w1,
                   if real \<noteq> mode then wid @ [(length up - length sub, real)] else wid))"

definition mirror_parents_from_lower ::
  "('h, 'd) host_ops \<Rightarrow> string \<Rightarrow> string \<Rightarrow> 'h world \<times> widened \<Rightarrow> 'h world \<times> widened" where
  "mirror_parents_from_lower H up lo st =
    (case str_rfind slash up of
       None \<Rightarrow> st
     | Some k \<Rightarrow>
         if k = 0 then st
         else let lo_dir = (case str_rfind slash lo of None \<Rightarrow> [] | Some j \<Rightarrow> take j lo);
                  dir = take k up
              in fold (mirror_step H up dir lo_dir) [1..<Suc (length dir)] st)"

function write_all :: "('h, 'd) host_ops \<Rightarrow> string \<Rightarrow> u8 list \<Rightarrow> 'h world \<Rightarrow> 'h world" where
  "write_all H p buf w =
    (if buf = [] then w
     else let (n, w1) = do_write H p buf w
          in if n \<le> 0 then w1 else write_all H p (drop (nat n) buf) w1)"
  by pat_completeness auto
termination
  by (relation "measure (\<lambda>(H, p, buf, w). length buf)") auto

declare write_all.simps [simp del]

fun copy_blocks :: "('h, 'd) host_ops \<Rightarrow> string \<Rightarrow> u8 list list \<Rightarrow> 'h world \<Rightarrow> 'h world" where
  "copy_blocks H p [] w = w"
| "copy_blocks H p (b # bs) w = (if b = [] then w else copy_blocks H p bs (write_all H p b w))"

definition copy_up ::
  "('h, 'd) host_ops \<Rightarrow> string \<Rightarrow> string \<Rightarrow> 'h world \<times> widened \<Rightarrow> 'h world \<times> widened" where
  "copy_up H up lo st0 =
    (let (w, wid0) = mirror_parents_from_lower H up lo st0; h = w_host w in
     if h_exists H h up then (w, wid0)
     else let lst = h_stat H h lo;
              lmode = (case lst of Inr s \<Rightarrow> hst_mode s AND 0xFFF | Inl _ \<Rightarrow> 0);
              dir = is_dir H h lo;
              host_mode = (if \<not> isOK lst then (if dir then 0x1ED else 0x1A4)
                           else lmode OR (if dir then 0x1C0 else 0x180));
              wid = (if isOK lst \<and> host_mode \<noteq> lmode then wid0 @ [(0, lmode)] else wid0)
          in if dir then
               (let (r, w1) = do_mkdir H up host_mode w
                in (if r then do_chmod H up host_mode w1 else w1, wid))
             else (case h_read H h lo of
                     Inl _ \<Rightarrow> (w, wid)
                   | Inr bs \<Rightarrow>
                       let (r, w1) = do_create H up host_mode w
                       in if \<not> r then (w1, wid)
                          else (do_chmod H up host_mode (copy_blocks H up bs w1), wid)))"

section \<open>Merged listings\<close>

record dirent_info =
  di_type :: dtype
  di_ino :: u64

type_synonym name_map = "(string \<times> dirent_info) list"

definition dirent_class :: "('h, 'd) host_ops \<Rightarrow> 'h \<Rightarrow> string \<Rightarrow> hdirent \<Rightarrow> dirent_info" where
  "dirent_class H h dir e =
    (if hd_type e = 10 then \<lparr>di_type = Dsymlink, di_ino = hd_ino e\<rparr>
     else if hd_type e = 4 then \<lparr>di_type = Ddir, di_ino = hd_ino e\<rparr>
     else if hd_type e = 8 then \<lparr>di_type = Dregular, di_ino = hd_ino e\<rparr>
     else (case h_lstat H h (dir @ ''/'' @ hd_name e) of
             Inr ls \<Rightarrow> \<lparr>di_type = (if s_islnk (hst_mode ls) then Dsymlink
                                   else if s_isdir (hst_mode ls) then Ddir else Dregular),
                        di_ino = hst_ino ls\<rparr>
           | Inl _ \<Rightarrow> \<lparr>di_type = Dregular, di_ino = hd_ino e\<rparr>))"

definition merge_step :: "('h, 'd) host_ops \<Rightarrow> 'h \<Rightarrow> string \<Rightarrow> hdirent \<Rightarrow> name_map \<Rightarrow> name_map" where
  "merge_step H h dir e seen =
    (if hd_name e = ''.'' \<or> hd_name e = ''..'' \<or> map_of seen (hd_name e) \<noteq> None then seen
     else seen @ [(hd_name e, dirent_class H h dir e)])"

definition read_dir :: "('h, 'd) host_ops \<Rightarrow> 'h \<Rightarrow> string \<Rightarrow> hdirent list result" where
  "read_dir H h dir =
    (case h_readdir H h dir of
       Inr es \<Rightarrow> Inr es
     | Inl e \<Rightarrow> if e = ENAMETOOLONG then at_long_parent H h dir (h_readdirat H h) else Inl e)"

definition merge_dir :: "('h, 'd) host_ops \<Rightarrow> 'h \<Rightarrow> string \<Rightarrow> name_map \<Rightarrow> bool \<times> name_map" where
  "merge_dir H h dir seen =
    (case read_dir H h dir of
       Inl _ \<Rightarrow> (False, seen)
     | Inr es \<Rightarrow> (True, fold (merge_step H h dir) es seen))"

definition hidden_names :: "string list" where
  "hidden_names = [''.linuxity-meta'', ''.linuxity-links'', ''.linuxity-whiteout'']"

text \<open>The guest path of the directory with a separator at the end.\<close>

definition child_base :: "string \<Rightarrow> string" where
  "child_base ap =
    (let dir = (if ap \<noteq> ''/'' \<and> last ap = slash then butlast ap else ap)
     in if dir = ''/'' then ''/'' else dir @ ''/'')"

definition overlay_dir_union ::
  "('h, 'd) host_ops \<Rightarrow> 'h \<Rightarrow> whiteouts \<Rightarrow> mount list \<Rightarrow> string \<Rightarrow> virtual_dirent list" where
  "overlay_dir_union H h wo ms ap =
    (case deepest ms ap of
       None \<Rightarrow> []
     | Some i \<Rightarrow>
         let m = ms ! i in
         if mt_producer m \<noteq> None \<or> mt_upper m = [] then []
         else let rel = mount_rel m ap;
                  lo = join_host (mt_base m) rel;
                  up = join_host (mt_upper m) rel;
                  (had_up, seen1) = merge_dir H h up [];
                  (had_lo, seen2) = merge_dir H h lo seen1
              in if \<not> had_up \<and> \<not> had_lo then []
                 else let seen3 = filter (\<lambda>(n, _). n \<notin> set hidden_names) seen2;
                          seen4 = (if wo_set wo = [] then seen3
                                   else filter (\<lambda>(n, _). \<not> (is_whiteout wo (child_base ap @ n)
                                                  \<and> \<not> h_exists H h (up @ ''/'' @ n))) seen3)
                      in \<lparr>vd_name = ''.'', vd_type = Ddir, vd_ino = 0\<rparr>
                         # \<lparr>vd_name = ''..'', vd_type = Ddir, vd_ino = 0\<rparr>
                         # map (\<lambda>(n, i). \<lparr>vd_name = n, vd_type = di_type i, vd_ino = di_ino i\<rparr>) seen4)"

section \<open>Repairing the package database\<close>

text \<open>Recursive removal; the depth of the tree is bounded by the fuel, \<open>None\<close> means that it
  ran out.\<close>

fun remove_tree :: "('h, 'd) host_ops \<Rightarrow> nat \<Rightarrow> string \<Rightarrow> 'h world \<Rightarrow> 'h world option"
and remove_children ::
  "('h, 'd) host_ops \<Rightarrow> nat \<Rightarrow> string \<Rightarrow> hdirent list \<Rightarrow> 'h world \<Rightarrow> 'h world option" where
  "remove_tree H 0 p w = None"
| "remove_tree H (Suc n) p w =
    (case h_readdir H (w_host w) p of
       Inl _ \<Rightarrow> Some (do_rmdir H p w)
     | Inr es \<Rightarrow> map_option (do_rmdir H p) (remove_children H n p es w))"
| "remove_children H n p [] w = Some w"
| "remove_children H n p (e # es) w =
    (if hd_name e = ''.'' \<or> hd_name e = ''..'' then remove_children H n p es w
     else let child = p @ ''/'' @ hd_name e
          in if is_dir H (w_host w) child
             then Option.bind (remove_tree H n child w) (remove_children H n p es)
             else remove_children H n p es (do_unlink H child w))"

fun repair_entries ::
  "('h, 'd) host_ops \<Rightarrow> nat \<Rightarrow> string \<Rightarrow> hdirent list \<Rightarrow> 'h world \<Rightarrow> 'h world option" where
  "repair_entries H n dir [] w = Some w"
| "repair_entries H n dir (e # es) w =
    (let entry = dir @ ''/'' @ hd_name e in
     if hd_name e = ''.'' \<or> hd_name e = ''..'' \<or> \<not> is_dir H (w_host w) entry
        \<or> h_exists H (w_host w) (entry @ ''/desc'')
     then repair_entries H n dir es w
     else Option.bind (remove_tree H n entry w) (repair_entries H n dir es))"

definition repair_pacman_db ::
  "('h, 'd) host_ops \<Rightarrow> nat \<Rightarrow> string \<Rightarrow> 'h world \<Rightarrow> 'h world option" where
  "repair_pacman_db H n upper w =
    (let lck = upper @ ''/var/lib/pacman/db.lck'';
         w1 = (if h_exists H (w_host w) lck then do_unlink H lck w else w);
         dir = upper @ ''/var/lib/pacman/local''
     in case h_readdir H (w_host w1) dir of
          Inl _ \<Rightarrow> Some w1
        | Inr es \<Rightarrow> repair_entries H n dir es w1)"

section \<open>Where copying up writes\<close>

lemma under_dir_take: "i < length p \<Longrightarrow> p ! i = slash \<Longrightarrow> under_dir (take i p) p"
  by (simp add: under_dir_def starts_with_def)

lemma under_dir_refl [simp]: "under_dir p p"
  by (simp add: under_dir_def)

lemma under_dir_trans: "under_dir a b \<Longrightarrow> under_dir b c \<Longrightarrow> under_dir a c"
proof -
  assume "under_dir a b" "under_dir b c"
  then obtain t u where "b = a @ t" "c = a @ t @ u" "t = [] \<or> hd t = slash" "u = [] \<or> hd u = slash"
    by (auto simp: under_dir_iff)
  then show ?thesis by (cases t) (auto simp: under_dir_iff)
qed

lemma mirror_step_calls [lx_calls]:
  assumes "k < length up" "up ! k = slash" "dir = take k up" "1 \<le> i" "i \<le> length dir"
  shows "extends (fst st) (fst (mirror_step H up dir lo_dir i st)) (\<lambda>c. under_dir (call_path c) up)"
proof (cases "i \<noteq> length dir \<and> dir ! i \<noteq> slash")
  case True
  then show ?thesis by (simp add: mirror_step_def split_def)
next
  case False
  obtain w wid where st: "st = (w, wid)" by force
  have "up ! i = slash" using False assms nth_take [of i k up] by (cases "i = k") (auto simp: min_def)
  moreover have "i < length up" using assms by simp
  ultimately have u: "under_dir (take i dir) up" using under_dir_take [of i up] assms by (simp add: min_def)
  let ?m = "mirror_mode H (w_host w) dir lo_dir i OR 0x1C0"
  have m: "extends w (snd (do_mkdir H (take i dir) ?m w)) (\<lambda>c. under_dir (call_path c) up)"
    using u by (intro lx_calls) simp
  moreover have "extends (snd (do_mkdir H (take i dir) ?m w))
      (do_chmod H (take i dir) ?m (snd (do_mkdir H (take i dir) ?m w))) (\<lambda>c. under_dir (call_path c) up)"
    using u by (intro lx_calls) simp
  ultimately show ?thesis
    using False extends_trans [OF m] by (auto simp: mirror_step_def st Let_def split_def)
qed

lemma mirror_parents_calls [lx_calls]:
  "extends (fst st) (fst (mirror_parents_from_lower H up lo st)) (\<lambda>c. under_dir (call_path c) up)"
proof (cases "str_rfind slash up")
  case (Some k)
  note k = str_rfind_SomeD [OF Some]
  have "extends (fst st) (fst (fold (mirror_step H up (take k up) lo_dir) ks st)) (\<lambda>c. under_dir (call_path c) up)"
    if "set ks \<subseteq> {1..length (take k up)}" for lo_dir ks
    using that
  proof (induction ks arbitrary: st)
    case (Cons i ks)
    have e: "extends (fst st) (fst (mirror_step H up (take k up) lo_dir i st)) (\<lambda>c. under_dir (call_path c) up)"
      using k Cons.prems by (intro mirror_step_calls) auto
    have "extends (fst (mirror_step H up (take k up) lo_dir i st)) (fst (fold (mirror_step H up (take k up) lo_dir) ks
        (mirror_step H up (take k up) lo_dir i st))) (\<lambda>c. under_dir (call_path c) up)"
      using Cons by simp
    then show ?case using extends_trans [OF e] by simp
  qed simp
  note E = this [of "[1..<Suc (length (take k up))]"]
  have "set [1..<Suc (length (take k up))] \<subseteq> {1..length (take k up)}" by auto
  note E = E [OF this]
  show ?thesis
    unfolding mirror_parents_from_lower_def Some option.case Let_def using E by (cases "k = 0") simp_all
qed (simp add: mirror_parents_from_lower_def)

lemma write_all_calls [lx_calls]: "extends w (write_all H p buf w) (\<lambda>c. call_path c = p)"
proof (induction H p buf w rule: write_all.induct)
  case (1 H p buf w)
  show ?case
  proof (cases "buf = []")
    case False
    obtain n w1 where d: "do_write H p buf w = (n, w1)" by force
    have e: "extends w w1 (\<lambda>c. call_path c = p)"
      using do_write_calls [of "\<lambda>c. call_path c = p" p w H buf] by (simp add: d)
    then show ?thesis
      using 1 [OF False d [symmetric] refl] False extends_trans [OF e]
      by (subst write_all.simps) (auto simp: d)
  qed (simp add: write_all.simps)
qed

lemma copy_blocks_calls [lx_calls]: "extends w (copy_blocks H p bs w) (\<lambda>c. call_path c = p)"
proof (induction bs arbitrary: w)
  case (Cons b bs)
  then show ?case using extends_trans [OF write_all_calls [of w H p b] Cons] by simp
qed simp

lemma copy_up_calls [lx_calls]:
  "extends (fst st) (fst (copy_up H up lo st)) (\<lambda>c. under_dir (call_path c) up)"
proof -
  let ?P = "\<lambda>c. under_dir (call_path c) up"
  obtain w wid0 where m: "mirror_parents_from_lower H up lo st = (w, wid0)" by force
  have e: "extends (fst st) w ?P" using mirror_parents_calls [of st H up lo] by (simp add: m)
  have mk: "extends w (snd (do_mkdir H up mode w)) ?P" for mode by (intro lx_calls) simp
  have cr: "extends w (snd (do_create H up mode w)) ?P" for mode by (intro lx_calls) simp
  have ch: "extends v (do_chmod H up mode v) ?P" for mode v by (intro lx_calls) simp
  have cp: "extends v (copy_blocks H up bs v) ?P" for bs v
    by (rule extends_mono [OF copy_blocks_calls]) simp
  show ?thesis
    unfolding copy_up_def m Let_def split_def
    by (auto split: sum.splits intro: e extends_trans [OF e] mk cr ch cp
        extends_trans [OF mk] extends_trans [OF cr] extends_trans [OF cp])
qed

section \<open>What copying up writes\<close>

text \<open>The bytes the host accepted for a path, in order.\<close>

definition written :: "string \<Rightarrow> host_call list \<Rightarrow> u8 list" where
  "written p cs = concat (map (\<lambda>c. case c of Write q b \<Rightarrow> if q = p then b else [] | _ \<Rightarrow> []) cs)"

lemma written_append [simp]: "written p (cs @ ds) = written p cs @ written p ds"
  by (simp add: written_def)

text \<open>A host on which a write of at least one byte accepts at least one and at most all.\<close>

definition write_progress :: "('h, 'd) host_ops \<Rightarrow> bool" where
  "write_progress H \<longleftrightarrow>
    (\<forall>p b h. b \<noteq> [] \<longrightarrow> 0 < fst (h_write H p b h) \<and> fst (h_write H p b h) \<le> int (length b))"

lemma write_all_written:
  assumes "write_progress H"
  shows "\<exists>cs. w_calls (write_all H p buf w) = w_calls w @ cs \<and> written p cs = buf"
proof (induction buf arbitrary: w rule: length_induct)
  case (1 buf)
  show ?case
  proof (cases "buf = []")
    case True
    then show ?thesis by (simp add: write_all.simps written_def)
  next
    case False
    obtain n h where nh: "h_write H p buf (w_host w) = (n, h)" by force
    have n: "0 < n" "n \<le> int (length buf)" using assms False nh unfolding write_progress_def by (metis fst_conv)+
    define w1 where "w1 = issue (Write p (take (nat n) buf)) h w"
    have "length (drop (nat n) buf) < length buf" using n False by simp
    then obtain cs where cs: "w_calls (write_all H p (drop (nat n) buf) w1) = w_calls w1 @ cs"
      "written p cs = drop (nat n) buf" using 1 by blast
    have "write_all H p buf w = write_all H p (drop (nat n) buf) w1"
      using False n by (subst write_all.simps) (simp add: do_write_def nh w1_def)
    then show ?thesis
      using cs by (intro exI [of _ "Write p (take (nat n) buf) # cs"]) (simp add: w1_def written_def)
  qed
qed

lemma copy_blocks_written:
  assumes "write_progress H" "[] \<notin> set bs"
  shows "\<exists>cs. w_calls (copy_blocks H p bs w) = w_calls w @ cs \<and> written p cs = concat bs"
  using assms(2)
proof (induction bs arbitrary: w)
  case (Cons b bs)
  obtain cs where cs: "w_calls (write_all H p b w) = w_calls w @ cs" "written p cs = b"
    using write_all_written [OF assms(1)] by blast
  obtain ds where "w_calls (copy_blocks H p bs (write_all H p b w)) = w_calls (write_all H p b w) @ ds"
    "written p ds = concat bs" using Cons by auto
  moreover have "b \<noteq> []" using Cons.prems by auto
  ultimately show ?case using cs by (intro exI [of _ "cs @ ds"]) simp
qed (simp add: written_def)

section \<open>Listings\<close>

text \<open>What one directory contributes: its entries without \<open>.\<close> and \<open>..\<close>, the first of each
  name.\<close>

definition dir_map :: "('h, 'd) host_ops \<Rightarrow> 'h \<Rightarrow> string \<Rightarrow> string \<rightharpoonup> dirent_info" where
  "dir_map H h dir =
    (case read_dir H h dir of
       Inl _ \<Rightarrow> Map.empty
     | Inr es \<Rightarrow> map_of (map (\<lambda>e. (hd_name e, dirent_class H h dir e))
                          (filter (\<lambda>e. hd_name e \<noteq> ''.'' \<and> hd_name e \<noteq> ''..'') es)))"

lemma merge_fold:
  "map_of (fold (merge_step H h dir) es seen) =
     map_of (map (\<lambda>e. (hd_name e, dirent_class H h dir e))
       (filter (\<lambda>e. hd_name e \<noteq> ''.'' \<and> hd_name e \<noteq> ''..'') es)) ++ map_of seen"
proof (induction es arbitrary: seen)
  case (Cons e es)
  define P :: "hdirent \<Rightarrow> bool" where "P = (\<lambda>e. hd_name e \<noteq> ''.'' \<and> hd_name e \<noteq> ''..'')"
  define f where "f es = map_of (map (\<lambda>e. (hd_name e, dirent_class H h dir e)) (filter P es))" for es
  have IH: "map_of (fold (merge_step H h dir) es s) = f es ++ map_of s" for s
    using Cons by (simp add: f_def P_def)
  have step: "merge_step H h dir e seen =
      (if P e \<and> map_of seen (hd_name e) = None then seen @ [(hd_name e, dirent_class H h dir e)] else seen)"
    by (simp add: merge_step_def P_def)
  have "f (e # es) ++ map_of seen = f es ++ map_of (merge_step H h dir e seen)"
    unfolding step by (auto simp: f_def map_add_def fun_eq_iff split: option.splits)
  then show ?case using IH by (simp add: f_def P_def)
qed simp

lemma merge_distinct: "distinct (map fst seen) \<Longrightarrow> distinct (map fst (fold (merge_step H h dir) es seen))"
proof (induction es arbitrary: seen)
  case (Cons e es)
  have "distinct (map fst (merge_step H h dir e seen))"
    using Cons.prems by (auto simp: merge_step_def map_of_eq_None_iff)
  then show ?case using Cons.IH by simp
qed simp

lemma merge_dir_map:
  "map_of (snd (merge_dir H h dir seen)) = dir_map H h dir ++ map_of seen"
  "distinct (map fst seen) \<Longrightarrow> distinct (map fst (snd (merge_dir H h dir seen)))"
  "fst (merge_dir H h dir seen) = isOK (read_dir H h dir)"
  by (simp_all add: merge_dir_def dir_map_def merge_fold merge_distinct isOK_def split: sum.splits)

text \<open>A name is dropped from the merged view when it is one of the journals, or whited out
  and not created again in the upper layer.\<close>

definition name_hidden :: "('h, 'd) host_ops \<Rightarrow> 'h \<Rightarrow> whiteouts \<Rightarrow> string \<Rightarrow> string \<Rightarrow> string \<Rightarrow> bool" where
  "name_hidden H h wo ap up n \<longleftrightarrow>
    n \<in> set hidden_names \<or> is_whiteout wo (child_base ap @ n) \<and> \<not> h_exists H h (up @ ''/'' @ n)"

definition listing_map :: "virtual_dirent list \<Rightarrow> string \<rightharpoonup> dirent_info" where
  "listing_map vs = map_of (map (\<lambda>v. (vd_name v, \<lparr>di_type = vd_type v, di_ino = vd_ino v\<rparr>)) vs)"

lemma info_eta: "\<lparr>di_type = di_type r, di_ino = di_ino r\<rparr> = (r :: dirent_info)"
  by (cases r) simp

lemma overlay_listing:
  assumes m: "deepest ms ap = Some i" "m = ms ! i" "mt_producer m = None" "mt_upper m \<noteq> []"
    and up: "up = join_host (mt_upper m) (mount_rel m ap)"
    and lo: "lo = join_host (mt_base m) (mount_rel m ap)"
    and some: "isOK (read_dir H h up) \<or> isOK (read_dir H h lo)"
  shows "\<exists>vs. overlay_dir_union H h wo ms ap =
           \<lparr>vd_name = ''.'', vd_type = Ddir, vd_ino = 0\<rparr> # \<lparr>vd_name = ''..'', vd_type = Ddir, vd_ino = 0\<rparr> # vs
         \<and> distinct (map vd_name vs)
         \<and> (\<forall>n. listing_map vs n =
              (if name_hidden H h wo ap up n then None else (dir_map H h lo ++ dir_map H h up) n))"
proof -
  define s1 s2 where "s1 = snd (merge_dir H h up [])" and "s2 = snd (merge_dir H h lo s1)"
  define s4 where "s4 = filter (\<lambda>(n, _). \<not> name_hidden H h wo ap up n) s2"
  let ?v = "\<lambda>(n, i). \<lparr>vd_name = n, vd_type = di_type i, vd_ino = di_ino i\<rparr>"
  have s2: "map_of s2 = dir_map H h lo ++ dir_map H h up" "distinct (map fst s2)"
    by (simp_all add: s1_def s2_def merge_dir_map)
  have ne: "wo_set wo = [] \<Longrightarrow> \<not> is_whiteout wo q" for q by (simp add: is_whiteout_def)
  have ff: "filter (\<lambda>(n, _). \<not> (is_whiteout wo (child_base ap @ n) \<and> \<not> h_exists H h (up @ ''/'' @ n)))
      (filter (\<lambda>(n, _). n \<notin> set hidden_names) s2) = s4"
    "wo_set wo = [] \<Longrightarrow> filter (\<lambda>(n, _). n \<notin> set hidden_names) s2 = s4"
    by (auto simp: s4_def name_hidden_def ne intro!: filter_cong)
  have "overlay_dir_union H h wo ms ap =
           \<lparr>vd_name = ''.'', vd_type = Ddir, vd_ino = 0\<rparr> # \<lparr>vd_name = ''..'', vd_type = Ddir, vd_ino = 0\<rparr>
           # map ?v s4"
    using some ff unfolding overlay_dir_union_def m(1) option.case Let_def m(2) [symmetric] up [symmetric] lo [symmetric]
    by (auto simp: m(3,4) split_def merge_dir_map(3) s1_def [symmetric] s2_def [symmetric])
  moreover have "map vd_name (map ?v s4) = map fst s4" by (simp add: split_def)
  moreover have "distinct (map fst s4)"
    using s2(2) by (simp add: s4_def distinct_map_filter split_def)
  moreover have "map (\<lambda>v. (vd_name v, \<lparr>di_type = vd_type v, di_ino = vd_ino v\<rparr>)) (map ?v s4) = s4"
    by (simp add: split_def o_def info_eta)
  moreover have "map_of s4 n = (if name_hidden H h wo ap up n then None else (dir_map H h lo ++ dir_map H h up) n)" for n
    using map_of_filter_key [of "\<lambda>n. \<not> name_hidden H h wo ap up n" s2 n] s2(1)
    by (simp add: s4_def)
  ultimately show ?thesis unfolding listing_map_def by (metis (no_types, lifting))
qed

section \<open>A small host\<close>

text \<open>A host file system for the examples: a flat list of paths and nodes, with symbolic
  links followed in the last component only.\<close>

datatype hnode = Hdir u32 "string list" | Hfile u32 "u8 list" | Hlink string

type_synonym demo_fs = "(string \<times> hnode) list"

fun node_stat :: "hnode \<Rightarrow> hstat" where
  "node_stat (Hdir m _) = \<lparr>hst_mode = 0x4000 OR m, hst_ino = 1, hst_dev = 1, hst_uid = 0, hst_nlink = 1\<rparr>"
| "node_stat (Hfile m _) = \<lparr>hst_mode = 0x8000 OR m, hst_ino = 1, hst_dev = 1, hst_uid = 0, hst_nlink = 1\<rparr>"
| "node_stat (Hlink _) = \<lparr>hst_mode = 0xA1FF, hst_ino = 1, hst_dev = 1, hst_uid = 0, hst_nlink = 1\<rparr>"

definition demo_follow :: "demo_fs \<Rightarrow> string \<Rightarrow> hnode option" where
  "demo_follow fs p =
    (case map_of fs p of
       Some (Hlink t) \<Rightarrow> map_of fs t
     | r \<Rightarrow> r)"

definition opt_result :: "'a option \<Rightarrow> 'a result" where
  "opt_result r = (case r of None \<Rightarrow> Inl ENOENT | Some v \<Rightarrow> Inr v)"

fun demo_entries :: "hnode option \<Rightarrow> hdirent list result" where
  "demo_entries (Some (Hdir _ ns)) = Inr (map (\<lambda>n. \<lparr>hd_name = n, hd_type = 8, hd_ino = 7\<rparr>) ns)"
| "demo_entries _ = Inl ENOENT"

definition demo_host :: "(demo_fs, string) host_ops" where
  "demo_host =
    \<lparr>h_lstat = (\<lambda>fs p. opt_result (map_option node_stat (map_of fs p))),
     h_stat = (\<lambda>fs p. opt_result (map_option node_stat (demo_follow fs p))),
     h_readlink = (\<lambda>fs p. case map_of fs p of
         Some (Hlink t) \<Rightarrow> Inr t | Some _ \<Rightarrow> Inl EINVAL | None \<Rightarrow> Inl ENOENT),
     h_root = (\<lambda>fs. Inr ''/''), h_openat = (\<lambda>fs d n. Inl ENOENT),
     h_lstatat = (\<lambda>fs d n. Inl ENOENT), h_statat = (\<lambda>fs d n. Inl ENOENT),
     h_readlinkat = (\<lambda>fs d n. Inl ENOENT),
     h_readdir = (\<lambda>fs p. demo_entries (demo_follow fs p)),
     h_readdirat = (\<lambda>fs d n. Inl ENOENT),
     h_read = (\<lambda>fs p. case demo_follow fs p of
         Some (Hfile _ b) \<Rightarrow> Inr (if b = [] then [] else [b]) | _ \<Rightarrow> Inl ENOENT),
     h_mkdir = (\<lambda>p m fs. if map_of fs p = None then (True, (p, Hdir m []) # fs) else (False, fs)),
     h_chmod = (\<lambda>p m fs. fs),
     h_create = (\<lambda>p m fs. (True, AList.update p (Hfile m []) fs)),
     h_write = (\<lambda>p b fs. (int (length b), case map_of fs p of
         Some (Hfile m c) \<Rightarrow> AList.update p (Hfile m (c @ b)) fs | _ \<Rightarrow> fs)),
     h_unlink = (\<lambda>p fs. AList.delete p fs),
     h_rmdir = (\<lambda>p fs. AList.delete p fs)\<rparr>"

definition demo_disk :: demo_fs where
  "demo_disk =
    [(''/up'', Hdir 0x1ED [''new'', ''.linuxity-meta'']), (''/up/new'', Hfile 0x1A4 []),
     (''/up/.linuxity-meta'', Hfile 0x1A4 []),
     (''/lo'', Hdir 0x1ED [''etc'', ''gone'']), (''/lo/gone'', Hfile 0x1A4 []),
     (''/lo/etc'', Hdir 0x16D [''machine-id'']), (''/lo/etc/machine-id'', Hfile 0x124 [1, 2, 3])]"

abbreviation demo_world :: "demo_fs world" where
  "demo_world \<equiv> \<lparr>w_host = demo_disk, w_calls = []\<rparr>"

lemma demo_write_progress: "write_progress demo_host"
  by (simp add: write_progress_def demo_host_def)

text \<open>The repair follows symbolic links: an entry of the package database that is a link to a
  directory elsewhere on the host counts as a partial entry, and the files it leads to are
  unlinked.\<close>

lemma repair_follows_links:
  "let fs = [(''/up/var/lib/pacman/local'', Hdir 0x1ED [''x'']),
             (''/up/var/lib/pacman/local/x'', Hlink ''/home/me''),
             (''/home/me'', Hdir 0x1ED [''thesis''])]
   in map_option w_calls (repair_pacman_db demo_host 5 ''/up'' \<lparr>w_host = fs, w_calls = []\<rparr>)
      = Some [Unlink ''/up/var/lib/pacman/local/x/thesis'', Rmdir ''/up/var/lib/pacman/local/x'']"
  by code_simp

section \<open>Properties\<close>

text \<open>C25: Copy-on-write never changes the lower layer: every changing host call that
  \<open>copy_up\<close> issues, whatever the host answers, names the upper path itself or one of its
  ancestor directories; so nothing below a directory that does not contain the upper path
  is named, the read-only lower layer in particular.\<close>

theorem copy_up_contained:
  "\<exists>cs. w_calls (fst (copy_up H up lo (w, wid))) = w_calls w @ cs
      \<and> list_all (\<lambda>c. under_dir (call_path c) up
            \<and> (\<not> under_dir base up \<longrightarrow> \<not> under_dir base (call_path c))) cs"
proof -
  obtain cs where "w_calls (fst (copy_up H up lo (w, wid))) = w_calls w @ cs"
    and c: "list_all (\<lambda>c. under_dir (call_path c) up) cs"
    using copy_up_calls [of "(w, wid)" H up lo] by (auto simp: extends_def)
  moreover have "list_all (\<lambda>c. under_dir (call_path c) up
      \<and> (\<not> under_dir base up \<longrightarrow> \<not> under_dir base (call_path c))) cs"
    using c under_dir_trans by (fastforce simp: list_all_iff)
  ultimately show ?thesis by blast
qed

theorem copy_up_contained_witness:
  "\<exists>cs. w_calls (fst (copy_up demo_host ''/up/etc/machine-id'' ''/lo/etc/machine-id'' (demo_world, []))) = cs
      \<and> \<not> under_dir ''/lo'' ''/up/etc/machine-id''
      \<and> list_all (\<lambda>c. \<not> under_dir ''/lo'' (call_path c)) cs \<and> length cs = 6"
proof -
  let ?up = "''/up/etc/machine-id''"
  obtain cs where cs: "w_calls (fst (copy_up demo_host ?up ''/lo/etc/machine-id'' (demo_world, []))) = cs"
    and a: "list_all (\<lambda>c. under_dir (call_path c) ?up
            \<and> (\<not> under_dir ''/lo'' ?up \<longrightarrow> \<not> under_dir ''/lo'' (call_path c))) cs"
    using copy_up_contained [of demo_host ?up "''/lo/etc/machine-id''" demo_world "[]" "''/lo''"] by auto
  have n: "\<not> under_dir ''/lo'' ?up" by code_simp
  have "length (w_calls (fst (copy_up demo_host ?up ''/lo/etc/machine-id'' (demo_world, [])))) = 6" by code_simp
  then show ?thesis using cs a n by (auto simp: list_all_iff)
qed

text \<open>C26: A regular file is copied up exactly: on a host whose writes make progress, the
  file is created with the lower file's mode widened by owner read and write, the bytes
  accepted for it are the lower file's bytes in order, whatever the sizes of the partial
  writes, its mode is set again past the umask, and the lower mode is reported for the
  metadata store exactly when it was widened.\<close>

theorem copy_up_regular:
  assumes "write_progress H"
    and "mirror_parents_from_lower H up lo (w, wid) = (w1, wid1)"
    and "\<not> h_exists H (w_host w1) up"
    and "h_stat H (w_host w1) lo = Inr st" and "\<not> s_isdir (hst_mode st)"
    and "h_read H (w_host w1) lo = Inr bs" and "[] \<notin> set bs"
    and "mode = hst_mode st AND 0xFFF"
    and "fst (h_create H up (mode OR 0x180) (w_host w1))"
  shows "\<exists>cs. w_calls (fst (copy_up H up lo (w, wid))) =
            w_calls w1 @ Create up (mode OR 0x180) # cs @ [Chmod up (mode OR 0x180)]
      \<and> written up cs = concat bs
      \<and> snd (copy_up H up lo (w, wid)) = wid1 @ (if mode OR 0x180 = mode then [] else [(0, mode)])"
proof -
  obtain w2 where c: "do_create H up (mode OR 0x180) w1 = (True, w2)"
    "w_calls w2 = w_calls w1 @ [Create up (mode OR 0x180)]"
    using assms(9) by (cases "h_create H up (mode OR 0x180) (w_host w1)") (auto simp: do_create_def)
  obtain cs where cs: "w_calls (copy_blocks H up bs w2) = w_calls w2 @ cs" "written up cs = concat bs"
    using copy_blocks_written [OF assms(1,7)] by blast
  have d: "\<not> is_dir H (w_host w1) lo" using assms(4,5) by (simp add: is_dir_def)
  have "copy_up H up lo (w, wid) =
      (do_chmod H up (mode OR 0x180) (copy_blocks H up bs w2),
       wid1 @ (if mode OR 0x180 = mode then [] else [(0, mode)]))"
    using assms(3,4,6,8) d c(1) by (simp add: copy_up_def assms(2) Let_def isOK_def)
  then show ?thesis using cs c(2) by (simp add: do_chmod_def)
qed

theorem copy_up_regular_witness:
  "written ''/up/etc/machine-id''
     (w_calls (fst (copy_up demo_host ''/up/etc/machine-id'' ''/lo/etc/machine-id'' (demo_world, [])))) = [1, 2, 3]
   \<and> snd (copy_up demo_host ''/up/etc/machine-id'' ''/lo/etc/machine-id'' (demo_world, [])) = [(11, 0x16D), (0, 0x124)]"
proof -
  let ?up = "''/up/etc/machine-id''" and ?lo = "''/lo/etc/machine-id''"
  define w1 where "w1 = fst (mirror_parents_from_lower demo_host ?up ?lo (demo_world, []))"
  have m: "mirror_parents_from_lower demo_host ?up ?lo (demo_world, []) = (w1, [(11, 0x16D)])"
    unfolding w1_def by code_simp
  have h: "\<not> h_exists demo_host (w_host w1) ?up"
    "h_stat demo_host (w_host w1) ?lo = Inr \<lparr>hst_mode = 0x8124, hst_ino = 1, hst_dev = 1, hst_uid = 0, hst_nlink = 1\<rparr>"
    "\<not> s_isdir (hst_mode \<lparr>hst_mode = 0x8124, hst_ino = 1, hst_dev = 1, hst_uid = 0, hst_nlink = 1\<rparr>)"
    "h_read demo_host (w_host w1) ?lo = Inr [[1, 2, 3]]" "[] \<notin> set [[1, 2, 3 :: u8]]"
    "0x124 = hst_mode \<lparr>hst_mode = 0x8124, hst_ino = 1, hst_dev = 1, hst_uid = 0, hst_nlink = 1\<rparr> AND 0xFFF"
    "fst (h_create demo_host ?up (0x124 OR 0x180) (w_host w1))"
    "written ?up (w_calls w1) = []"
    unfolding w1_def by code_simp+
  show ?thesis
    using copy_up_regular [OF demo_write_progress m h(1-7)] h(8) by (auto simp: written_def)
qed

text \<open>C27: The merged listing of an overlay directory that either layer has: \<open>.\<close> and \<open>..\<close>
  first, then each visible name once; a name is visible when a layer has it and it is
  neither one of the namespace's own journals nor whited out without having been created
  again in the upper layer; and its type and inode are the upper layer's where that has
  the name, the lower layer's otherwise.\<close>

theorem overlay_dir_union_correct:
  assumes "deepest ms ap = Some i" "mt_producer (ms ! i) = None" "mt_upper (ms ! i) \<noteq> []"
    and "up = join_host (mt_upper (ms ! i)) (mount_rel (ms ! i) ap)"
    and "lo = join_host (mt_base (ms ! i)) (mount_rel (ms ! i) ap)"
    and "isOK (read_dir H h up) \<or> isOK (read_dir H h lo)"
  shows "\<exists>vs. overlay_dir_union H h wo ms ap =
           \<lparr>vd_name = ''.'', vd_type = Ddir, vd_ino = 0\<rparr> # \<lparr>vd_name = ''..'', vd_type = Ddir, vd_ino = 0\<rparr> # vs
         \<and> distinct (map vd_name vs)
         \<and> (\<forall>n. listing_map vs n =
              (if name_hidden H h wo ap up n then None
               else case dir_map H h up n of Some i \<Rightarrow> Some i | None \<Rightarrow> dir_map H h lo n))"
  using overlay_listing [OF assms(1) refl assms(2-6), of wo] by (simp only: map_add_def)

theorem overlay_dir_union_correct_witness:
  "map vd_name (overlay_dir_union demo_host demo_disk (add_whiteout ''/gone'' (wo_fresh ''/up''))
      [mount_host_entry ''/'' ''/'' ''/lo'' ''/up''] ''/'') = [''.'', ''..'', ''new'', ''etc'']"
proof -
  let ?wo = "add_whiteout ''/gone'' (wo_fresh ''/up'')" and ?ms = "[mount_host_entry ''/'' ''/'' ''/lo'' ''/up'']"
  have h: "deepest ?ms ''/'' = Some 0" "mt_producer (?ms ! 0) = None" "mt_upper (?ms ! 0) \<noteq> []"
    "''/up'' = join_host (mt_upper (?ms ! 0)) (mount_rel (?ms ! 0) ''/'')"
    "''/lo'' = join_host (mt_base (?ms ! 0)) (mount_rel (?ms ! 0) ''/'')"
    "isOK (read_dir demo_host demo_disk ''/up'') \<or> isOK (read_dir demo_host demo_disk ''/lo'')"
    by code_simp+
  have e: "map vd_name (overlay_dir_union demo_host demo_disk ?wo ?ms ''/'') = [''.'', ''..'', ''new'', ''etc'']"
    by code_simp
  then show ?thesis using overlay_dir_union_correct [OF h, of ?wo] by blast
qed

end
