(* ===== verification/Lx_Scan.thy ===== *)
theory Lx_Scan
  imports Lx_Prelude
begin

text \<open>
  The part of \<open>printf\<close> and \<open>sscanf\<close> that the text formats of the sources use: unsigned
  numbers in octal and decimal.  \<open>show_num\<close> prints, \<open>scan_num\<close> is one \<open>%o\<close> or \<open>%u\<close>
  conversion, with leading white space, an optional sign, and the truncation of an
  out-of-range value to 32 bits.
\<close>

definition is_space :: "char \<Rightarrow> bool" where
  "is_space c \<longleftrightarrow> c \<in> {CHR '' '', CHR 0x09, CHR 0x0A, CHR 0x0B, CHR 0x0C, CHR 0x0D}"

abbreviation skip_space :: "string \<Rightarrow> string" where
  "skip_space s \<equiv> dropWhile is_space s"

definition digit_val :: "char \<Rightarrow> nat" where
  "digit_val c = of_char c - 48"

definition is_digit :: "nat \<Rightarrow> char \<Rightarrow> bool" where
  "is_digit base c \<longleftrightarrow> 48 \<le> (of_char c :: nat) \<and> of_char c < (48 + base :: nat)"

definition digit_char :: "nat \<Rightarrow> char" where
  "digit_char d = char_of (48 + d)"

function show_num :: "nat \<Rightarrow> nat \<Rightarrow> string" where
  "show_num base n =
    (if base < 2 \<or> n < base then [digit_char n]
     else show_num base (n div base) @ [digit_char (n mod base)])"
  by pat_completeness auto
termination
  by (relation "measure snd") (auto intro!: div_less_dividend)

declare show_num.simps [simp del]

definition read_digits :: "nat \<Rightarrow> string \<Rightarrow> nat" where
  "read_digits base ds = foldl (\<lambda>v c. v * base + digit_val c) 0 ds"

definition scan_num :: "nat \<Rightarrow> string \<Rightarrow> (u32 \<times> string) option" where
  "scan_num base s0 =
    (let s1 = skip_space s0;
         neg = (s1 \<noteq> [] \<and> hd s1 = CHR ''-'');
         s2 = (if s1 \<noteq> [] \<and> (hd s1 = CHR ''-'' \<or> hd s1 = CHR ''+'') then tl s1 else s1);
         ds = takeWhile (is_digit base) s2;
         v = of_nat (min (read_digits base ds) (2 ^ 64 - 1))
     in if ds = [] then None
        else Some (if neg then - v else v, dropWhile (is_digit base) s2))"

lemma of_char_digit_char: "d < 200 \<Longrightarrow> (of_char (digit_char d) :: nat) = 48 + d"
  by (simp add: digit_char_def)

lemma is_digit_char: "base \<le> 10 \<Longrightarrow> d < base \<Longrightarrow> is_digit base (digit_char d)"
  by (simp add: is_digit_def of_char_digit_char)

lemma digit_val_char [simp]: "d < 200 \<Longrightarrow> digit_val (digit_char d) = d"
  by (simp add: digit_val_def of_char_digit_char)

lemma show_num_digits:
  "2 \<le> base \<Longrightarrow> base \<le> 10 \<Longrightarrow> \<forall>c\<in>set (show_num base n). is_digit base c"
proof (induction base n rule: show_num.induct)
  case (1 base n)
  show ?case
    using 1 by (subst show_num.simps) (auto simp: is_digit_char)
qed

lemma show_num_nonempty [simp]: "show_num base n \<noteq> []"
  by (subst show_num.simps) simp

lemma read_show: "2 \<le> base \<Longrightarrow> base \<le> 10 \<Longrightarrow> read_digits base (show_num base n) = n"
proof (induction base n rule: show_num.induct)
  case (1 base n)
  show ?case
  proof (cases "n < base")
    case True
    then show ?thesis using 1 by (subst show_num.simps) (simp add: read_digits_def)
  next
    case False
    have "n mod base < base" using 1 by simp
    then have "n mod base < 200" using 1 by linarith
    then show ?thesis
      using 1 False by (subst show_num.simps) (simp add: read_digits_def)
  qed
qed

lemma digit_not_space: "is_digit base c \<Longrightarrow> \<not> is_space c"
  by (auto simp: is_digit_def is_space_def)

lemma digit_not_sign: "is_digit base c \<Longrightarrow> c \<noteq> CHR ''-'' \<and> c \<noteq> CHR ''+'' \<and> c \<noteq> newline"
  by (auto simp: is_digit_def)

lemma show_num_hd: "2 \<le> base \<Longrightarrow> base \<le> 10 \<Longrightarrow> is_digit base (hd (show_num base n))"
  using show_num_digits show_num_nonempty hd_in_set by blast

lemma skip_space_show [simp]:
  "2 \<le> base \<Longrightarrow> base \<le> 10 \<Longrightarrow> skip_space (show_num base n @ r) = show_num base n @ r"
  using show_num_hd [of base n] digit_not_space by (cases "show_num base n") auto

text \<open>Printing and scanning a 32-bit number, followed by something that is not a digit.\<close>

lemma scan_show:
  assumes base: "2 \<le> base" "base \<le> 10" and r: "r = [] \<or> \<not> is_digit base (hd r)"
  shows "scan_num base (show_num base (unat (w :: u32)) @ r) = Some (w, r)"
proof -
  let ?s = "show_num base (unat w)"
  have dig: "\<forall>c\<in>set ?s. is_digit base c" by (rule show_num_digits [OF base])
  have tw: "takeWhile (is_digit base) (?s @ r) = ?s" "dropWhile (is_digit base) (?s @ r) = r"
    using dig r by (cases r; auto simp: takeWhile_append dropWhile_append)+
  have hd: "hd (?s @ r) \<noteq> CHR ''-''" "hd (?s @ r) \<noteq> CHR ''+''"
    using digit_not_sign [OF show_num_hd [OF base, of "unat w"]] by (simp_all add: hd_append)
  have "unat w < 2 ^ 32" using unsigned_less [of w, where ?'a = nat] by simp
  then have "min (read_digits base ?s) (2 ^ 64 - 1) = unat w" by (simp add: read_show [OF base])
  then show ?thesis using hd tw by (simp add: scan_num_def Let_def base)
qed

lemma scan_space: "is_space c \<Longrightarrow> scan_num base (c # s) = scan_num base s"
  by (simp add: scan_num_def)

text \<open>A number of at most 32 bits has at most ten decimal digits.\<close>

lemma show_num_length: "2 \<le> base \<Longrightarrow> n < base ^ Suc k \<Longrightarrow> length (show_num base n) \<le> Suc k"
proof (induction k arbitrary: n)
  case 0
  then show ?case by (subst show_num.simps) simp
next
  case (Suc k)
  show ?case
  proof (cases "n < base")
    case True
    then show ?thesis by (subst show_num.simps) simp
  next
    case False
    have "n div base < base ^ Suc k" using Suc(2,3) by (simp add: less_mult_imp_div_less mult.commute)
    then have "length (show_num base (n div base)) \<le> Suc k" using Suc by simp
    then show ?thesis using False Suc(2) by (subst show_num.simps) simp
  qed
qed

lemma show_u32_length: "length (show_num 10 (unat (w :: u32))) \<le> 10" "length (show_num 8 (unat w)) \<le> 11"
proof -
  have "unat w < 2 ^ 32" using unsigned_less [of w, where ?'a = nat] by simp
  then show "length (show_num 10 (unat w)) \<le> 10" "length (show_num 8 (unat w)) \<le> 11"
    using show_num_length [of 10 "unat w" 9] show_num_length [of 8 "unat w" 10] by simp_all
qed

end
