(* ===== verification/Lx_MetaStore.thy ===== *)
theory Lx_MetaStore
  imports Lx_Journal Lx_Scan
begin

unbundle bit_operations_syntax

text \<open>
  The metadata overlay \<open>MetaStore\<close> of \<open>kernel/meta_store.hpp\<close>: ownership, mode and
  FIFO bits the guest set and the host could not keep, with the text journal they
  are rebuilt from.  The host's \<open>lstat\<close> is a parameter where compaction calls it;
  opening the journal for writing is taken to succeed.
\<close>

section \<open>The code\<close>

record meta_record =
  m_mode :: u32
  m_uid :: u32
  m_gid :: u32
  m_nlink :: u32
  m_have :: u8

definition meta_default :: meta_record where
  "meta_default = \<lparr>m_mode = 0, m_uid = 0, m_gid = 0, m_nlink = 0, m_have = 0\<rparr>"

abbreviation kMode :: u8 where "kMode \<equiv> 1"
abbreviation kUid :: u8 where "kUid \<equiv> 2"
abbreviation kGid :: u8 where "kGid \<equiv> 4"
abbreviation kNlink :: u8 where "kNlink \<equiv> 8"
abbreviation kFifo :: u8 where "kFifo \<equiv> 16"

abbreviation kPermMask :: u32 where "kPermMask \<equiv> 0xFFF"
abbreviation kFileTypeMask :: u32 where "kFileTypeMask \<equiv> 0xF000"
abbreviation no_id :: u32 where "no_id \<equiv> 0xFFFFFFFF"

definition m_has :: "meta_record \<Rightarrow> u8 \<Rightarrow> bool" where
  "m_has r b \<longleftrightarrow> m_have r AND b \<noteq> 0"

record meta_store =
  ms_upper :: string
  ms_bases :: "string list"
  ms_journal :: string
  ms_table :: "(string \<times> meta_record) list"
  ms_file :: "string option"

definition is_redundant :: "meta_record \<Rightarrow> bool" where
  "is_redundant r \<longleftrightarrow>
    (\<not> m_has r kUid \<or> m_uid r = 0) \<and> (\<not> m_has r kGid \<or> m_gid r = 0)
    \<and> \<not> m_has r kMode \<and> \<not> m_has r kNlink \<and> \<not> m_has r kFifo"

definition meta_line :: "string \<Rightarrow> meta_record \<Rightarrow> string" where
  "meta_line path r =
    show_num 8 (unat (m_mode r)) @ '' '' @ show_num 10 (unat (m_uid r)) @ '' '' @
    show_num 10 (unat (m_gid r)) @ '' '' @ show_num 10 (unat (m_have r)) @ '' '' @
    (if m_has r kNlink then show_num 10 (unat (m_nlink r)) @ '' '' else []) @ path"

definition tombstone_line :: "string \<Rightarrow> string" where
  "tombstone_line path = ''0 0 0 255 '' @ path"

definition ms_write :: "string \<Rightarrow> meta_store \<Rightarrow> meta_store" where
  "ms_write line s =
    (if ms_journal s = [] then s
     else s\<lparr>ms_file := Some ((case ms_file s of None \<Rightarrow> [] | Some f \<Rightarrow> f) @ line @ [newline])\<rparr>)"

definition ms_append :: "string \<Rightarrow> meta_record \<Rightarrow> meta_store \<Rightarrow> meta_store" where
  "ms_append path r s = ms_write (meta_line path r) s"

definition append_tombstone :: "string \<Rightarrow> meta_store \<Rightarrow> meta_store" where
  "append_tombstone path s = ms_write (tombstone_line path) s"

definition ms_put :: "string \<Rightarrow> meta_record \<Rightarrow> meta_store \<Rightarrow> meta_store" where
  "ms_put path r s = ms_append path r (s\<lparr>ms_table := AList.update path r (ms_table s)\<rparr>)"

definition ms_erase :: "string \<Rightarrow> meta_store \<Rightarrow> meta_store" where
  "ms_erase path s = append_tombstone path (s\<lparr>ms_table := AList.delete path (ms_table s)\<rparr>)"

text \<open>\<open>table_[p]\<close>: the record, default-constructed if there is none.\<close>

definition ms_at :: "meta_store \<Rightarrow> string \<Rightarrow> meta_record" where
  "ms_at s path = (case map_of (ms_table s) path of None \<Rightarrow> meta_default | Some r \<Rightarrow> r)"

definition set_mode :: "string \<Rightarrow> u32 \<Rightarrow> u32 \<Rightarrow> meta_store \<Rightarrow> meta_store" where
  "set_mode path mode host_mode s =
    (if host_mode \<noteq> no_id \<and> host_mode AND kPermMask = mode AND kPermMask then
       (case map_of (ms_table s) path of
          None \<Rightarrow> s
        | Some r0 \<Rightarrow>
            let r = r0\<lparr>m_have := m_have r0 AND NOT kMode\<rparr>
            in if is_redundant r then ms_erase path s else ms_put path r s)
     else let r = (ms_at s path)\<lparr>m_mode := mode AND kPermMask, m_have := m_have (ms_at s path) OR kMode\<rparr>
          in ms_put path r s)"

definition set_owner :: "string \<Rightarrow> u32 \<Rightarrow> u32 \<Rightarrow> meta_store \<Rightarrow> meta_store" where
  "set_owner path uid gid s =
    (if map_of (ms_table s) path = None \<and> (uid = 0 \<or> uid = no_id) \<and> (gid = 0 \<or> gid = no_id) then s
     else let r0 = ms_at s path;
              r1 = (if uid \<noteq> no_id then r0\<lparr>m_uid := uid, m_have := m_have r0 OR kUid\<rparr> else r0);
              r2 = (if gid \<noteq> no_id then r1\<lparr>m_gid := gid, m_have := m_have r1 OR kGid\<rparr> else r1)
          in if is_redundant r2 then ms_erase path s else ms_put path r2 s)"

definition set_fifo :: "string \<Rightarrow> meta_store \<Rightarrow> meta_store" where
  "set_fifo path s =
    (let r = (ms_at s path)\<lparr>m_have := m_have (ms_at s path) OR kFifo\<rparr> in ms_put path r s)"

definition is_fifo :: "meta_store \<Rightarrow> string \<Rightarrow> bool" where
  "is_fifo s path = (case map_of (ms_table s) path of None \<Rightarrow> False | Some r \<Rightarrow> m_has r kFifo)"

definition ms_forget :: "string \<Rightarrow> meta_store \<Rightarrow> meta_store" where
  "ms_forget path s = (if map_of (ms_table s) path \<noteq> None then ms_erase path s else s)"

definition ms_rename :: "string \<Rightarrow> string \<Rightarrow> meta_store \<Rightarrow> meta_store" where
  "ms_rename from to s =
    (case map_of (ms_table s) from of
       None \<Rightarrow> ms_forget to s
     | Some rec \<Rightarrow>
         ms_append to rec
           (append_tombstone from
              (s\<lparr>ms_table := AList.update to rec (AList.delete from (ms_table s))\<rparr>)))"

definition ms_lookup :: "meta_store \<Rightarrow> string \<Rightarrow> meta_record option" where
  "ms_lookup s path = map_of (ms_table s) path"

definition effective_mode :: "u32 \<Rightarrow> meta_record \<Rightarrow> u32" where
  "effective_mode host_mode r =
    (let hm = (if m_has r kFifo \<and> host_mode AND kFileTypeMask = 0x8000
               then (host_mode AND NOT kFileTypeMask) OR 0x1000 else host_mode)
     in if \<not> m_has r kMode then hm
        else (hm AND kFileTypeMask) OR (m_mode r AND kPermMask))"

text \<open>One journal line: the four numbers of the first \<open>sscanf\<close>, the optional fifth, the
  path with its line end stripped.\<close>

definition scan4 :: "string \<Rightarrow> ((u32 \<times> u32 \<times> u32 \<times> u32) \<times> string) option" where
  "scan4 s =
    (case scan_num 8 s of None \<Rightarrow> None | Some (mode, s1) \<Rightarrow>
     (case scan_num 10 s1 of None \<Rightarrow> None | Some (uid, s2) \<Rightarrow>
     (case scan_num 10 s2 of None \<Rightarrow> None | Some (gid, s3) \<Rightarrow>
     (case scan_num 10 s3 of None \<Rightarrow> None | Some (have, s4) \<Rightarrow>
        Some ((mode, uid, gid, have), skip_space s4)))))"

definition strip_eol :: "string \<Rightarrow> string" where
  "strip_eol p = rev (dropWhile (\<lambda>c. c = newline \<or> c = CHR 0x0D) (rev p))"

definition ms_replay_line :: "(string \<times> meta_record) list \<Rightarrow> string \<Rightarrow> (string \<times> meta_record) list" where
  "ms_replay_line tb line =
    (case scan4 line of
       None \<Rightarrow> tb
     | Some ((mode, uid, gid, have), rest) \<Rightarrow>
         let (nlink, rest2) =
               (if have \<noteq> 255 \<and> have AND 8 \<noteq> 0
                then (case scan_num 10 rest of
                        Some (n, r) \<Rightarrow> (n, skip_space r) | None \<Rightarrow> (0, rest))
                else (0, rest));
             path = strip_eol rest2
         in if path = [] then tb
            else if have = 255 then AList.delete path tb
            else let r = \<lparr>m_mode = mode, m_uid = uid, m_gid = gid, m_nlink = nlink, m_have = ucast have\<rparr>
                 in if is_redundant r then AList.delete path tb else AList.update path r tb)"

definition ms_replay :: "meta_store \<Rightarrow> nat \<times> meta_store" where
  "ms_replay s =
    (case ms_file s of
       None \<Rightarrow> (0, s)
     | Some body \<Rightarrow> (length (fgets_lines 8191 body),
                     s\<lparr>ms_table := replay_file ms_replay_line 8191 (ms_table s) body\<rparr>))"

definition ms_rewrite :: "meta_store \<Rightarrow> meta_store" where
  "ms_rewrite s = s\<lparr>ms_file := Some (concat (map (\<lambda>(p, r). meta_line p r @ [newline]) (ms_table s)))\<rparr>"

text \<open>Compaction of one record; \<open>lstat\<close> gives the \<open>st_mode\<close> of a host path that exists.\<close>

definition compact_record :: "(string \<Rightarrow> u32 option) \<Rightarrow> string list \<Rightarrow> string \<Rightarrow> meta_record \<Rightarrow> meta_record" where
  "compact_record lstat bases path r =
    (if m_has r kMode then
       (case List.find (\<lambda>b. lstat (b @ path) \<noteq> None) bases of
          None \<Rightarrow> r
        | Some b \<Rightarrow>
            let st = the (lstat (b @ path))
            in if st AND 0xF000 = 0xA000 \<or> st AND kPermMask = m_mode r
               then r\<lparr>m_have := m_have r AND NOT kMode\<rparr> else r)
     else r)"

definition ms_compact :: "(string \<Rightarrow> u32 option) \<Rightarrow> meta_store \<Rightarrow> nat \<times> meta_store" where
  "ms_compact lstat s =
    (let tb = map (\<lambda>(p, r). (p, compact_record lstat (ms_bases s) p r)) (ms_table s);
         live = filter (\<lambda>(p, r). \<not> is_redundant r) tb
     in (length tb - length live, s\<lparr>ms_table := live\<rparr>))"

definition ms_attach ::
  "(string \<Rightarrow> u32 option) \<Rightarrow> string option \<Rightarrow> string \<Rightarrow> bool \<Rightarrow> meta_store \<Rightarrow> meta_store" where
  "ms_attach lstat file upper_dir compact s =
    (let up = (if upper_dir \<noteq> [] \<and> last upper_dir = slash then butlast upper_dir else upper_dir)
     in if up = [] then s\<lparr>ms_upper := up\<rparr>
        else let s1 = s\<lparr>ms_upper := up, ms_journal := up @ ''/.linuxity-meta'', ms_file := file\<rparr>;
                 (lines, s2) = ms_replay s1;
                 (pruned, s3) = (if compact then ms_compact lstat s2 else (0, s2))
             in if compact \<and> (pruned \<noteq> 0 \<or> lines > 1024 \<and> lines > length (ms_table s3) * 4)
                then ms_rewrite s3 else s3)"

section \<open>The journal format\<close>

text \<open>Paths the format can carry: absolute, without a newline, not ending in a carriage
  return, and short enough for the read buffer.\<close>

definition meta_path :: "string \<Rightarrow> bool" where
  "meta_path p \<longleftrightarrow>
    p \<noteq> [] \<and> hd p = slash \<and> newline \<notin> set p \<and> last p \<noteq> CHR 0x0D \<and> length p < 8000"

text \<open>Records the operations build: no unknown bits, no link count without its bit, and
  something to say.\<close>

definition meta_wf :: "meta_record \<Rightarrow> bool" where
  "meta_wf r \<longleftrightarrow>
    m_have r AND 31 = m_have r \<and> (\<not> m_has r kNlink \<longrightarrow> m_nlink r = 0) \<and> \<not> is_redundant r"

datatype meta_change = Put string meta_record | Tomb string

primrec change_line :: "meta_change \<Rightarrow> string" where
  "change_line (Put p r) = meta_line p r"
| "change_line (Tomb p) = tombstone_line p"

primrec change_effect :: "meta_change \<Rightarrow> (string \<times> meta_record) list \<Rightarrow> (string \<times> meta_record) list" where
  "change_effect (Put p r) tb = AList.update p r tb"
| "change_effect (Tomb p) tb = AList.delete p tb"

primrec change_writable :: "meta_change \<Rightarrow> bool" where
  "change_writable (Put p r) \<longleftrightarrow> meta_path p \<and> meta_wf r"
| "change_writable (Tomb p) \<longleftrightarrow> meta_path p"

lemma strip_eol_newline [simp]: "meta_path p \<Longrightarrow> strip_eol (p @ [newline]) = p"
proof -
  assume p: "meta_path p"
  then obtain q c where pc: "p = q @ [c]" by (cases p rule: rev_cases) (auto simp: meta_path_def)
  then show ?thesis using p by (auto simp: strip_eol_def meta_path_def)
qed

lemma skip_space_path: "meta_path p \<Longrightarrow> skip_space (p @ r) = p @ r"
  by (cases p) (auto simp: meta_path_def is_space_def)

lemma is_space_blank [simp]: "is_space (CHR '' '')" "\<not> is_space slash"
  by (simp_all add: is_space_def)

lemma scan_blank [simp]: "scan_num base (CHR '' '' # s) = scan_num base s"
  by (rule scan_space) (simp add: is_space_def)

lemma scan_show_blank:
  "scan_num 10 (show_num 10 (unat (w :: u32)) @ CHR '' '' # r) = Some (w, CHR '' '' # r)"
  "scan_num 8 (show_num 8 (unat (w :: u32)) @ CHR '' '' # r) = Some (w, CHR '' '' # r)"
  by (simp_all add: scan_show is_digit_def)

lemma unat_have: "unat (h :: u8) = unat (ucast h :: u32)"
proof -
  have "unat h < 2 ^ 8" using unsigned_less [of h, where ?'a = nat] by simp
  then have "take_bit 32 (unat h) = unat h" by (simp add: take_bit_nat_eq_self_iff)
  then show ?thesis by (simp add: unsigned_ucast_eq)
qed

lemma scan4_line:
  "scan4 (show_num 8 (unat (mode :: u32)) @ '' '' @ show_num 10 (unat (uid :: u32)) @ '' '' @
     show_num 10 (unat (gid :: u32)) @ '' '' @ show_num 10 (unat (have :: u8)) @ '' '' @ r)
   = Some ((mode, uid, gid, ucast have), skip_space r)"
  by (simp add: scan4_def scan_show_blank unat_have)

lemma meta_line_append:
  "meta_line p r @ [newline] =
    show_num 8 (unat (m_mode r)) @ '' '' @ show_num 10 (unat (m_uid r)) @ '' '' @
    show_num 10 (unat (m_gid r)) @ '' '' @ show_num 10 (unat (m_have r)) @ '' '' @
    ((if m_has r kNlink then show_num 10 (unat (m_nlink r)) @ '' '' else []) @ p @ [newline])"
  by (simp add: meta_line_def)

lemma have_bits:
  "h AND 31 = (h :: u8) \<Longrightarrow> (ucast h :: u32) \<noteq> 255"
  "(ucast (h :: u8) :: u32) AND 8 \<noteq> 0 \<longleftrightarrow> h AND 8 \<noteq> 0"
  "(ucast (ucast (h :: u8) :: u32) :: u8) = h"
proof -
  show "(ucast h :: u32) \<noteq> 255" if "h AND 31 = h"
  proof
    assume "(ucast h :: u32) = 255"
    then have "unat h = 255" using unat_have [of h] by simp
    then have "h = 255" by (simp add: word_unat_eq_iff)
    then show False using that by simp
  qed
  have "(ucast h :: u32) AND 8 = ucast (h AND 8)"
    by (rule bit_word_eqI) (auto simp: bit_simps dest: bit_imp_le_length)
  moreover have "(ucast (h AND 8) :: u32) = 0 \<longleftrightarrow> h AND 8 = 0"
    by (metis unat_have unsigned_0 word_unat_eq_iff)
  ultimately show "(ucast (h :: u8) :: u32) AND 8 \<noteq> 0 \<longleftrightarrow> h AND 8 \<noteq> 0" by simp
  show "(ucast (ucast h :: u32) :: u8) = h"
    by (rule bit_word_eqI) (auto simp: bit_simps)
qed

lemma replay_put:
  assumes "meta_path p" and "meta_wf r"
  shows "ms_replay_line tb (meta_line p r @ [newline]) = AList.update p r tb"
proof -
  let ?tail = "(if m_has r kNlink then show_num 10 (unat (m_nlink r)) @ '' '' else []) @ p @ [newline]"
  have sc: "scan4 (meta_line p r @ [newline]) = Some ((m_mode r, m_uid r, m_gid r, ucast (m_have r)), skip_space ?tail)"
    unfolding meta_line_append by (rule scan4_line)
  have pne: "p \<noteq> []" using assms(1) by (simp add: meta_path_def)
  have "scan_num 10 (show_num 10 (unat (m_nlink r)) @ CHR '' '' # p @ [newline]) = Some (m_nlink r, CHR '' '' # p @ [newline])"
    by (rule scan_show_blank)
  then have "(if (ucast (m_have r) :: u32) \<noteq> 255 \<and> (ucast (m_have r) :: u32) AND 8 \<noteq> 0
      then (case scan_num 10 (skip_space ?tail) of Some (n, q) \<Rightarrow> (n, skip_space q) | None \<Rightarrow> (0, skip_space ?tail))
      else (0, skip_space ?tail)) = (m_nlink r, p @ [newline])"
    using assms have_bits by (simp add: meta_wf_def m_has_def skip_space_path)
  moreover have eta: "\<lparr>m_mode = m_mode r, m_uid = m_uid r, m_gid = m_gid r, m_nlink = m_nlink r, m_have = m_have r\<rparr> = r"
    by (cases r) simp
  ultimately show ?thesis
    using assms have_bits pne by (simp add: ms_replay_line_def sc meta_wf_def Let_def eta)
qed

lemma replay_tomb:
  assumes "meta_path p"
  shows "ms_replay_line tb (tombstone_line p @ [newline]) = AList.delete p tb"
proof -
  have z: "show_num 8 (unat (0 :: u32)) = ''0''" "show_num 10 (unat (0 :: u32)) = ''0''"
    "show_num 10 (unat (255 :: u8)) = ''255''"
    by code_simp+
  have "scan4 (tombstone_line p @ [newline]) = Some ((0, 0, 0, 255), skip_space (p @ [newline]))"
    using scan4_line [of 0 0 0 255 "p @ [newline]"] unfolding z by (simp add: tombstone_line_def)
  then show ?thesis
    using assms by (auto simp: ms_replay_line_def skip_space_path meta_path_def [of p])
qed

lemma meta_line_clean:
  assumes "meta_path p"
  shows "newline \<notin> set (meta_line p r)" "length (meta_line p r) < 8191"
proof -
  have "newline \<notin> set (show_num 8 n)" "newline \<notin> set (show_num 10 n)" for n
    using show_num_digits [of 8 n] show_num_digits [of 10 n] digit_not_sign by fastforce+
  then show "newline \<notin> set (meta_line p r)"
    using assms by (auto simp: meta_line_def meta_path_def)
  show "length (meta_line p r) < 8191"
    using assms show_u32_length(2) [of "m_mode r"] show_u32_length(1) [of "m_uid r"] show_u32_length(1) [of "m_gid r"]
      show_u32_length(1) [of "m_nlink r"] show_u32_length(1) [of "ucast (m_have r)"] unat_have [of "m_have r"]
    by (simp add: meta_line_def meta_path_def)
qed

interpretation meta: line_journal change_line ms_replay_line change_effect change_writable 8191
proof (unfold_locales, goal_cases)
  case (1 e)
  then show ?case
    by (cases e) (auto simp: meta_line_clean, auto simp: tombstone_line_def meta_path_def)
next
  case (2 e st)
  then show ?case by (cases e) (auto simp: replay_put replay_tomb)
qed

section \<open>The invariant\<close>

definition meta_text :: "meta_store \<Rightarrow> string" where
  "meta_text s = (case ms_file s of None \<Rightarrow> [] | Some f \<Rightarrow> f)"

definition ms_ok :: "meta_store \<Rightarrow> bool" where
  "ms_ok s \<longleftrightarrow>
    ms_journal s \<noteq> [] \<and> whole_lines (meta_text s)
    \<and> map_of (replay_file ms_replay_line 8191 [] (meta_text s)) = map_of (ms_table s)
    \<and> (\<forall>p r. map_of (ms_table s) p = Some r \<longrightarrow> meta_path p \<and> meta_wf r)"

lemma ms_write_simps [simp]:
  "ms_table (ms_write l s) = ms_table s" "ms_journal (ms_write l s) = ms_journal s"
  by (simp_all add: ms_write_def)

lemma meta_text_write: "ms_journal s \<noteq> [] \<Longrightarrow> meta_text (ms_write l s) = meta_text s @ l @ [newline]"
  by (simp add: ms_write_def meta_text_def split: option.splits)

lemma meta_text_table [simp]: "meta_text (s\<lparr>ms_table := t\<rparr>) = meta_text s"
  by (simp add: meta_text_def)

lemma ms_table_put [simp]: "map_of (ms_table (ms_put p r s)) = (map_of (ms_table s))(p \<mapsto> r)"
  by (simp add: ms_put_def ms_append_def update_conv')

lemma ms_table_erase [simp]: "map_of (ms_table (ms_erase p s)) = (map_of (ms_table s))(p := None)"
  by (simp add: ms_erase_def append_tombstone_def delete_conv')

lemma ms_put_ok [lx_inv]: "ms_ok s \<Longrightarrow> meta_path p \<Longrightarrow> meta_wf r \<Longrightarrow> ms_ok (ms_put p r s)"
  using meta.replay_append [of "meta_text s" "Put p r" "[]"]
  by (auto simp: ms_ok_def ms_put_def ms_append_def meta_text_write update_conv')

lemma ms_erase_ok [lx_inv]: "ms_ok s \<Longrightarrow> meta_path p \<Longrightarrow> ms_ok (ms_erase p s)"
  using meta.replay_append [of "meta_text s" "Tomb p" "[]"]
  by (auto simp: ms_ok_def ms_erase_def append_tombstone_def meta_text_write delete_conv')

lemma ms_at_wf: "ms_ok s \<Longrightarrow> m_have (ms_at s p) AND 31 = m_have (ms_at s p) \<and> (\<not> m_has (ms_at s p) kNlink \<longrightarrow> m_nlink (ms_at s p) = 0)"
  by (auto simp: ms_at_def ms_ok_def meta_wf_def meta_default_def split: option.splits)

lemma or_bits:
  "h AND 31 = (h :: u8) \<Longrightarrow> b AND 31 = b \<Longrightarrow> (h OR b) AND 31 = h OR b"
  "h AND 31 = (h :: u8) \<Longrightarrow> (h AND NOT b) AND 31 = h AND NOT b"
  by (simp_all add: word_ao_dist) (metis and.assoc and.commute)

lemma m_has_or: "m_has (r\<lparr>m_have := h OR b\<rparr>) c \<longleftrightarrow> h AND c \<noteq> 0 \<or> b AND c \<noteq> 0"
  by (auto simp: m_has_def word_ao_dist or_eq_0_iff)

lemma m_has_simps [simp]:
  "m_has (r\<lparr>m_mode := m\<rparr>) c = m_has r c" "m_has (r\<lparr>m_uid := u\<rparr>) c = m_has r c"
  "m_has (r\<lparr>m_gid := g\<rparr>) c = m_has r c" "m_has (r\<lparr>m_mode := m, m_have := h\<rparr>) c = m_has (r\<lparr>m_have := h\<rparr>) c"
  "m_has (r\<lparr>m_uid := u, m_have := h\<rparr>) c = m_has (r\<lparr>m_have := h\<rparr>) c"
  "m_has (r\<lparr>m_gid := g, m_have := h\<rparr>) c = m_has (r\<lparr>m_have := h\<rparr>) c"
  by (simp_all add: m_has_def)

lemma m_has_clear_mode:
  "m_has (r\<lparr>m_have := m_have r AND NOT kMode\<rparr>) kNlink = m_has r kNlink"
  "m_has (r\<lparr>m_have := m_have r AND NOT kMode\<rparr>) kFifo = m_has r kFifo"
  "\<not> m_has (r\<lparr>m_have := m_have r AND NOT kMode\<rparr>) kMode"
  by (simp_all add: m_has_def and.assoc)

lemma meta_wf_have:
  "meta_wf (r\<lparr>m_have := h\<rparr>) \<longleftrightarrow>
     h AND 31 = h \<and> (h AND kNlink = 0 \<longrightarrow> m_nlink r = 0) \<and> \<not> is_redundant (r\<lparr>m_have := h\<rparr>)"
  by (simp add: meta_wf_def m_has_def)

lemma clear_nlink: "(h AND NOT kMode) AND kNlink = h AND kNlink"
  by (simp add: and.assoc)

lemma set_mode_ok [lx_inv]:
  assumes ok: "ms_ok s" and p: "meta_path p"
  shows "ms_ok (set_mode p mode hm s)"
proof -
  have "meta_wf (r\<lparr>m_have := m_have r AND NOT kMode\<rparr>)"
    if "map_of (ms_table s) p = Some r" "\<not> is_redundant (r\<lparr>m_have := m_have r AND NOT kMode\<rparr>)" for r
  proof -
    have "meta_wf r" using ok that(1) by (auto simp: ms_ok_def)
    then show ?thesis
      unfolding meta_wf_have using that(2) or_bits(2) [of "m_have r" kMode] clear_nlink [of "m_have r"]
      by (simp only: meta_wf_def m_has_def) blast
  qed
  moreover have "meta_wf ((ms_at s p)\<lparr>m_mode := m, m_have := m_have (ms_at s p) OR kMode\<rparr>)" for m
    using ms_at_wf [OF ok, of p] by (simp add: meta_wf_def is_redundant_def or_bits m_has_or) (simp add: m_has_def)
  ultimately show ?thesis
    using ok p by (auto simp: set_mode_def Let_def lx_inv split: option.splits)
qed

lemma set_fifo_ok [lx_inv]: "ms_ok s \<Longrightarrow> meta_path p \<Longrightarrow> ms_ok (set_fifo p s)"
  using ms_at_wf [of s p]
  by (auto simp: set_fifo_def Let_def meta_wf_def is_redundant_def or_bits m_has_or m_has_def [of "ms_at s p"]
      intro!: lx_inv)

lemma set_owner_ok [lx_inv]:
  assumes ok: "ms_ok s" and p: "meta_path p"
  shows "ms_ok (set_owner p uid gid s)"
proof -
  define r0 where "r0 = ms_at s p"
  define r1 where "r1 = (if uid \<noteq> no_id then r0\<lparr>m_uid := uid, m_have := m_have r0 OR kUid\<rparr> else r0)"
  define r2 where "r2 = (if gid \<noteq> no_id then r1\<lparr>m_gid := gid, m_have := m_have r1 OR kGid\<rparr> else r1)"
  have "m_have r1 AND 31 = m_have r1 \<and> (\<not> m_has r1 kNlink \<longrightarrow> m_nlink r1 = 0)"
    using ms_at_wf [OF ok, of p] by (simp add: r1_def r0_def or_bits m_has_or) (simp add: m_has_def)
  then have "m_have r2 AND 31 = m_have r2 \<and> (\<not> m_has r2 kNlink \<longrightarrow> m_nlink r2 = 0)"
    by (simp add: r2_def or_bits m_has_or) (simp add: m_has_def)
  then have "\<not> is_redundant r2 \<Longrightarrow> meta_wf r2" by (simp add: meta_wf_def)
  moreover have "set_owner p uid gid s =
      (if map_of (ms_table s) p = None \<and> (uid = 0 \<or> uid = no_id) \<and> (gid = 0 \<or> gid = no_id) then s
       else if is_redundant r2 then ms_erase p s else ms_put p r2 s)"
    unfolding set_owner_def Let_def r2_def r1_def r0_def ..
  ultimately show ?thesis using ok p ms_erase_ok ms_put_ok by presburger
qed

lemma ms_forget_ok [lx_inv]: "ms_ok s \<Longrightarrow> meta_path p \<Longrightarrow> ms_ok (ms_forget p s)"
  by (simp add: ms_forget_def lx_inv)

lemma ms_rename_eq:
  "map_of (ms_table s) from = Some r \<Longrightarrow>
   ms_rename from to s = ms_append to r (s'\<lparr>ms_table := AList.update to r (ms_table s')\<rparr>)"
  if "s' = ms_erase from s" for s'
  by (cases s) (simp add: that ms_rename_def ms_erase_def append_tombstone_def ms_write_def)

lemma ms_rename_ok [lx_inv]:
  assumes ok: "ms_ok s" and p: "meta_path from" "meta_path to"
  shows "ms_ok (ms_rename from to s)"
proof (cases "map_of (ms_table s) from")
  case None
  then show ?thesis using assms by (simp add: ms_rename_def lx_inv)
next
  case (Some r)
  then have "meta_wf r" using ok by (auto simp: ms_ok_def)
  then show ?thesis
    using ms_put_ok [OF ms_erase_ok [OF ok p(1)] p(2)] ms_rename_eq [OF refl Some, of to] by (simp add: ms_put_def)
qed

lemma ms_rename_table:
  "map_of (ms_table (ms_rename from to s)) =
     (case map_of (ms_table s) from of
        None \<Rightarrow> (map_of (ms_table s))(to := None)
      | Some r \<Rightarrow> (map_of (ms_table s))(from := None, to \<mapsto> r))"
  by (auto simp: ms_rename_def ms_append_def append_tombstone_def ms_forget_def update_conv' delete_conv'
      split: option.splits)

section \<open>Properties\<close>

definition ms_fresh :: meta_store where
  "ms_fresh = \<lparr>ms_upper = [], ms_bases = [], ms_journal = [], ms_table = [], ms_file = None\<rparr>"

text \<open>The stores that chmod, chown, mknod, rename and unlink produce on a fresh upper
  layer, for paths the journal can carry.\<close>

inductive ms_reach :: "meta_store \<Rightarrow> bool" where
  start: "ms_reach (ms_attach lstat None (slash # d # ds) False ms_fresh)"
| mode: "ms_reach s \<Longrightarrow> meta_path p \<Longrightarrow> ms_reach (set_mode p m hm s)"
| owner: "ms_reach s \<Longrightarrow> meta_path p \<Longrightarrow> ms_reach (set_owner p u g s)"
| fifo: "ms_reach s \<Longrightarrow> meta_path p \<Longrightarrow> ms_reach (set_fifo p s)"
| rename: "ms_reach s \<Longrightarrow> meta_path p \<Longrightarrow> meta_path q \<Longrightarrow> ms_reach (ms_rename p q s)"
| forget: "ms_reach s \<Longrightarrow> meta_path p \<Longrightarrow> ms_reach (ms_forget p s)"

lemma ms_reach_ok: "ms_reach s \<Longrightarrow> ms_ok s"
proof (induction rule: ms_reach.induct)
  case (start lstat d ds)
  then show ?case
    by (auto simp: ms_attach_def ms_fresh_def ms_replay_def ms_ok_def meta_text_def Let_def)
qed (simp_all add: lx_inv)

text \<open>C16: A restart loses no metadata: reading the journal back gives, for every path,
  exactly the record the store held, whatever sequence of chmod, chown, mknod,
  rename and unlink wrote it.\<close>

theorem meta_store_recovers:
  assumes "ms_reach s"
  shows "ms_lookup (ms_attach lstat (ms_file s) (slash # d # ds) False ms_fresh) p = ms_lookup s p"
proof -
  have ok: "map_of (replay_file ms_replay_line 8191 [] (meta_text s)) = map_of (ms_table s)"
    using ms_reach_ok [OF assms] by (simp add: ms_ok_def)
  show ?thesis
    using ok by (cases "ms_file s")
      (auto simp: ms_lookup_def ms_attach_def ms_fresh_def ms_replay_def meta_text_def Let_def split: if_splits)
qed

definition demo_meta :: meta_store where
  "demo_meta =
    ms_rename ''/etc/a'' ''/etc/b c'' (set_owner ''/etc/a'' 1000 0xFFFFFFFF
      (set_mode ''/etc/a'' 0x9ed 0xFFFFFFFF (ms_attach (\<lambda>_. None) None ''/u'' False ms_fresh)))"

theorem meta_store_recovers_witness:
  "ms_lookup (ms_attach (\<lambda>_. None) (ms_file demo_meta) ''/u'' False ms_fresh) ''/etc/b c''
     = Some \<lparr>m_mode = 0x9ed, m_uid = 1000, m_gid = 0, m_nlink = 0, m_have = 3\<rparr>
   \<and> ms_lookup (ms_attach (\<lambda>_. None) (ms_file demo_meta) ''/u'' False ms_fresh) ''/etc/a'' = None"
proof -
  have reach: "ms_reach demo_meta"
    unfolding demo_meta_def by (intro ms_reach.intros) (simp_all add: meta_path_def)
  have "ms_lookup demo_meta ''/etc/b c'' = Some \<lparr>m_mode = 0x9ed, m_uid = 1000, m_gid = 0, m_nlink = 0, m_have = 3\<rparr>"
    "ms_lookup demo_meta ''/etc/a'' = None"
    by (simp_all add: demo_meta_def ms_lookup_def ms_rename_table set_owner_def set_mode_def Let_def ms_at_def
        meta_default_def is_redundant_def m_has_def ms_attach_def ms_replay_def ms_fresh_def)
  then show ?thesis using meta_store_recovers [OF reach] by simp
qed

text \<open>What a guest \<open>stat\<close> reports: the host's mode and root's ids where nothing is
  recorded.\<close>

definition guest_mode :: "u32 \<Rightarrow> meta_record option \<Rightarrow> u32" where
  "guest_mode host_mode ov = (case ov of None \<Rightarrow> host_mode | Some r \<Rightarrow> effective_mode host_mode r)"

definition guest_uid :: "meta_record option \<Rightarrow> u32" where
  "guest_uid ov = (case ov of None \<Rightarrow> 0 | Some r \<Rightarrow> if m_has r kUid then m_uid r else 0)"

definition guest_gid :: "meta_record option \<Rightarrow> u32" where
  "guest_gid ov = (case ov of None \<Rightarrow> 0 | Some r \<Rightarrow> if m_has r kGid then m_gid r else 0)"

lemma effective_mode_perm:
  "effective_mode hm r AND kPermMask = (if m_has r kMode then m_mode r AND kPermMask else hm AND kPermMask)"
  by (auto simp: effective_mode_def Let_def word_ao_dist and.assoc)

lemma guest_ids_clear_mode:
  "guest_uid (Some (r\<lparr>m_have := m_have r AND NOT kMode\<rparr>)) = guest_uid (Some r)"
  "guest_gid (Some (r\<lparr>m_have := m_have r AND NOT kMode\<rparr>)) = guest_gid (Some r)"
  by (simp_all add: guest_uid_def guest_gid_def m_has_def and.assoc)

lemma redundant_view:
  "is_redundant r \<Longrightarrow> guest_uid (Some r) = 0 \<and> guest_gid (Some r) = 0 \<and> guest_mode hm (Some r) = hm"
  by (auto simp: is_redundant_def guest_uid_def guest_gid_def guest_mode_def effective_mode_def)

text \<open>After a guest chmod, \<open>stat\<close> of that path reports exactly the requested
  permission, set-id and sticky bits, whether the bits were recorded or left to the
  host inode that already carries them; owner and group are unchanged, and so is
  every other path.\<close>

theorem set_mode_visible:
  assumes "hm = no_id \<or> hm = host_mode"
  shows "guest_mode host_mode (ms_lookup (set_mode p mode hm s) p) AND kPermMask = mode AND kPermMask
    \<and> guest_uid (ms_lookup (set_mode p mode hm s) p) = guest_uid (ms_lookup s p)
    \<and> guest_gid (ms_lookup (set_mode p mode hm s) p) = guest_gid (ms_lookup s p)
    \<and> (\<forall>q. q \<noteq> p \<longrightarrow> ms_lookup (set_mode p mode hm s) q = ms_lookup s q)"
proof (cases "hm \<noteq> no_id \<and> hm AND kPermMask = mode AND kPermMask")
  case True
  then have hm: "host_mode AND kPermMask = mode AND kPermMask" using assms by auto
  show ?thesis
  proof (cases "map_of (ms_table s) p")
    case None
    then show ?thesis using True hm by (simp add: set_mode_def ms_lookup_def guest_mode_def)
  next
    case (Some r0)
    let ?r = "r0\<lparr>m_have := m_have r0 AND NOT kMode\<rparr>"
    have l: "ms_lookup (set_mode p mode hm s) = (map_of (ms_table s))(p := if is_redundant ?r then None else Some ?r)"
      unfolding set_mode_def ms_lookup_def using True Some by (simp add: Let_def fun_eq_iff)
    have "guest_mode host_mode (Some ?r) AND kPermMask = mode AND kPermMask"
      using hm m_has_clear_mode(3) [of r0] by (simp only: guest_mode_def option.case effective_mode_perm if_False)
    then show ?thesis
      using redundant_view [of ?r host_mode] guest_ids_clear_mode [of r0] Some hm
      by (auto simp: l ms_lookup_def [of s] simp del: option.case) (simp_all add: guest_mode_def guest_uid_def guest_gid_def)
  qed
next
  case False
  let ?r = "(ms_at s p)\<lparr>m_mode := mode AND kPermMask, m_have := m_have (ms_at s p) OR kMode\<rparr>"
  have l: "ms_lookup (set_mode p mode hm s) = (map_of (ms_table s))(p \<mapsto> ?r)"
    unfolding set_mode_def ms_lookup_def using False by (auto simp: Let_def fun_eq_iff)
  have "guest_mode host_mode (Some ?r) AND kPermMask = mode AND kPermMask"
    by (simp add: guest_mode_def effective_mode_perm m_has_or)
  then show ?thesis
    by (auto simp: l ms_lookup_def [of s] guest_uid_def guest_gid_def ms_at_def meta_default_def m_has_or
        split: option.splits) (simp_all add: m_has_def)
qed

theorem set_mode_visible_witness:
  "guest_mode 0x81a4 (ms_lookup (set_mode ''/bin/su'' 0x9ed 0x81a4 ms_fresh) ''/bin/su'') AND kPermMask = 0x9ed"
  using set_mode_visible [of "0x81a4" "0x81a4" "''/bin/su''" "0x9ed" ms_fresh] by simp

text \<open>After a guest chown, \<open>stat\<close> reports the ids that were passed, an id of -1
  leaving the previous one in place, although records that only say root are
  dropped; the mode it reports is unchanged, and so is every other path.\<close>

theorem set_owner_visible:
  "guest_uid (ms_lookup (set_owner p uid gid s) p) = (if uid = no_id then guest_uid (ms_lookup s p) else uid)
   \<and> guest_gid (ms_lookup (set_owner p uid gid s) p) = (if gid = no_id then guest_gid (ms_lookup s p) else gid)
   \<and> guest_mode hm (ms_lookup (set_owner p uid gid s) p) = guest_mode hm (ms_lookup s p)
   \<and> (q = p \<or> ms_lookup (set_owner p uid gid s) q = ms_lookup s q)"
proof (cases "map_of (ms_table s) p = None \<and> (uid = 0 \<or> uid = no_id) \<and> (gid = 0 \<or> gid = no_id)")
  case True
  then show ?thesis
    by (auto simp: set_owner_def ms_lookup_def guest_uid_def guest_gid_def guest_mode_def)
next
  case False
  define r0 where "r0 = ms_at s p"
  define r1 where "r1 = (if uid \<noteq> no_id then r0\<lparr>m_uid := uid, m_have := m_have r0 OR kUid\<rparr> else r0)"
  define r2 where "r2 = (if gid \<noteq> no_id then r1\<lparr>m_gid := gid, m_have := m_have r1 OR kGid\<rparr> else r1)"
  have eq: "set_owner p uid gid s = (if is_redundant r2 then ms_erase p s else ms_put p r2 s)"
    unfolding set_owner_def Let_def r2_def r1_def r0_def using False by (rule if_not_P)
  have v0: "guest_uid (ms_lookup s p) = guest_uid (Some r0)" "guest_gid (ms_lookup s p) = guest_gid (Some r0)"
    "guest_mode hm (ms_lookup s p) = guest_mode hm (Some r0)"
    by (auto simp: r0_def ms_at_def ms_lookup_def guest_uid_def guest_gid_def guest_mode_def meta_default_def
        m_has_def effective_mode_def split: option.splits)
  have v1: "guest_uid (Some r1) = (if uid = no_id then guest_uid (Some r0) else uid)"
    "guest_gid (Some r1) = guest_gid (Some r0)" "guest_mode hm (Some r1) = guest_mode hm (Some r0)"
    by (simp_all add: r1_def guest_uid_def guest_gid_def guest_mode_def effective_mode_def m_has_or)
      (simp_all add: m_has_def)
  have v2: "guest_uid (Some r2) = guest_uid (Some r1)"
    "guest_gid (Some r2) = (if gid = no_id then guest_gid (Some r1) else gid)"
    "guest_mode hm (Some r2) = guest_mode hm (Some r1)"
    by (simp_all add: r2_def guest_uid_def guest_gid_def guest_mode_def effective_mode_def m_has_or)
      (simp_all add: m_has_def)
  show ?thesis
  proof (cases "is_redundant r2")
    case True
    then have "guest_uid None = guest_uid (Some r2)" "guest_gid None = guest_gid (Some r2)"
      "guest_mode hm None = guest_mode hm (Some r2)"
      using redundant_view [OF True, of hm] by (simp_all add: guest_uid_def guest_gid_def guest_mode_def)
    then show ?thesis using True v0 v1 v2 by (simp add: eq ms_lookup_def [of "ms_erase p s"]) (simp add: ms_lookup_def)
  next
    case False
    then show ?thesis using v0 v1 v2 by (simp add: eq ms_lookup_def [of "ms_put p r2 s"]) (simp add: ms_lookup_def)
  qed
qed

end
