(* ===== verification/Lx_LinkTable.thy ===== *)
theory Lx_LinkTable
  imports Lx_Journal
begin

text \<open>
  The hard-link emulation table \<open>LinkTable\<close> of \<open>kernel/link_table.hpp\<close>: aliases of a
  backing file, the reverse index from a backing to its aliases, and the append-only
  journal from which the table is rebuilt.  The hash maps are an association list
  (it is iterated) and a partial map; the journal file is a string, absent until
  the first write.  Opening the journal for writing is taken to succeed.
\<close>

section \<open>The code\<close>

record link_table =
  lt_alias :: "(string \<times> string) list"
  lt_names :: "string \<rightharpoonup> string list"
  lt_journal :: string
  lt_file :: "string option"

definition lt_empty_table :: "string option \<Rightarrow> link_table" where
  "lt_empty_table file = \<lparr>lt_alias = [], lt_names = Map.empty, lt_journal = [], lt_file = file\<rparr>"

definition journal_leaf :: string where
  "journal_leaf = ''.linuxity-links''"

definition lt_empty :: "link_table \<Rightarrow> bool" where
  "lt_empty t \<longleftrightarrow> lt_alias t = []"

definition backing_of :: "link_table \<Rightarrow> string \<Rightarrow> string option" where
  "backing_of t p = map_of (lt_alias t) p"

definition lt_resolve :: "link_table \<Rightarrow> string \<Rightarrow> string" where
  "lt_resolve t p = (case backing_of t p of Some b \<Rightarrow> b | None \<Rightarrow> p)"

definition lt_count :: "link_table \<Rightarrow> string \<Rightarrow> u32" where
  "lt_count t backing = (case lt_names t backing of None \<Rightarrow> 1 | Some v \<Rightarrow> 1 + of_nat (length v))"

definition has_aliases :: "link_table \<Rightarrow> string \<Rightarrow> bool" where
  "has_aliases t backing = (case lt_names t backing of None \<Rightarrow> False | Some v \<Rightarrow> v \<noteq> [])"

text \<open>\<open>names_[b]\<close> creates an empty vector when there is none.\<close>

definition names_at :: "(string \<rightharpoonup> string list) \<Rightarrow> string \<Rightarrow> string list" where
  "names_at N b = (case N b of None \<Rightarrow> [] | Some v \<Rightarrow> v)"

definition push_name :: "string \<Rightarrow> string \<Rightarrow> (string \<rightharpoonup> string list) \<Rightarrow> (string \<rightharpoonup> string list)" where
  "push_name b a N = N(b \<mapsto> names_at N b @ [a])"

definition erase_name :: "string \<Rightarrow> string \<Rightarrow> (string \<rightharpoonup> string list) \<Rightarrow> (string \<rightharpoonup> string list)" where
  "erase_name b a N =
    (case N b of
       None \<Rightarrow> N
     | Some v \<Rightarrow> let v' = removeAll a v in if v' = [] then N(b := None) else N(b \<mapsto> v'))"

definition plus_line :: "string \<Rightarrow> string \<Rightarrow> string" where
  "plus_line a b = ''+'' @ [tab] @ a @ [tab] @ b"

definition minus_line :: "string \<Rightarrow> string" where
  "minus_line a = ''-'' @ [tab] @ a"

text \<open>\<open>log\<close>: append one line to the journal, if there is one.\<close>

definition lt_append :: "string \<Rightarrow> link_table \<Rightarrow> link_table" where
  "lt_append line t =
    (if lt_journal t = [] then t
     else t\<lparr>lt_file := Some ((case lt_file t of None \<Rightarrow> [] | Some s \<Rightarrow> s) @ line @ [newline])\<rparr>)"

definition lt_add :: "string \<Rightarrow> string \<Rightarrow> link_table \<Rightarrow> link_table" where
  "lt_add a b t =
    lt_append (plus_line a b)
      (t\<lparr>lt_alias := AList.update a b (lt_alias t), lt_names := push_name b a (lt_names t)\<rparr>)"

definition lt_drop :: "string \<Rightarrow> link_table \<Rightarrow> link_table" where
  "lt_drop a t =
    (case map_of (lt_alias t) a of
       None \<Rightarrow> t
     | Some b \<Rightarrow>
         lt_append (minus_line a)
           (t\<lparr>lt_names := erase_name b a (lt_names t), lt_alias := AList.delete a (lt_alias t)\<rparr>))"

definition promote_step :: "string \<Rightarrow> string \<Rightarrow> link_table \<Rightarrow> link_table" where
  "promote_step heir a t =
    lt_append (plus_line a heir)
      (t\<lparr>lt_alias := AList.update a heir (lt_alias t), lt_names := push_name heir a (lt_names t)\<rparr>)"

definition lt_promote :: "string \<Rightarrow> link_table \<Rightarrow> string option \<times> link_table" where
  "lt_promote backing t =
    (case lt_names t backing of
       None \<Rightarrow> (None, t)
     | Some [] \<Rightarrow> (None, t)
     | Some (heir # rest) \<Rightarrow>
         (Some heir,
          fold (promote_step heir) rest
            (lt_append (minus_line heir)
              (t\<lparr>lt_names := (lt_names t)(backing := None),
                 lt_alias := AList.delete heir (lt_alias t)\<rparr>))))"

definition lt_moved :: "string \<Rightarrow> string \<Rightarrow> string \<Rightarrow> string option" where
  "lt_moved from to p =
    (if p = from then Some to
     else if length p > length from \<and> take (length from) p = from \<and> p ! length from = slash
     then Some (to @ drop (length from) p)
     else None)"

definition moved_or_same :: "string \<Rightarrow> string \<Rightarrow> string \<Rightarrow> string" where
  "moved_or_same from to p = (case lt_moved from to p of Some q \<Rightarrow> q | None \<Rightarrow> p)"

definition rename_erase :: "string \<times> string \<Rightarrow> link_table \<Rightarrow> link_table" where
  "rename_erase e t =
    lt_append (minus_line (fst e))
      (t\<lparr>lt_names := erase_name (snd e) (fst e) (lt_names t),
         lt_alias := AList.delete (fst e) (lt_alias t)\<rparr>)"

definition rename_before :: "string \<Rightarrow> string \<Rightarrow> link_table \<Rightarrow> (string \<times> string) list" where
  "rename_before from to t =
    filter (\<lambda>(a, b). lt_moved from to a \<noteq> None \<or> lt_moved from to b \<noteq> None) (lt_alias t)"

definition rename_prefix :: "string \<Rightarrow> string \<Rightarrow> link_table \<Rightarrow> link_table" where
  "rename_prefix from to t =
    (let before = rename_before from to t;
         after = map (\<lambda>(a, b). (moved_or_same from to a, moved_or_same from to b)) before
     in fold (\<lambda>(a, b). lt_add a b) after (fold rename_erase before t))"

definition lt_touches :: "string \<Rightarrow> link_table \<Rightarrow> bool" where
  "lt_touches p t =
    (\<exists>(a, b) \<in> set (lt_alias t).
       (a = p \<or> length a > length p \<and> take (length p) a = p \<and> a ! length p = slash)
       \<or> (b = p \<or> length b > length p \<and> take (length p) b = p \<and> b ! length p = slash))"

text \<open>One line of the journal, as \<open>fgets\<close> returned it.\<close>

definition replay_line :: "(string \<times> string) list \<Rightarrow> string \<Rightarrow> (string \<times> string) list" where
  "replay_line st line =
    (let s = (if line \<noteq> [] \<and> last line = newline then butlast line else line)
     in if length s < 3 \<or> s ! 1 \<noteq> tab then st
        else let rest = drop 2 s
             in if s ! 0 = CHR ''-'' then AList.delete rest st
                else case str_find tab rest of
                       None \<Rightarrow> st
                     | Some i \<Rightarrow> if s ! 0 \<noteq> CHR ''+'' then st
                                 else AList.update (take i rest) (drop (i + 1) rest) st)"

definition replay_state :: "string \<Rightarrow> (string \<times> string) list" where
  "replay_state body = replay_file replay_line 8191 [] body"

text \<open>\<open>replay\<close>; \<open>present\<close> says whether \<open>lstat\<close> finds a path.\<close>

definition lt_replay :: "(string \<Rightarrow> bool) \<Rightarrow> link_table \<Rightarrow> link_table" where
  "lt_replay present t =
    (case lt_file t of
       None \<Rightarrow> t
     | Some text \<Rightarrow>
         let kept = filter (\<lambda>(a, b). present a \<and> present b) (replay_state text)
         in t\<lparr>lt_alias := foldl (\<lambda>al (a, b). AList.update a b al) [] kept,
              lt_names := foldl (\<lambda>N (a, b). push_name b a N) Map.empty kept,
              lt_file := Some (concat (map (\<lambda>(a, b). plus_line a b @ [newline])
                           (foldl (\<lambda>al (a, b). AList.update a b al) [] kept)))\<rparr>)"

text \<open>\<open>attach\<close>; \<open>file\<close> is what the journal of that upper layer holds.\<close>

definition lt_attach :: "(string \<Rightarrow> bool) \<Rightarrow> string option \<Rightarrow> string \<Rightarrow> link_table \<Rightarrow> link_table" where
  "lt_attach present file upper t =
    lt_replay present (t\<lparr>lt_journal := upper @ ''/'' @ journal_leaf, lt_file := file\<rparr>)"

section \<open>The reverse index\<close>

text \<open>\<open>N\<close> is the reverse index of the alias map \<open>A\<close>: each backing lists exactly its
  aliases, once, and a backing without aliases has no entry.\<close>

definition names_ok :: "(string \<rightharpoonup> string list) \<Rightarrow> (string \<rightharpoonup> string) \<Rightarrow> bool" where
  "names_ok N A \<longleftrightarrow>
    (\<forall>b. distinct (names_at N b) \<and> set (names_at N b) = {a. A a = Some b} \<and> N b \<noteq> Some [])"

lemma names_at_push [simp]:
  "names_at (push_name b a N) c = (if c = b then names_at N b @ [a] else names_at N c)"
  by (simp add: names_at_def push_name_def)

lemma push_name_nonempty: "N c \<noteq> Some [] \<Longrightarrow> push_name b a N c \<noteq> Some []"
  by (simp add: push_name_def)

lemma names_at_erase [simp]:
  "names_at (erase_name b a N) c = (if c = b then removeAll a (names_at N b) else names_at N c)"
  by (auto simp: names_at_def erase_name_def Let_def split: option.splits)

lemma erase_name_nonempty: "N c \<noteq> Some [] \<Longrightarrow> erase_name b a N c \<noteq> Some []"
  by (auto simp: erase_name_def Let_def split: option.splits)

lemma names_ok_push: "names_ok N A \<Longrightarrow> A a = None \<Longrightarrow> names_ok (push_name b a N) (A(a \<mapsto> b))"
  by (auto simp: names_ok_def push_name_nonempty)

lemma names_ok_erase: "names_ok N A \<Longrightarrow> A a = Some b \<Longrightarrow> names_ok (erase_name b a N) (A(a := None))"
  by (auto simp: names_ok_def erase_name_nonempty distinct_removeAll)

lemma names_ok_remove:
  "names_ok N A \<Longrightarrow> names_ok (N(b := None)) (\<lambda>p. if A p = Some b then None else A p)"
  by (auto simp: names_ok_def names_at_def split: if_splits)

lemma names_ok_pushes:
  "names_ok N A \<Longrightarrow> distinct xs \<Longrightarrow> (\<forall>x\<in>set xs. A x = None) \<Longrightarrow>
   names_ok (fold (push_name b) xs N) (\<lambda>p. if p \<in> set xs then Some b else A p)"
proof (induction xs arbitrary: N A)
  case (Cons x xs)
  have "names_ok (push_name b x N) (A(x \<mapsto> b))" using Cons by (simp add: names_ok_push)
  then have "names_ok (fold (push_name b) xs (push_name b x N))
      (\<lambda>p. if p \<in> set xs then Some b else (A(x \<mapsto> b)) p)"
    by (rule Cons.IH) (use Cons.prems in auto)
  moreover have "(\<lambda>p. if p \<in> set xs then Some b else (A(x \<mapsto> b)) p)
      = (\<lambda>p. if p \<in> set (x # xs) then Some b else A p)"
    by auto
  ultimately show ?case by simp
qed simp

section \<open>The journal\<close>

text \<open>A name the line format can carry: not empty, without tab or newline, and short
  enough that a line with two of them fits the buffer of \<open>replay\<close>.\<close>

definition clean_name :: "string \<Rightarrow> bool" where
  "clean_name p \<longleftrightarrow> p \<noteq> [] \<and> tab \<notin> set p \<and> newline \<notin> set p \<and> length p < 4094"

definition clean_entry :: "string \<Rightarrow> string \<Rightarrow> bool" where
  "clean_entry a b \<longleftrightarrow> clean_name a \<and> clean_name b"

definition journal_text :: "link_table \<Rightarrow> string" where
  "journal_text t = (case lt_file t of None \<Rightarrow> [] | Some s \<Rightarrow> s)"

text \<open>Replaying the journal gives the aliases in memory, and the file ends at a line.\<close>

definition journal_ok :: "link_table \<Rightarrow> bool" where
  "journal_ok t \<longleftrightarrow>
    lt_journal t \<noteq> [] \<and> whole_lines (journal_text t)
    \<and> map_of (replay_state (journal_text t)) = map_of (lt_alias t)"

lemma replay_line_newline:
  "replay_line st (l @ [newline]) =
    (if length l < 3 \<or> l ! 1 \<noteq> tab then st
     else if l ! 0 = CHR ''-'' then AList.delete (drop 2 l) st
     else case str_find tab (drop 2 l) of
            None \<Rightarrow> st
          | Some i \<Rightarrow> if l ! 0 \<noteq> CHR ''+'' then st
                      else AList.update (take i (drop 2 l)) (drop (i + 1) (drop 2 l)) st)"
  by (simp add: replay_line_def Let_def)

lemma replay_line_plus:
  "clean_entry a b \<Longrightarrow> replay_line st (plus_line a b @ [newline]) = AList.update a b st"
  unfolding replay_line_newline by (simp add: plus_line_def clean_entry_def clean_name_def)

lemma replay_line_minus:
  "clean_entry a b \<Longrightarrow> replay_line st (minus_line a @ [newline]) = AList.delete a st"
  unfolding replay_line_newline by (cases a) (simp_all add: minus_line_def clean_entry_def clean_name_def)

datatype link_change = Link string string | Unlink string

primrec link_line :: "link_change \<Rightarrow> string" where
  "link_line (Link a b) = plus_line a b"
| "link_line (Unlink a) = minus_line a"

primrec link_effect :: "link_change \<Rightarrow> (string \<times> string) list \<Rightarrow> (string \<times> string) list" where
  "link_effect (Link a b) st = AList.update a b st"
| "link_effect (Unlink a) st = AList.delete a st"

primrec link_writable :: "link_change \<Rightarrow> bool" where
  "link_writable (Link a b) \<longleftrightarrow> clean_entry a b"
| "link_writable (Unlink a) \<longleftrightarrow> clean_name a"

interpretation links: line_journal link_line replay_line link_effect link_writable 8191
proof (unfold_locales, goal_cases)
  case (1 e)
  then show ?case
    by (cases e) (auto simp: clean_entry_def clean_name_def plus_line_def minus_line_def)
next
  case (2 e st)
  then show ?case
    by (cases e) (auto simp: replay_line_plus replay_line_minus [of _ "[slash]"] clean_entry_def clean_name_def)
qed

lemma lt_append_simps [simp]:
  "lt_alias (lt_append l t) = lt_alias t" "lt_names (lt_append l t) = lt_names t"
  "lt_journal (lt_append l t) = lt_journal t"
  by (simp_all add: lt_append_def)

lemma journal_text_append:
  "lt_journal t \<noteq> [] \<Longrightarrow> journal_text (lt_append l t) = journal_text t @ l @ [newline]"
  by (simp add: lt_append_def journal_text_def split: option.splits)

lemma journal_text_simps [simp]:
  "journal_text (t\<lparr>lt_alias := x\<rparr>) = journal_text t" "journal_text (t\<lparr>lt_names := y\<rparr>) = journal_text t"
  by (simp_all add: journal_text_def)

text \<open>Logging a change together with making it keeps the journal right.\<close>

lemma journal_plus:
  assumes "journal_ok t" and "clean_entry a b"
  shows "journal_ok (lt_append (plus_line a b) (t\<lparr>lt_alias := AList.update a b (lt_alias t), lt_names := N\<rparr>))"
  using assms links.replay_append [of "journal_text t" "Link a b" "[]"]
  by (simp add: journal_ok_def journal_text_append replay_state_def update_conv')

lemma journal_minus:
  assumes "journal_ok t" and "clean_name a"
  shows "journal_ok (lt_append (minus_line a) (t\<lparr>lt_names := N, lt_alias := AList.delete a (lt_alias t)\<rparr>))"
  using assms links.replay_append [of "journal_text t" "Unlink a" "[]"]
  by (simp add: journal_ok_def journal_text_append replay_state_def delete_conv')

section \<open>The invariant and the operations\<close>

text \<open>The alias map has one level: a backing is never itself an alias.\<close>

definition flat :: "(string \<rightharpoonup> string) \<Rightarrow> bool" where
  "flat A \<longleftrightarrow> (\<forall>a b. A a = Some b \<longrightarrow> A b = None)"

definition lt_ok :: "link_table \<Rightarrow> bool" where
  "lt_ok t \<longleftrightarrow>
    distinct (map fst (lt_alias t)) \<and> names_ok (lt_names t) (map_of (lt_alias t))
    \<and> flat (map_of (lt_alias t)) \<and> journal_ok t
    \<and> (\<forall>a b. map_of (lt_alias t) a = Some b \<longrightarrow> clean_entry a b)"

lemma lt_add_alias: "map_of (lt_alias (lt_add a b t)) = (map_of (lt_alias t))(a \<mapsto> b)"
  by (simp add: lt_add_def update_conv')

text \<open>A new name: not in the table yet, and its backing is resolved.\<close>

definition fresh_link :: "(string \<rightharpoonup> string) \<Rightarrow> string \<Rightarrow> string \<Rightarrow> bool" where
  "fresh_link A a b \<longleftrightarrow> A a = None \<and> a \<notin> ran A \<and> A b = None \<and> a \<noteq> b"

lemma lt_add_ok [lx_inv]:
  assumes "lt_ok t" and "fresh_link (map_of (lt_alias t)) a b" and "clean_entry a b"
  shows "lt_ok (lt_add a b t)"
  unfolding lt_ok_def
proof (intro conjI)
  show "names_ok (lt_names (lt_add a b t)) (map_of (lt_alias (lt_add a b t)))"
    using assms names_ok_push [of "lt_names t" "map_of (lt_alias t)" a b]
    by (simp add: lt_ok_def fresh_link_def lt_add_def update_conv')
  show "flat (map_of (lt_alias (lt_add a b t)))"
    using assms by (auto simp: lt_ok_def flat_def lt_add_alias fresh_link_def ran_def)
  show "journal_ok (lt_add a b t)"
    using assms journal_plus [of t a b "push_name b a (lt_names t)"] by (simp add: lt_ok_def lt_add_def)
  show "distinct (map fst (lt_alias (lt_add a b t)))"
    using assms by (simp add: lt_ok_def lt_add_def distinct_update)
  show "\<forall>x y. map_of (lt_alias (lt_add a b t)) x = Some y \<longrightarrow> clean_entry x y"
    using assms by (auto simp: lt_ok_def lt_add_alias)
qed

lemma lt_drop_alias: "map_of (lt_alias (lt_drop a t)) = (map_of (lt_alias t))(a := None)"
  by (auto simp: lt_drop_def delete_conv' split: option.splits)

lemma lt_drop_ok [lx_inv]: "lt_ok t \<Longrightarrow> lt_ok (lt_drop a t)"
proof (cases "map_of (lt_alias t) a")
  case (Some b)
  assume ok: "lt_ok t"
  then have clean: "clean_name a" using Some by (auto simp: lt_ok_def clean_entry_def)
  have flat: "flat (map_of (lt_alias (lt_drop a t)))"
    using ok by (auto simp: lt_ok_def flat_def lt_drop_alias)
  have all: "\<forall>x y. map_of (lt_alias (lt_drop a t)) x = Some y \<longrightarrow> clean_entry x y"
    using ok by (auto simp: lt_ok_def lt_drop_alias)
  show "lt_ok (lt_drop a t)"
    using ok Some flat all journal_minus [OF _ clean, of t "erase_name b a (lt_names t)"]
      names_ok_erase [of "lt_names t" "map_of (lt_alias t)" a b]
    by (simp add: lt_ok_def lt_drop_def delete_conv' distinct_delete)
qed (simp add: lt_drop_def)

lemma names_okD:
  assumes "names_ok N A"
  shows "distinct (names_at N b)" "set (names_at N b) = {a. A a = Some b}" "N b \<noteq> Some []"
  using assms by (auto simp: names_ok_def)

lemma names_at_pushes [simp]:
  "names_at (fold (push_name h) xs N) c = names_at N c @ (if c = h then xs else [])"
  by (induction xs arbitrary: N) auto

text \<open>\<open>promote\<close>: the first alias becomes the backing of the others.\<close>

lemma promote_fold:
  "lt_alias (fold (promote_step h) xs t) = fold (\<lambda>a. AList.update a h) xs (lt_alias t)"
  "lt_names (fold (promote_step h) xs t) = fold (push_name h) xs (lt_names t)"
  by (induction xs arbitrary: t) (simp_all add: promote_step_def)

lemma map_of_updates:
  "map_of (fold (\<lambda>a. AList.update a h) xs al) = (\<lambda>p. if p \<in> set xs then Some h else map_of al p)"
  by (induction xs arbitrary: al) (auto simp: update_conv')

lemma distinct_updates:
  "distinct (map fst al) \<Longrightarrow> distinct (map fst (fold (\<lambda>a. AList.update a h) xs al))"
  by (induction xs arbitrary: al) (simp_all add: distinct_update)

lemma journal_promote:
  "journal_ok t \<Longrightarrow> \<forall>x\<in>set xs. clean_entry x h \<Longrightarrow> journal_ok (fold (promote_step h) xs t)"
proof (induction xs arbitrary: t)
  case (Cons x xs)
  have "journal_ok (promote_step h x t)"
    using Cons journal_plus [of t x h "push_name h x (lt_names t)"] by (simp add: promote_step_def)
  then show ?case using Cons by simp
qed simp

lemma lt_promote_alias:
  assumes "lt_ok t" and "lt_promote backing t = (Some heir, t')"
  shows "map_of (lt_alias t) heir = Some backing
    \<and> map_of (lt_alias t') =
       (\<lambda>p. if p = heir then None
            else if map_of (lt_alias t) p = Some backing then Some heir else map_of (lt_alias t) p)
    \<and> length (names_at (lt_names t') heir) + 1 = length (names_at (lt_names t) backing)
    \<and> lt_ok t'"
proof -
  let ?A = "map_of (lt_alias t)"
  obtain rest where N: "lt_names t backing = Some (heir # rest)"
    using assms(2) by (auto simp: lt_promote_def split: option.splits list.splits)
  define t1 where "t1 = lt_append (minus_line heir)
      (t\<lparr>lt_names := (lt_names t)(backing := None), lt_alias := AList.delete heir (lt_alias t)\<rparr>)"
  have t': "t' = fold (promote_step heir) rest t1"
    using assms(2) N by (simp add: lt_promote_def t1_def)
  have nm: "names_ok (lt_names t) ?A" and fl: "flat ?A" and jo: "journal_ok t"
    and cl: "\<And>a b. ?A a = Some b \<Longrightarrow> clean_entry a b" and di: "distinct (map fst (lt_alias t))"
    using assms(1) by (auto simp: lt_ok_def)
  have at: "names_at (lt_names t) backing = heir # rest" by (simp add: names_at_def N)
  then have ds: "distinct (heir # rest)" using names_okD(1) [OF nm, of backing] by simp
  have al: "?A p = Some backing \<longleftrightarrow> p = heir \<or> p \<in> set rest" for p
    using names_okD(2) [OF nm, of backing] at by auto
  have heir: "?A heir = Some backing" and backing: "?A backing = None"
    using al fl by (auto simp: flat_def)
  have alias': "map_of (lt_alias t') = (\<lambda>p. if p \<in> set rest then Some heir else (?A(heir := None)) p)"
    by (simp add: t' promote_fold map_of_updates t1_def fun_eq_iff delete_conv)
  also have "\<dots> = (\<lambda>p. if p = heir then None else if ?A p = Some backing then Some heir else ?A p)"
    using ds al by (auto simp: fun_eq_iff)
  finally have A': "map_of (lt_alias t') = \<dots>" .
  have "{a. ?A a = Some heir} = {}" using fl heir by (auto simp: flat_def)
  then have heir_fresh: "names_at (lt_names t) heir = []" using names_okD(2) [OF nm, of heir] by simp
  have ne: "heir \<noteq> backing" using heir backing by auto
  have cnt: "names_at (lt_names t') heir = rest"
    using heir_fresh ne by (simp add: t' promote_fold t1_def) (simp add: names_at_def)
  have "names_ok (fold (push_name heir) rest ((lt_names t)(backing := None)))
      (\<lambda>p. if p \<in> set rest then Some heir else if ?A p = Some backing then None else ?A p)"
    using names_ok_pushes [OF names_ok_remove [OF nm, of backing], of rest heir] ds al by auto
  moreover have "(\<lambda>p. if p \<in> set rest then Some heir else if ?A p = Some backing then None else ?A p)
      = map_of (lt_alias t')"
    using A' ds al by (auto simp: fun_eq_iff)
  ultimately have "names_ok (lt_names t') (map_of (lt_alias t'))"
    by (simp add: t' promote_fold t1_def)
  moreover have "flat (map_of (lt_alias t'))" unfolding A' using fl heir by (auto simp: flat_def)
  moreover have "journal_ok t'"
    unfolding t' t1_def using jo cl heir al
    by (intro journal_promote journal_minus) (auto simp: clean_entry_def)
  moreover have "\<forall>a b. map_of (lt_alias t') a = Some b \<longrightarrow> clean_entry a b"
    unfolding A' using cl heir by (auto simp: clean_entry_def split: if_splits)
  moreover have "distinct (map fst (lt_alias t'))"
    unfolding t' promote_fold t1_def using di by (simp add: distinct_updates distinct_delete)
  ultimately have "lt_ok t'" by (simp add: lt_ok_def)
  then show ?thesis using heir A' cnt at by simp
qed

text \<open>\<open>rename_prefix\<close>: what it erases and what it adds.\<close>

lemma rename_erase_drop:
  "map_of (lt_alias t) a = Some b \<Longrightarrow> rename_erase (a, b) t = lt_drop a t"
  by (simp add: rename_erase_def lt_drop_def)

lemma rename_erases:
  assumes "lt_ok t" and "distinct (map fst xs)" and "\<forall>e\<in>set xs. map_of (lt_alias t) (fst e) = Some (snd e)"
  shows "lt_ok (fold rename_erase xs t)
    \<and> map_of (lt_alias (fold rename_erase xs t)) =
        (\<lambda>p. if p \<in> fst ` set xs then None else map_of (lt_alias t) p)"
  using assms
proof (induction xs arbitrary: t)
  case (Cons x xs)
  obtain a b where x: "x = (a, b)" by (cases x)
  have e: "rename_erase x t = lt_drop a t" using Cons(4) by (simp add: x rename_erase_drop)
  have ok: "lt_ok (lt_drop a t)" using Cons(2) by (rule lt_drop_ok)
  have "\<forall>e\<in>set xs. map_of (lt_alias (lt_drop a t)) (fst e) = Some (snd e)"
    using Cons(3,4) by (auto simp: x lt_drop_alias)
  from Cons.IH [OF ok _ this] Cons(3) show ?case
    by (auto simp: x e [unfolded x] lt_drop_alias fun_eq_iff)
qed simp

definition fresh_links :: "(string \<rightharpoonup> string) \<Rightarrow> (string \<times> string) list \<Rightarrow> bool" where
  "fresh_links A ys \<longleftrightarrow>
    distinct (map fst ys) \<and> (\<forall>a\<in>fst ` set ys. A a = None \<and> a \<notin> ran A \<and> a \<notin> snd ` set ys)
    \<and> (\<forall>b\<in>snd ` set ys. A b = None)"

lemma lt_adds:
  assumes "lt_ok t" and "fresh_links (map_of (lt_alias t)) ys" and "\<forall>(a, b)\<in>set ys. clean_entry a b"
  shows "lt_ok (fold (\<lambda>(a, b). lt_add a b) ys t)
    \<and> map_of (lt_alias (fold (\<lambda>(a, b). lt_add a b) ys t)) = map_of (lt_alias t) ++ map_of ys"
  using assms
proof (induction ys arbitrary: t)
  case (Cons y ys)
  obtain a b where y: "y = (a, b)" by (cases y)
  have "fresh_link (map_of (lt_alias t)) a b"
    using Cons(3) by (auto simp: fresh_links_def fresh_link_def y)
  then have ok: "lt_ok (lt_add a b t)" using Cons(2,4) by (intro lt_add_ok) (auto simp: y)
  have "fresh_links (map_of (lt_alias (lt_add a b t))) ys"
    using Cons(3) by (auto simp: fresh_links_def y lt_add_alias ran_def split: if_splits)
  from Cons.IH [OF ok this] Cons(3,4) show ?case
    by (auto simp: y lt_add_alias fresh_links_def fun_eq_iff map_add_def map_of_eq_None_iff
        split: option.splits)
qed simp

lemma moved_or_same_eq:
  "lt_moved from to p \<noteq> None \<Longrightarrow> moved_or_same from to p = to @ drop (length from) p \<and> p = from @ drop (length from) p"
  by (auto simp: moved_or_same_def lt_moved_def split: if_splits) (metis append_take_drop_id)

lemma moved_under:
  "lt_moved from to p \<noteq> None \<Longrightarrow> lt_moved to x (moved_or_same from to p) \<noteq> None"
  by (auto simp: moved_or_same_def lt_moved_def nth_append split: if_splits)

lemma touches_iff:
  "lt_touches q t \<longleftrightarrow>
     (\<exists>a b. (a, b) \<in> set (lt_alias t) \<and> (lt_moved q x a \<noteq> None \<or> lt_moved q x b \<noteq> None))"
  by (auto simp: lt_touches_def lt_moved_def split: if_splits)

text \<open>Names outside the target subtree are kept apart by the renaming.\<close>

lemma moved_or_same_inj:
  assumes "\<forall>p\<in>S. lt_moved to to p = None"
  shows "inj_on (moved_or_same from to) S"
proof (rule inj_onI)
  fix p q assume pq: "p \<in> S" "q \<in> S" "moved_or_same from to p = moved_or_same from to q"
  consider "lt_moved from to p = None" "lt_moved from to q = None"
    | "lt_moved from to p \<noteq> None" "lt_moved from to q = None"
    | "lt_moved from to p = None" "lt_moved from to q \<noteq> None"
    | "lt_moved from to p \<noteq> None" "lt_moved from to q \<noteq> None" by blast
  then show "p = q"
  proof cases
    case 1
    then show ?thesis using pq by (simp add: moved_or_same_def)
  next
    case 2
    then show ?thesis using pq assms moved_under [of "from" to p to] by (simp add: moved_or_same_def)
  next
    case 3
    then show ?thesis using pq assms moved_under [of "from" to q to] by (simp add: moved_or_same_def)
  next
    case 4
    then show ?thesis using pq moved_or_same_eq [of "from" to p] moved_or_same_eq [of "from" to q]
      by (metis same_append_eq)
  qed
qed

text \<open>Renaming the entries whose key is in \<open>M\<close>, seen on the alias map alone.\<close>

lemma renamed_fresh:
  assumes fl: "flat A" and inj: "inj_on mv (dom A \<union> ran A)" and dx: "distinct (map fst xs)"
    and xs: "set xs = {(a, b). A a = Some b \<and> a \<in> M}"
    and same: "\<And>a b. A a = Some b \<Longrightarrow> a \<notin> M \<Longrightarrow> mv a = a \<and> mv b = b"
  shows "fresh_links (\<lambda>p. if p \<in> M then None else A p) (map (\<lambda>(a, b). (mv a, mv b)) xs)"
proof -
  have eqD: "p = q" if "mv p = mv q" "p \<in> dom A \<union> ran A" "q \<in> dom A \<union> ran A" for p q
    using inj that by (auto dest: inj_onD)
  have "inj_on mv (fst ` set xs)" by (rule inj_on_subset [OF inj]) (auto simp: xs)
  then have "distinct (map fst (map (\<lambda>(a, b). (mv a, mv b)) xs))"
    using dx by (simp add: distinct_map comp_def split_beta inj_on_def)
  moreover have "mv a \<in> M \<or> A (mv a) = None" if "A a = Some b" "a \<in> M" for a b
    using that same [of "mv a"] eqD [of "mv a" a] by (cases "A (mv a)") (auto, metis domI UnI1)
  moreover have "A c \<noteq> Some (mv a)" if "A a = Some b" "c \<notin> M" for a b c
  proof
    assume c: "A c = Some (mv a)"
    then have "mv a = a" using same [OF c that(2)] eqD [of "mv a" a] that by (auto intro: ranI)
    then show False using c fl that by (simp add: flat_def)
  qed
  moreover have "mv a \<noteq> mv b'" if "A a = Some b" "A a' = Some b'" for a b a' b'
    using that eqD [of a b'] fl unfolding flat_def by (metis UnI1 UnI2 domI option.distinct(1) ranI)
  moreover have "mv b \<in> M \<or> A (mv b) = None" if "A a = Some b" for a b
  proof (rule ccontr)
    assume "\<not> ?thesis"
    then obtain c where c: "mv b \<notin> M" "A (mv b) = Some c" by auto
    then have "mv b = b" using same [OF c(2,1)] eqD [of "mv b" b] that by (auto intro: ranI)
    then show False using c fl that by (simp add: flat_def)
  qed
  ultimately show ?thesis
    by (auto simp: fresh_links_def xs ran_def split: if_splits) blast
qed

lemma renamed_map:
  assumes fl: "fresh_links (\<lambda>p. if p \<in> M then None else A p) (map (\<lambda>(a, b). (mv a, mv b)) xs)"
    and xs: "set xs = {(a, b). A a = Some b \<and> a \<in> M}"
    and same: "\<And>a b. A a = Some b \<Longrightarrow> a \<notin> M \<Longrightarrow> mv a = a \<and> mv b = b"
  shows "((\<lambda>p. if p \<in> M then None else A p) ++ map_of (map (\<lambda>(a, b). (mv a, mv b)) xs)) x = Some y
    \<longleftrightarrow> (\<exists>a b. A a = Some b \<and> x = mv a \<and> y = mv b)"
proof -
  let ?ys = "map (\<lambda>(a, b). (mv a, mv b)) xs"
  have dy: "distinct (map fst ?ys)" using fl by (simp add: fresh_links_def)
  have ys: "map_of ?ys x = Some y \<longleftrightarrow> (\<exists>a b. A a = Some b \<and> a \<in> M \<and> x = mv a \<and> y = mv b)" for x y
    using map_of_eq_Some_iff [OF dy, of x y] by (force simp: xs)
  have none: "map_of ?ys a = None" if "A a = Some b" "a \<notin> M" for a b
    using fl that by (auto simp: fresh_links_def map_of_eq_None_iff)
  show ?thesis
  proof
    assume "((\<lambda>p. if p \<in> M then None else A p) ++ map_of ?ys) x = Some y"
    then consider "map_of ?ys x = Some y" | "x \<notin> M" "A x = Some y" by (auto split: if_splits)
    then show "\<exists>a b. A a = Some b \<and> x = mv a \<and> y = mv b"
      by cases (use ys same in \<open>blast, metis\<close>)
  next
    assume "\<exists>a b. A a = Some b \<and> x = mv a \<and> y = mv b"
    then obtain a b where ab: "A a = Some b" "x = mv a" "y = mv b" by blast
    show "((\<lambda>p. if p \<in> M then None else A p) ++ map_of ?ys) x = Some y"
    proof (cases "a \<in> M")
      case True
      then have "map_of ?ys x = Some y" using ys ab by blast
      then show ?thesis by simp
    next
      case False
      then show ?thesis using ab same [OF ab(1)] none [OF ab(1)] by (simp add: map_add_def)
    qed
  qed
qed

lemma rename_prefix_alias:
  assumes ok: "lt_ok t" and free: "\<not> lt_touches to t"
    and clean: "\<forall>p\<in>dom (map_of (lt_alias t)) \<union> ran (map_of (lt_alias t)). clean_name (moved_or_same from to p)"
  shows "lt_ok (rename_prefix from to t)
    \<and> (\<forall>x y. map_of (lt_alias (rename_prefix from to t)) x = Some y \<longleftrightarrow>
         (\<exists>a b. map_of (lt_alias t) a = Some b \<and> x = moved_or_same from to a \<and> y = moved_or_same from to b))"
proof -
  let ?A = "map_of (lt_alias t)" and ?mv = "moved_or_same from to"
  define xs M where "xs = rename_before from to t" and "M = fst ` set xs"
  let ?ys = "map (\<lambda>(a, b). (?mv a, ?mv b)) xs"
  have di: "distinct (map fst (lt_alias t))" and fl: "flat ?A" using ok by (auto simp: lt_ok_def)
  have mem: "(a, b) \<in> set (lt_alias t) \<longleftrightarrow> ?A a = Some b" for a b using di by simp
  have xs: "(a, b) \<in> set xs \<longleftrightarrow> ?A a = Some b \<and> (lt_moved from to a \<noteq> None \<or> lt_moved from to b \<noteq> None)" for a b
    using mem by (auto simp: xs_def rename_before_def)
  then have M: "set xs = {(a, b). ?A a = Some b \<and> a \<in> M}" by (force simp: M_def)
  have same: "?mv a = a \<and> ?mv b = b" if "?A a = Some b" "a \<notin> M" for a b
    using that xs [of a b] by (force simp: moved_or_same_def M_def)
  have "\<forall>p\<in>dom ?A \<union> ran ?A. lt_moved to to p = None"
    using free mem by (auto simp: touches_iff [where x = to] dom_def ran_def)
  then have inj: "inj_on ?mv (dom ?A \<union> ran ?A)" by (rule moved_or_same_inj)
  have dx: "distinct (map fst xs)" unfolding xs_def rename_before_def using di by (rule distinct_map_filter)
  have "\<forall>e\<in>set xs. ?A (fst e) = Some (snd e)" using M by auto
  then have er: "lt_ok (fold rename_erase xs t)"
    "map_of (lt_alias (fold rename_erase xs t)) = (\<lambda>p. if p \<in> M then None else ?A p)"
    using rename_erases [OF ok dx] by (auto simp: M_def)
  note fresh = renamed_fresh [OF fl inj dx M same]
  have "\<forall>(a, b)\<in>set ?ys. clean_entry a b"
    using M clean by (auto simp: clean_entry_def dom_def ran_def)
  then have "lt_ok (rename_prefix from to t)"
    "map_of (lt_alias (rename_prefix from to t)) = (\<lambda>p. if p \<in> M then None else ?A p) ++ map_of ?ys"
    using lt_adds [OF er(1), of ?ys] fresh er(2)
    by (simp_all add: rename_prefix_def Let_def xs_def [symmetric])
  then show ?thesis using renamed_map [OF fresh M same] by simp
qed

section \<open>Rebuilding from the journal\<close>

lemma foldl_update_id:
  "distinct (map fst (al @ xs)) \<Longrightarrow> foldl (\<lambda>al (a, b). AList.update a b al) al xs = al @ xs"
proof (induction xs arbitrary: al)
  case (Cons x xs)
  obtain a b where x: "x = (a, b)" by (cases x)
  have "AList.update a b al = al @ [(a, b)]"
    using Cons(2) unfolding x by (induction al) auto
  then show ?case using Cons(1) [of "al @ [(a, b)]"] Cons(2) by (simp add: x)
qed simp

lemma replay_line_distinct: "distinct (map fst st) \<Longrightarrow> distinct (map fst (replay_line st l))"
  by (auto simp: replay_line_def Let_def distinct_update distinct_delete split: option.splits)

lemma replay_state_distinct: "distinct (map fst (replay_state text))"
proof -
  have "distinct (map fst st) \<Longrightarrow> distinct (map fst (foldl replay_line st ls))" for st ls
    by (induction ls arbitrary: st) (simp_all add: replay_line_distinct)
  then show ?thesis by (simp add: replay_state_def replay_file_def)
qed

lemma names_ok_foldl:
  "names_ok N A \<Longrightarrow> distinct (map fst xs) \<Longrightarrow> \<forall>e\<in>set xs. A (fst e) = None \<Longrightarrow>
   names_ok (foldl (\<lambda>N (a, b). push_name b a N) N xs) (A ++ map_of xs)"
proof (induction xs arbitrary: N A)
  case (Cons x xs)
  obtain a b where x: "x = (a, b)" by (cases x)
  have "names_ok (push_name b a N) (A(a \<mapsto> b))" using Cons(2,4) by (simp add: x names_ok_push)
  then have "names_ok (foldl (\<lambda>N (a, b). push_name b a N) (push_name b a N) xs) (A(a \<mapsto> b) ++ map_of xs)"
    by (rule Cons.IH) (use Cons(3,4) in \<open>auto simp: x\<close>)
  moreover have "map_of xs a = None" using Cons(3) by (simp add: x map_of_eq_None_iff)
  then have "A(a \<mapsto> b) ++ map_of xs = A ++ map_of (x # xs)"
    by (auto simp: x fun_eq_iff map_add_def simp del: map_of_eq_None_iff split: option.splits)
  ultimately show ?case by (simp only: x foldl.simps prod.case)
qed simp

lemma replay_state_lines:
  assumes "\<forall>e\<in>set xs. clean_entry (fst e) (snd e)"
  shows "replay_state (concat (map (\<lambda>(a, b). plus_line a b @ [newline]) xs))
     = foldl (\<lambda>al (a, b). AList.update a b al) [] xs
   \<and> whole_lines (concat (map (\<lambda>(a, b). plus_line a b @ [newline]) xs))"
proof -
  let ?ops = "map (\<lambda>(a, b). Link a b) xs"
  have f: "concat (map (\<lambda>(a, b). plus_line a b @ [newline]) xs) = journal_file link_line ?ops"
    by (induction xs) (auto simp: journal_file_def)
  have "list_all link_writable ?ops" using assms by (auto simp: list_all_iff)
  moreover have "fold link_effect ?ops st = foldl (\<lambda>al (a, b). AList.update a b al) st xs" for st
    by (induction xs arbitrary: st) auto
  ultimately show ?thesis
    using links.replay_journal [of ?ops "[]"] links.whole_lines_journal [of ?ops] by (simp add: f replay_state_def)
qed

lemma lt_replay_correct:
  assumes ok: "lt_ok t"
  shows "lt_ok (lt_replay present t)
    \<and> map_of (lt_alias (lt_replay present t)) =
       (\<lambda>a. case map_of (lt_alias t) a of
              Some b \<Rightarrow> if present a \<and> present b then Some b else None
            | None \<Rightarrow> None)"
proof (cases "lt_file t")
  case None
  then have "map_of (lt_alias t) = Map.empty"
    using ok by (simp add: lt_ok_def journal_ok_def journal_text_def replay_state_def)
  then show ?thesis using None ok by (simp add: lt_replay_def)
next
  case (Some body)
  let ?A = "map_of (lt_alias t)"
  define kept where "kept = filter (\<lambda>(a, b). present a \<and> present b) (replay_state body)"
  have st: "map_of (replay_state body) = ?A"
    using ok Some by (simp add: lt_ok_def journal_ok_def journal_text_def)
  have dk: "distinct (map fst kept)"
    unfolding kept_def by (rule distinct_map_filter [OF replay_state_distinct])
  have mem: "(a, b) \<in> set kept \<longleftrightarrow> ?A a = Some b \<and> present a \<and> present b" for a b
    using map_of_eq_Some_iff [OF replay_state_distinct, of body a b] by (auto simp: kept_def st)
  then have mk: "map_of kept a = Some b \<longleftrightarrow> ?A a = Some b \<and> present a \<and> present b" for a b
    using map_of_eq_Some_iff [OF dk, of a b] by simp
  have map: "map_of kept = (\<lambda>a. case ?A a of Some b \<Rightarrow> if present a \<and> present b then Some b else None | None \<Rightarrow> None)"
    by (rule map_ext_Some) (auto simp: mk split: option.splits)
  have clean: "\<forall>e\<in>set kept. clean_entry (fst e) (snd e)" using mem ok by (auto simp: lt_ok_def)
  have up: "foldl (\<lambda>al (a, b). AList.update a b al) [] kept = kept" using foldl_update_id [of "[]" kept] dk by simp
  have rep: "lt_replay present t = t\<lparr>lt_alias := kept, lt_names := foldl (\<lambda>N (a, b). push_name b a N) Map.empty kept,
      lt_file := Some (concat (map (\<lambda>(a, b). plus_line a b @ [newline]) kept))\<rparr>"
    by (simp add: lt_replay_def Some Let_def kept_def [symmetric] up)
  have "names_ok Map.empty Map.empty" by (simp add: names_ok_def names_at_def)
  from names_ok_foldl [OF this dk] have "names_ok (lt_names (lt_replay present t)) (map_of kept)" by (simp add: rep)
  moreover have "flat (map_of kept)" using mk ok unfolding lt_ok_def flat_def by (metis not_None_eq)
  moreover have "journal_ok (lt_replay present t)"
    using replay_state_lines [OF clean] ok by (simp add: journal_ok_def journal_text_def rep up lt_ok_def)
  ultimately have "lt_ok (lt_replay present t)" using dk clean mk ok by (auto simp: lt_ok_def rep)
  then show ?thesis using map by (simp add: rep)
qed

section \<open>Properties\<close>

text \<open>The tables that the calls of the file-system layer produce, from a fresh journal:
  a link gets a new name for a resolved file, a rename goes to a name outside the
  table, and all names can be written to the journal.\<close>

inductive lt_reach :: "link_table \<Rightarrow> bool" where
  start: "lt_reach (lt_attach present None upper (lt_empty_table None))"
| add: "lt_reach t \<Longrightarrow> fresh_link (map_of (lt_alias t)) a b \<Longrightarrow> clean_entry a b \<Longrightarrow> lt_reach (lt_add a b t)"
| drop: "lt_reach t \<Longrightarrow> lt_reach (lt_drop a t)"
| promote: "lt_reach t \<Longrightarrow> lt_reach (snd (lt_promote b t))"
| rename: "lt_reach t \<Longrightarrow> \<not> lt_touches to t \<Longrightarrow>
    \<forall>p\<in>dom (map_of (lt_alias t)) \<union> ran (map_of (lt_alias t)). clean_name (moved_or_same from to p) \<Longrightarrow>
    lt_reach (rename_prefix from to t)"
| restart: "lt_reach t \<Longrightarrow> lt_reach (lt_replay present t)"

lemma lt_attach_fresh_ok: "lt_ok (lt_attach present None upper (lt_empty_table None))"
  by (simp add: lt_attach_def lt_replay_def lt_empty_table_def lt_ok_def names_ok_def names_at_def flat_def
      journal_ok_def journal_text_def replay_state_def)

lemma lt_reach_ok: "lt_reach t \<Longrightarrow> lt_ok t"
proof (induction rule: lt_reach.induct)
  case (start present upper)
  then show ?case by (rule lt_attach_fresh_ok)
next
  case (promote t b)
  show ?case
  proof (cases "lt_promote b t")
    case (Pair h t')
    then show ?thesis
      using promote lt_promote_alias [of t b "the h" t']
      by (cases h) (auto simp: lt_promote_def split: option.splits list.splits)
  qed
next
  case (rename t to "from")
  then show ?case using rename_prefix_alias by blast
next
  case (restart t present)
  then show ?case using lt_replay_correct by blast
qed (simp_all add: lx_inv)

text \<open>C13: After any sequence of link operations the reverse index lists exactly the
  aliases of each backing, no backing is itself an alias (so resolving twice is
  resolving once), and a restart that reads the journal, with \<open>present\<close> telling
  which files still exist, rebuilds exactly the aliases whose two files exist.\<close>

theorem link_table_recovers:
  assumes "lt_reach t"
  shows "names_ok (lt_names t) (backing_of t)
    \<and> lt_resolve t (lt_resolve t p) = lt_resolve t p
    \<and> backing_of (lt_attach present (lt_file t) upper (lt_empty_table None)) p =
        (case backing_of t p of
           Some b \<Rightarrow> if present p \<and> present b then Some b else None
         | None \<Rightarrow> None)"
proof -
  have ok: "lt_ok t" by (rule lt_reach_ok [OF assms])
  then have "lt_alias (lt_attach present (lt_file t) upper (lt_empty_table None)) = lt_alias (lt_replay present t)"
    by (cases "lt_file t")
      (auto simp: lt_attach_def lt_replay_def lt_empty_table_def lt_ok_def journal_ok_def journal_text_def
        replay_state_def Let_def whole_lines_def)
  moreover have "lt_resolve t (lt_resolve t p) = lt_resolve t p"
    using ok by (auto simp: lt_resolve_def backing_of_def lt_ok_def flat_def split: option.splits)
  moreover have "names_ok (lt_names t) (backing_of t)"
    using ok unfolding lt_ok_def backing_of_def by simp
  ultimately show ?thesis using lt_replay_correct [OF ok, of present] by (simp add: backing_of_def)
qed

definition demo_links :: link_table where
  "demo_links =
    lt_add ''/u/c'' ''/u/a'' (lt_add ''/u/b'' ''/u/a'' (lt_attach (\<lambda>_. True) None ''/u'' (lt_empty_table None)))"

lemma demo_links_alias: "lt_alias demo_links = [(''/u/b'', ''/u/a''), (''/u/c'', ''/u/a'')]"
  by code_simp

lemma demo_links_reach: "lt_reach demo_links"
  unfolding demo_links_def
  by (intro lt_reach.intros)
    (auto simp: lt_add_def lt_attach_def lt_replay_def lt_empty_table_def fresh_link_def
      clean_entry_def clean_name_def)

theorem link_table_recovers_witness:
  "backing_of (lt_attach (\<lambda>p. p \<noteq> ''/u/c'') (lt_file demo_links) ''/u'' (lt_empty_table None)) ''/u/b'' = Some ''/u/a''
   \<and> backing_of (lt_attach (\<lambda>p. p \<noteq> ''/u/c'') (lt_file demo_links) ''/u'' (lt_empty_table None)) ''/u/c'' = None"
  using link_table_recovers [OF demo_links_reach, of "''/u/b''" "\<lambda>p. p \<noteq> ''/u/c''" "''/u''"]
    link_table_recovers [OF demo_links_reach, of "''/u/c''" "\<lambda>p. p \<noteq> ''/u/c''" "''/u''"]
  by (simp add: backing_of_def [of demo_links] demo_links_alias)

text \<open>C14: \<open>promote\<close> hands the file to one of its aliases: the heir stops being an alias,
  every other name of the file resolves to the heir, names of other files are
  untouched, and the link count drops by the one name that went away.\<close>

theorem lt_promote_correct:
  assumes "lt_reach t" and "lt_promote backing t = (Some heir, t')"
  shows "lt_resolve t heir = backing \<and> lt_resolve t' heir = heir
    \<and> (\<forall>p. lt_resolve t p = backing \<and> p \<noteq> backing \<longrightarrow> lt_resolve t' p = heir)
    \<and> (\<forall>p. lt_resolve t p \<noteq> backing \<longrightarrow> lt_resolve t' p = lt_resolve t p)
    \<and> lt_count t' heir + 1 = lt_count t backing"
proof -
  have count: "lt_count u b = 1 + of_nat (length (names_at (lt_names u) b))" for u b
    by (simp add: lt_count_def names_at_def split: option.splits)
  note p = lt_promote_alias [OF lt_reach_ok [OF assms(1)] assms(2)]
  then have "of_nat (length (names_at (lt_names t') heir) + 1) = (of_nat (length (names_at (lt_names t) backing)) :: u32)"
    by (metis of_nat_eq_iff)
  then have "lt_count t' heir + 1 = lt_count t backing" by (simp add: count)
  then show ?thesis using p by (auto simp: lt_resolve_def backing_of_def split: option.splits)
qed

theorem lt_promote_correct_witness:
  "fst (lt_promote ''/u/a'' demo_links) = Some ''/u/b''
   \<and> lt_resolve (snd (lt_promote ''/u/a'' demo_links)) ''/u/c'' = ''/u/b''"
proof -
  have h: "fst (lt_promote ''/u/a'' demo_links) = Some ''/u/b''" by code_simp
  then have "lt_promote ''/u/a'' demo_links = (Some ''/u/b'', snd (lt_promote ''/u/a'' demo_links))"
    by (metis prod.collapse)
  from lt_promote_correct [OF demo_links_reach this] h show ?thesis
    by (simp add: lt_resolve_def [of demo_links] backing_of_def [of demo_links] demo_links_alias)
qed

text \<open>C15: \<open>rename_prefix\<close> moves the table along with a directory: two names are linked
  after the rename exactly when the names they had before were, where a name at or
  below \<open>from\<close> is carried to the same place below \<open>to\<close>.\<close>

theorem rename_prefix_correct:
  assumes "lt_reach t" and "\<not> lt_touches to t"
    and "\<forall>p\<in>dom (backing_of t) \<union> ran (backing_of t). clean_name (moved_or_same from to p)"
  shows "backing_of (rename_prefix from to t) x = Some y \<longleftrightarrow>
      (\<exists>a b. backing_of t a = Some b \<and> x = moved_or_same from to a \<and> y = moved_or_same from to b)"
proof -
  have bo: "backing_of u = map_of (lt_alias u)" for u by (simp add: backing_of_def fun_eq_iff)
  show ?thesis
    using rename_prefix_alias [OF lt_reach_ok [OF assms(1)] assms(2), of "from"] assms(3) by (simp add: bo)
qed

theorem rename_prefix_correct_witness:
  "backing_of (rename_prefix ''/u'' ''/v/w'' demo_links) ''/v/w/c'' = Some ''/v/w/a''"
proof -
  have "\<not> lt_touches ''/v/w'' demo_links" by (simp add: lt_touches_def demo_links_alias)
  moreover have "\<forall>p\<in>dom (backing_of demo_links) \<union> ran (backing_of demo_links).
      clean_name (moved_or_same ''/u'' ''/v/w'' p)"
  proof -
    have "dom (backing_of demo_links) \<union> ran (backing_of demo_links) \<subseteq> {''/u/a'', ''/u/b'', ''/u/c''}"
      by (auto simp: backing_of_def demo_links_alias ran_def split: if_splits)
    moreover have "\<forall>p\<in>{''/u/a'', ''/u/b'', ''/u/c''}. clean_name (moved_or_same ''/u'' ''/v/w'' p)"
      by (simp add: clean_name_def moved_or_same_def lt_moved_def)
    ultimately show ?thesis by blast
  qed
  ultimately have "\<And>x y. backing_of (rename_prefix ''/u'' ''/v/w'' demo_links) x = Some y \<longleftrightarrow>
      (\<exists>a b. backing_of demo_links a = Some b \<and> x = moved_or_same ''/u'' ''/v/w'' a
             \<and> y = moved_or_same ''/u'' ''/v/w'' b)"
    by (rule rename_prefix_correct [OF demo_links_reach])
  moreover have "backing_of demo_links ''/u/c'' = Some ''/u/a''"
    by (simp add: backing_of_def demo_links_alias)
  moreover have "moved_or_same ''/u'' ''/v/w'' ''/u/c'' = ''/v/w/c''" "moved_or_same ''/u'' ''/v/w'' ''/u/a'' = ''/v/w/a''"
    by (simp_all add: moved_or_same_def lt_moved_def)
  ultimately show ?thesis by metis
qed

text \<open>A tab in an alias is read back as the end of the name: the journal loses it.\<close>

lemma journal_tab_misread:
  "replay_state (plus_line ''/u/x'' ''/u/a'' @ [newline]) = [(''/u/x'', ''/u/a'')]
   \<and> replay_state (plus_line ([CHR ''/'', CHR ''x'', tab] @ ''y'') ''/a'' @ [newline])
      = [(''/x'', ''y'' @ [tab] @ ''/a'')]"
  by code_simp

end
