(* ===== verification/Lx_Classify.thy ===== *)
theory Lx_Classify
  imports Lx_Overlay Lx_MetaStore Lx_LinkTable
begin

text \<open>
  Path resolution of \<open>FileNamespace\<close> (\<open>kernel/file_namespace.hpp\<close>): \<open>classify\<close> and its
  parts, and \<open>resolve_dotdot\<close>.  The mutable members a classification can change (the host,
  the whiteouts, the metadata store) are the state \<open>ns\<close>.  The recursion of
  \<open>classify_impl\<close> through other mounts is bounded by the \<open>depth\<close> argument of the code, so
  it is a recursion on \<open>8 - depth\<close>; the 40 hops of \<open>follow_from\<close> and the depth 40 of
  \<open>physical_if_symlink\<close> are recursions on what is left of them.
\<close>

section \<open>The code\<close>

datatype realm = Rhost | Rvirtual | Rabsent

record path_class =
  pc_realm :: realm
  pc_host :: string
  pc_error :: errno
  pc_virtual :: string
  pc_whiteout :: bool

abbreviation host_backed :: "string \<Rightarrow> path_class" where
  "host_backed p \<equiv> \<lparr>pc_realm = Rhost, pc_host = p, pc_error = ENOENT, pc_virtual = [], pc_whiteout = False\<rparr>"

abbreviation absent :: "errno \<Rightarrow> path_class" where
  "absent e \<equiv> \<lparr>pc_realm = Rabsent, pc_host = [], pc_error = e, pc_virtual = [], pc_whiteout = False\<rparr>"

datatype write_intent = Copy_leaf | Parents_only | Remove

record 'h ns =
  ns_world :: "'h world"
  ns_wo :: whiteouts
  ns_meta :: meta_store

abbreviation ns_host :: "'h ns \<Rightarrow> 'h" where
  "ns_host st \<equiv> w_host (ns_world st)"

text \<open>The re-entry into \<open>classify_impl\<close> one level deeper; \<open>None\<close> at depth 8.\<close>

type_synonym 'h again = "(string \<Rightarrow> 'h ns \<Rightarrow> path_class \<times> 'h ns) option"

definition read_target :: "('h, 'd) host_ops \<Rightarrow> 'h \<Rightarrow> string \<Rightarrow> string result" where
  "read_target H h p = map_sum id (take 4095) (h_readlink H h p)"

text \<open>The loop of \<open>chase_prefix\<close>: strip components off \<open>head\<close> until one is a link.\<close>

function chase_walk ::
  "('h, 'd) host_ops \<Rightarrow> mount \<Rightarrow> (string \<Rightarrow> 'h ns \<Rightarrow> path_class \<times> 'h ns) \<Rightarrow> string \<Rightarrow> string \<Rightarrow> 'h ns \<Rightarrow>
   path_class option \<times> 'h ns" where
  "chase_walk H m f hd0 tl0 st =
    (case str_rfind slash hd0 of
       None \<Rightarrow> (None, st)
     | Some k \<Rightarrow>
         if k = 0 then (None, st)
         else let tail = drop k hd0 @ tl0; head = take k hd0 in
              case read_target H (ns_host st) head of
                Inl e \<Rightarrow> if e = ENOENT then chase_walk H m f head tail st
                         else if e = ELOOP then (Some (absent ELOOP), st)
                         else (None, st)
              | Inr target \<Rightarrow>
                  let dir = take (case str_rfind slash head of None \<Rightarrow> 0 | Some j \<Rightarrow> j + 1) head;
                      nxt = (if target \<noteq> [] \<and> hd target = slash then target
                             else host_to_guest m (dir @ target));
                      (pc, st') = f (normalize_path (nxt @ tail)) st
                  in (Some pc, st'))"
  by pat_completeness auto
termination
  by (relation "measure (\<lambda>(H, m, f, hd0, tl0, st). length hd0)") (auto dest: str_rfind_SomeD)

declare chase_walk.simps [simp del]

definition chase_prefix ::
  "('h, 'd) host_ops \<Rightarrow> mount \<Rightarrow> 'h again \<Rightarrow> bool \<Rightarrow> string \<Rightarrow> 'h ns \<Rightarrow> path_class option \<times> 'h ns" where
  "chase_prefix H m again last_hop host st =
    (case again of
       None \<Rightarrow> (Some (absent ELOOP), st)
     | Some f \<Rightarrow> if last_hop then (Some (absent ELOOP), st) else chase_walk H m f host [] st)"

text \<open>The guest path a link's target names.\<close>

definition link_guest :: "mount \<Rightarrow> string \<Rightarrow> string \<Rightarrow> string" where
  "link_guest m host target =
    (if target \<noteq> [] \<and> hd target = slash then normalize_path target
     else let base = (if mt_upper m = [] then mt_base m
                      else if starts_with host (mt_upper m) then mt_upper m else mt_base m);
              relhost = drop (length base) host;
              guest_link = (if mt_prefix m = ''/'' then relhost else mt_prefix m @ relhost);
              dir = (case str_rfind slash guest_link of None \<Rightarrow> ''/'' | Some k \<Rightarrow> take k guest_link)
          in normalize_path (dir @ ''/'' @ target))"

text \<open>\<open>follow_from\<close>; the number is what is left of the 40 hops.\<close>

fun follow_from ::
  "('h, 'd) host_ops \<Rightarrow> mount list \<Rightarrow> nat \<Rightarrow> 'h again \<Rightarrow> nat \<Rightarrow> string \<Rightarrow> string \<Rightarrow> 'h ns \<Rightarrow>
   path_class \<times> 'h ns" where
  "follow_from H ms i again 0 host pre st = (absent ELOOP, st)"
| "follow_from H ms i again (Suc r) host pre st =
    (case (if pre \<noteq> [] then Inr pre else read_target H (ns_host st) host) of
       Inl e \<Rightarrow>
         if e = ENOENT \<or> e = ELOOP then
           (case chase_prefix H (ms ! i) again (r = 0) host st of
              (Some pc, st') \<Rightarrow> (pc, st')
            | (None, st') \<Rightarrow> (host_backed host, st'))
         else (host_backed host, st)
     | Inr target \<Rightarrow>
         let m = ms ! i; guest_abs = link_guest m host target in
         if deepest ms guest_abs \<noteq> Some i then
           (case again of None \<Rightarrow> (absent ELOOP, st) | Some f \<Rightarrow> f guest_abs st)
         else let rel = mount_rel m guest_abs;
                  lo = join_host (mt_base m) rel
              in if mt_upper m = [] then follow_from H ms i again r lo [] st
                 else let up = join_host (mt_upper m) rel
                      in (case probe_link H (ns_host st) up of
                            Psymlink next \<Rightarrow> follow_from H ms i again r up next st
                          | Pabsent \<Rightarrow> follow_from H ms i again r lo [] st
                          | _ \<Rightarrow> (host_backed up, st)))"

definition record_widened :: "string \<Rightarrow> widened \<Rightarrow> meta_store \<Rightarrow> meta_store" where
  "record_widened ap wid mt =
    fold (\<lambda>(tail, real) mt. if tail \<le> length ap
            then set_mode (take (length ap - tail) ap) real no_id mt else mt) wid mt"

text \<open>The write branch of an overlay mount.\<close>

definition classify_write ::
  "('h, 'd) host_ops \<Rightarrow> mount \<Rightarrow> string \<Rightarrow> write_intent \<Rightarrow> 'h ns \<Rightarrow> path_class \<times> 'h ns" where
  "classify_write H m ap wi st =
    (let rel = mount_rel m ap; up = join_host (mt_upper m) rel; lo = join_host (mt_base m) rel in
     if wi = Remove then
       (if h_exists H (ns_host st) up then
          ((host_backed up)\<lparr>pc_whiteout := h_exists H (ns_host st) lo\<rparr>, st)
        else if is_whiteout (ns_wo st) ap \<or> \<not> h_exists H (ns_host st) lo then (absent ENOENT, st)
        else ((absent ENOENT)\<lparr>pc_whiteout := True\<rparr>, st))
     else let (w, wid) = (if wi = Parents_only then mirror_parents_from_lower H up lo (ns_world st, [])
                          else copy_up H up lo (ns_world st, []))
          in (host_backed up,
              st\<lparr>ns_world := w, ns_meta := record_widened ap wid (ns_meta st),
                 ns_wo := clear_whiteout_if_any ap (ns_wo st)\<rparr>))"

text \<open>\<open>classify_impl\<close> with its recursive call as an argument.\<close>

definition classify_step ::
  "('h, 'd) host_ops \<Rightarrow> mount list \<Rightarrow> 'h again \<Rightarrow> string \<Rightarrow> bool \<Rightarrow> bool \<Rightarrow> write_intent \<Rightarrow> 'h ns \<Rightarrow>
   path_class \<times> 'h ns" where
  "classify_step H ms again ap for_write follow wi st =
    (case deepest ms ap of
       None \<Rightarrow> (absent ENOENT, st)
     | Some i \<Rightarrow>
         let m = ms ! i; rel = mount_rel m ap; lo = join_host (mt_base m) rel in
         case mt_producer m of
           Some pr \<Rightarrow>
             (case pr ap of
                Inl e \<Rightarrow> (absent e, st)
              | Inr vf \<Rightarrow>
                  if vf_redirect vf \<noteq> [] then (host_backed (vf_redirect vf), st)
                  else (\<lparr>pc_realm = Rvirtual, pc_host = [], pc_error = ENOENT, pc_virtual = ap,
                         pc_whiteout = False\<rparr>, st))
         | None \<Rightarrow>
             if mt_upper m \<noteq> [] then
               (if for_write then classify_write H m ap wi st
                else let up = join_host (mt_upper m) rel;
                         p = probe_link H (ns_host st) up
                     in if p = Pabsent \<and> wo_set (ns_wo st) \<noteq> [] \<and> is_whiteout (ns_wo st) ap
                        then (absent ENOENT, st)
                        else if p = Pabsent then
                          (if follow then follow_from H ms i again 40 lo [] st else (host_backed lo, st))
                        else (case p of
                                Psymlink target \<Rightarrow>
                                  if follow then follow_from H ms i again 40 up target st
                                  else (host_backed up, st)
                              | _ \<Rightarrow> (host_backed up, st)))
             else if follow then follow_from H ms i again 40 lo [] st
             else (host_backed lo, st))"

primrec classify_left ::
  "('h, 'd) host_ops \<Rightarrow> mount list \<Rightarrow> nat \<Rightarrow> string \<Rightarrow> bool \<Rightarrow> bool \<Rightarrow> write_intent \<Rightarrow> 'h ns \<Rightarrow>
   path_class \<times> 'h ns" where
  "classify_left H ms 0 ap for_write follow wi st = classify_step H ms None ap for_write follow wi st"
| "classify_left H ms (Suc r) ap for_write follow wi st =
    classify_step H ms (Some (\<lambda>p st'. classify_left H ms r p for_write True wi st')) ap for_write follow wi st"

definition classify_impl ::
  "('h, 'd) host_ops \<Rightarrow> mount list \<Rightarrow> string \<Rightarrow> bool \<Rightarrow> bool \<Rightarrow> write_intent \<Rightarrow> nat \<Rightarrow> 'h ns \<Rightarrow>
   path_class \<times> 'h ns" where
  "classify_impl H ms ap for_write follow wi depth st = classify_left H ms (8 - depth) ap for_write follow wi st"

definition classify_name ::
  "('h, 'd) host_ops \<Rightarrow> mount list \<Rightarrow> string \<Rightarrow> bool \<Rightarrow> bool \<Rightarrow> write_intent \<Rightarrow> 'h ns \<Rightarrow> path_class \<times> 'h ns" where
  "classify_name H ms ap for_write follow wi st = classify_impl H ms ap for_write follow wi 0 st"

definition classify ::
  "('h, 'd) host_ops \<Rightarrow> mount list \<Rightarrow> link_table \<Rightarrow> string \<Rightarrow> bool \<Rightarrow> bool \<Rightarrow> write_intent \<Rightarrow> 'h ns \<Rightarrow>
   path_class \<times> 'h ns" where
  "classify H ms lt ap for_write follow wi st =
    (let (pc, st') = classify_impl H ms ap for_write follow wi 0 st
     in (if \<not> lt_empty lt \<and> pc_realm pc = Rhost \<and> wi \<noteq> Remove
         then (case backing_of lt (pc_host pc) of None \<Rightarrow> pc | Some b \<Rightarrow> pc\<lparr>pc_host := b\<rparr>)
         else pc, st'))"

section \<open>Reads change nothing\<close>

definition pure_again :: "'h again \<Rightarrow> bool" where
  "pure_again again \<longleftrightarrow> (case again of None \<Rightarrow> True | Some f \<Rightarrow> \<forall>p st. snd (f p st) = st)"

lemma chase_walk_pure:
  "(\<And>p st. snd (f p st) = st) \<Longrightarrow> snd (chase_walk H m f hd0 tl0 st) = st"
proof (induction H m f hd0 tl0 st rule: chase_walk.induct)
  case (1 H m f hd0 tl0 st)
  show ?case
  proof (cases "str_rfind slash hd0")
    case (Some k)
    then show ?thesis
      using 1 by (subst chase_walk.simps) (auto simp: Let_def split_def split: sum.splits)
  qed (simp add: chase_walk.simps)
qed

lemma chase_prefix_pure: "pure_again again \<Longrightarrow> snd (chase_prefix H m again b host st) = st"
  by (simp add: chase_prefix_def pure_again_def chase_walk_pure split: option.splits)

lemma follow_from_pure:
  assumes "pure_again again"
  shows "snd (follow_from H ms i again r host pre st) = st"
proof (induction r arbitrary: host pre)
  case (Suc r)
  show ?case
  proof (cases "if pre \<noteq> [] then Inr pre else read_target H (ns_host st) host")
    case (Inl e)
    show ?thesis
      using chase_prefix_pure [OF assms, of H "ms ! i" "r = 0" host st]
      by (cases "chase_prefix H (ms ! i) again (r = 0) host st") (simp add: Inl split: option.split)
  next
    case (Inr target)
    have a: "snd (f p st) = st" if "again = Some f" for f p
      using assms that by (simp add: pure_again_def)
    show ?thesis
      by (simp add: Inr Let_def Suc.IH a split: option.split probe.split)
  qed
qed simp

lemma classify_step_pure:
  assumes "pure_again again"
  shows "snd (classify_step H ms again ap False follow wi st) = st"
proof (cases "deepest ms ap")
  case (Some i)
  note f = follow_from_pure [OF assms]
  show ?thesis
  proof (cases "mt_producer (ms ! i)")
    case None
    then show ?thesis
      by (cases "probe_link H (ns_host st) (join_host (mt_upper (ms ! i)) (mount_rel (ms ! i) ap))")
        (simp_all add: classify_step_def Some Let_def f)
  next
    case (Some pr)
    then show ?thesis
      by (cases "pr ap") (simp_all add: classify_step_def \<open>deepest ms ap = Some i\<close> Let_def)
  qed
qed (simp add: classify_step_def)

lemma classify_left_pure: "snd (classify_left H ms r ap False follow wi st) = st"
proof (induction r arbitrary: ap follow st)
  case (Suc r)
  then show ?case by (simp add: classify_step_pure pure_again_def)
qed (simp add: classify_step_pure pure_again_def)

section \<open>Where a path can end up\<close>

definition mount_ok :: "mount \<Rightarrow> bool" where
  "mount_ok m \<longleftrightarrow> canonical_path (mt_prefix m)
     \<and> (mt_producer m = None \<longrightarrow>
          canonical_path (mt_base m) \<and> (mt_upper m = [] \<or> canonical_path (mt_upper m)))"

text \<open>A host path with the components of a layer in front.\<close>

definition in_layer :: "mount \<Rightarrow> string \<Rightarrow> bool" where
  "in_layer m h \<longleftrightarrow> (\<exists>base cs. base \<in> {mt_base m, mt_upper m} \<and> base \<noteq> [] \<and> list_all valid_comp cs
      \<and> h = render_path (comps_of base @ cs))"

definition served_path :: "mount list \<Rightarrow> string \<Rightarrow> bool" where
  "served_path ms p \<longleftrightarrow>
    (\<exists>m\<in>set ms. mt_producer m = None \<and> in_layer m p)
    \<or> (\<exists>m\<in>set ms. \<exists>f q vf. mt_producer m = Some f \<and> f q = Inr vf \<and> vf_redirect vf = p)"

text \<open>Only a host-backed class carries a host path, and a virtual one names a canonical path.\<close>

definition served :: "mount list \<Rightarrow> path_class \<Rightarrow> bool" where
  "served ms pc \<longleftrightarrow>
    (if pc_realm pc = Rhost then served_path ms (pc_host pc) else pc_host pc = [])
    \<and> (pc_virtual pc = [] \<or> canonical_path (pc_virtual pc))"

lemma served_absent [simp]: "served ms (absent e)"
  by (simp add: served_def)

lemma served_layer: "m \<in> set ms \<Longrightarrow> mt_producer m = None \<Longrightarrow> in_layer m h \<Longrightarrow> served ms (host_backed h)"
  by (auto simp: served_def served_path_def)

definition served_again :: "mount list \<Rightarrow> 'h again \<Rightarrow> bool" where
  "served_again ms again \<longleftrightarrow>
    (case again of None \<Rightarrow> True | Some f \<Rightarrow> \<forall>p st. canonical_path p \<longrightarrow> served ms (fst (f p st)))"

lemma chase_walk_served:
  "(\<And>p st. canonical_path p \<Longrightarrow> served ms (fst (f p st))) \<Longrightarrow>
   fst (chase_walk H m f hd0 tl0 st) = Some pc \<Longrightarrow> served ms pc"
proof (induction H m f hd0 tl0 st rule: chase_walk.induct)
  case (1 H m f hd0 tl0 st)
  show ?case
  proof (cases "str_rfind slash hd0")
    case (Some k)
    note walk = 1(3) [unfolded chase_walk.simps [of H m f hd0 tl0 st]]
    show ?thesis
      using walk 1(1) [OF Some _ refl refl _ _ 1(2)] 1(2) normalize_path_canonical Some
      by (auto simp: Let_def split_def split: sum.splits if_splits)
  next
    case None
    then show ?thesis using 1(3) by (simp add: chase_walk.simps)
  qed
qed

lemma chase_prefix_served:
  "served_again ms again \<Longrightarrow> fst (chase_prefix H m again b host st) = Some pc \<Longrightarrow> served ms pc"
  using chase_walk_served [of ms _ H m host "[]" st pc]
  by (auto simp: chase_prefix_def served_again_def split: option.splits if_splits)

lemma link_guest_canonical: "canonical_path (link_guest m host target)"
  by (simp add: link_guest_def Let_def normalize_path_canonical)

lemma in_layer_join:
  assumes "mount_ok m" "mt_producer m = None" "canonical_path p" "mount_match m p"
  shows "in_layer m (join_host (mt_base m) (mount_rel m p))"
    and "mt_upper m \<noteq> [] \<Longrightarrow> in_layer m (join_host (mt_upper m) (mount_rel m p))"
proof -
  have c: "canonical_path (mt_prefix m)" "canonical_path (mt_base m)" "mt_upper m \<noteq> [] \<Longrightarrow> canonical_path (mt_upper m)"
    using assms(1,2) by (auto simp: mount_ok_def)
  have ne: "q \<noteq> []" if "canonical_path q" for q
    using that render_Cons [of "comps_of q"] by (metis canonical_path_def list.distinct(1))
  have v: "list_all valid_comp (rel_comps m p)" by (rule mount_rel_render(2) [OF c(1) assms(3,4)])
  show "in_layer m (join_host (mt_base m) (mount_rel m p))"
    using translate_render [OF c(1) assms(3,4) c(2)] v ne [OF c(2)] unfolding in_layer_def by blast
  show "in_layer m (join_host (mt_upper m) (mount_rel m p))" if "mt_upper m \<noteq> []"
    using translate_render [OF c(1) assms(3,4) c(3) [OF that]] v that unfolding in_layer_def by blast
qed

lemma follow_from_served:
  assumes "i < length ms" "mount_ok (ms ! i)" "mt_producer (ms ! i) = None" "served_again ms again"
  shows "in_layer (ms ! i) host \<Longrightarrow> served ms (fst (follow_from H ms i again r host pre st))"
proof (induction r arbitrary: host pre)
  case (Suc r)
  have host: "served ms (host_backed host)" using Suc.prems assms nth_mem served_layer by blast
  show ?case
  proof (cases "if pre \<noteq> [] then Inr pre else read_target H (ns_host st) host")
    case (Inl e)
    show ?thesis
    proof (cases "chase_prefix H (ms ! i) again (r = 0) host st")
      case (Pair x st')
      then show ?thesis
        using chase_prefix_served [OF assms(4), of H "ms ! i" "r = 0" host st]
        by (cases x) (simp_all add: Inl host)
    qed
  next
    case (Inr target)
    let ?g = "link_guest (ms ! i) host target"
    show ?thesis
    proof (cases "deepest ms ?g = Some i")
      case True
      have match: "mount_match (ms ! i) ?g" using deepest_Some [OF True] by simp
      note lay = in_layer_join [OF assms(2,3) link_guest_canonical match]
      have up: "served ms (host_backed (join_host (mt_upper (ms ! i)) (mount_rel (ms ! i) ?g)))"
        if "mt_upper (ms ! i) \<noteq> []"
        using lay(2) [OF that] assms(1,3) nth_mem served_layer by blast
      show ?thesis
        using Suc.IH [OF lay(1)] Suc.IH [OF lay(2)] up
        by (simp add: Inr True Let_def split: probe.splits)
    next
      case False
      then show ?thesis
        using assms(4) link_guest_canonical [of "ms ! i" host target]
        by (auto simp: Inr Let_def served_again_def split: option.splits)
    qed
  qed
qed simp

lemma classify_write_served:
  assumes "m \<in> set ms" "mount_ok m" "mt_producer m = None" "mt_upper m \<noteq> []" "canonical_path ap" "mount_match m ap"
  shows "served ms (fst (classify_write H m ap wi st))"
proof -
  have "served ms (host_backed (join_host (mt_upper m) (mount_rel m ap)))"
    using in_layer_join(2) [OF assms(2,3,5,6,4)] assms(1,3) served_layer by blast
  then show ?thesis
    by (auto simp: classify_write_def Let_def split_def served_def)
qed

lemma classify_step_served:
  assumes ms: "list_all mount_ok ms" and ap: "canonical_path ap" and ag: "served_again ms again"
  shows "served ms (fst (classify_step H ms again ap for_write follow wi st))"
proof (cases "deepest ms ap")
  case (Some i)
  let ?m = "ms ! i"
  have i: "i < length ms" "mount_match ?m ap" using deepest_Some [OF Some] by auto
  have ok: "mount_ok ?m" and mem: "?m \<in> set ms" using ms i by (auto simp: list_all_length)
  show ?thesis
  proof (cases "mt_producer ?m")
    case None
    note lay = in_layer_join [OF ok None ap i(2)]
    have lo: "served ms (host_backed (join_host (mt_base ?m) (mount_rel ?m ap)))"
      and up: "mt_upper ?m \<noteq> [] \<Longrightarrow> served ms (host_backed (join_host (mt_upper ?m) (mount_rel ?m ap)))"
      using lay mem None served_layer by blast+
    note ff = follow_from_served [OF i(1) ok None ag, where H = H and st = st]
    show ?thesis
      using lo up ff [OF lay(1)] ff [OF lay(2)] classify_write_served [OF mem ok None _ ap i(2), where H = H and st = st] None
      by (cases "probe_link H (ns_host st) (join_host (mt_upper ?m) (mount_rel ?m ap))")
        (simp_all add: classify_step_def Some Let_def)
  next
    case (Some pr)
    have "served ms (host_backed (vf_redirect vf))" if "pr ap = Inr vf" for vf
      using mem Some that unfolding served_def served_path_def by simp blast
    moreover have "served ms \<lparr>pc_realm = Rvirtual, pc_host = [], pc_error = ENOENT, pc_virtual = ap,
        pc_whiteout = False\<rparr>" by (simp add: served_def ap)
    ultimately show ?thesis
      using Some by (cases "pr ap") (simp_all add: classify_step_def \<open>deepest ms ap = Some i\<close> Let_def)
  qed
qed (simp add: classify_step_def)

lemma classify_left_served:
  assumes "list_all mount_ok ms"
  shows "canonical_path ap \<Longrightarrow> served ms (fst (classify_left H ms r ap for_write follow wi st))"
proof (induction r arbitrary: ap follow st)
  case 0
  then show ?case using classify_step_served [OF assms, of ap None] by (simp add: served_again_def)
next
  case (Suc r)
  let ?f = "\<lambda>p st'. classify_left H ms r p for_write True wi st'"
  have "served_again ms (Some ?f)" using Suc.IH by (simp add: served_again_def)
  then show ?case using classify_step_served [OF assms Suc.prems] by simp
qed

section \<open>Chains of links inside one mount\<close>

text \<open>One hop of \<open>follow_from\<close> that stays in the mount: from a host path and a target already
  read to the next pair.\<close>

definition link_hop ::
  "('h, 'd) host_ops \<Rightarrow> mount list \<Rightarrow> nat \<Rightarrow> 'h \<Rightarrow> string \<times> string \<Rightarrow> (string \<times> string) option" where
  "link_hop H ms i h s =
    (let (host, pre) = s; m = ms ! i in
     case (if pre \<noteq> [] then Inr pre else read_target H h host) of
       Inl _ \<Rightarrow> None
     | Inr target \<Rightarrow>
         let g = link_guest m host target; rel = mount_rel m g in
         if deepest ms g \<noteq> Some i then None
         else if mt_upper m = [] then Some (join_host (mt_base m) rel, [])
         else (case probe_link H h (join_host (mt_upper m) rel) of
                 Psymlink next \<Rightarrow> Some (join_host (mt_upper m) rel, next)
               | Pabsent \<Rightarrow> Some (join_host (mt_base m) rel, [])
               | _ \<Rightarrow> None))"

fun link_hops :: "('h, 'd) host_ops \<Rightarrow> mount list \<Rightarrow> nat \<Rightarrow> 'h \<Rightarrow> nat \<Rightarrow> string \<times> string \<Rightarrow> (string \<times> string) option" where
  "link_hops H ms i h 0 s = Some s"
| "link_hops H ms i h (Suc n) s = Option.bind (link_hop H ms i h s) (link_hops H ms i h n)"

lemma follow_from_hop:
  "link_hop H ms i (ns_host st) (host, pre) = Some (host', pre') \<Longrightarrow>
   follow_from H ms i again (Suc r) host pre st = follow_from H ms i again r host' pre' st"
  by (auto simp: link_hop_def Let_def split: sum.splits if_splits probe.splits)

lemma follow_from_hops:
  "link_hops H ms i (ns_host st) n (host, pre) = Some (host', pre') \<Longrightarrow> n \<le> r \<Longrightarrow>
   follow_from H ms i again r host pre st = follow_from H ms i again (r - n) host' pre' st"
proof (induction n arbitrary: r host pre)
  case (Suc n)
  obtain h1 p1 where h: "link_hop H ms i (ns_host st) (host, pre) = Some (h1, p1)"
    "link_hops H ms i (ns_host st) n (h1, p1) = Some (host', pre')"
    using Suc.prems(1) by (auto simp: bind_eq_Some_conv)
  obtain q where "r = Suc q" "n \<le> q" using Suc.prems(2) by (cases r) auto
  then show ?case using Suc.IH [OF h(2), of q] follow_from_hop [OF h(1)] by simp
qed simp

section \<open>Dots after links\<close>

text \<open>The loop of \<open>resolve_dotdot\<close>; the empty string stands for \<open>/\<close>, \<open>phys\<close> is
  \<open>physical_if_symlink\<close>, and \<open>None\<close> is the \<open>std::length_error\<close> of \<open>resize(npos)\<close>.\<close>

definition pop_physical :: "(string \<Rightarrow> string option) \<Rightarrow> string \<Rightarrow> string option" where
  "pop_physical phys cur =
    (case phys cur of
       None \<Rightarrow> None
     | Some p \<Rightarrow>
         let cur2 = (if p \<noteq> [] then (if p = ''/'' then [] else p) else cur)
         in map_option (\<lambda>k. take k cur2) (str_rfind slash cur2))"

fun dotdot_loop :: "(string \<Rightarrow> string option) \<Rightarrow> string \<Rightarrow> string list \<Rightarrow> string option" where
  "dotdot_loop phys cur [] = Some (if cur = [] then ''/'' else cur)"
| "dotdot_loop phys cur (c # cs) =
    (if c = ''.'' then dotdot_loop phys cur cs
     else if c \<noteq> ''..'' then dotdot_loop phys (cur @ ''/'' @ c) cs
     else if cur = [] then dotdot_loop phys cur cs
     else Option.bind (pop_physical phys cur) (\<lambda>cur2. dotdot_loop phys cur2 cs))"

fun has_dotdot :: "string \<Rightarrow> bool" where
  "has_dotdot (a # b # s) \<longleftrightarrow> a = CHR ''.'' \<and> b = CHR ''.'' \<or> has_dotdot (b # s)"
| "has_dotdot _ \<longleftrightarrow> False"

definition resolve_with :: "(string \<Rightarrow> string option) \<Rightarrow> string \<Rightarrow> string option" where
  "resolve_with phys p =
    (if \<not> has_dotdot p then Some (normalize_path p) else dotdot_loop phys [] (comps_of p))"

text \<open>\<open>physical_if_symlink\<close> over the classification of a name without following it; the
  number is what is left of the depth.\<close>

primrec physical_if_symlink ::
  "(string \<Rightarrow> path_class) \<Rightarrow> (string \<Rightarrow> string result) \<Rightarrow> nat \<Rightarrow> string \<Rightarrow> string option" where
  "physical_if_symlink cls rl 0 ap = Some []"
| "physical_if_symlink cls rl (Suc r) ap =
    (let lc = cls ap in
     if pc_realm lc \<noteq> Rhost \<or> pc_host lc = [] then Some []
     else case rl (pc_host lc) of
            Inl _ \<Rightarrow> Some []
          | Inr t \<Rightarrow>
              if t = [] then Some []
              else let nxt = (if hd t = slash then t
                              else (case str_rfind slash ap of None \<Rightarrow> ap | Some k \<Rightarrow> take k ap) @ ''/'' @ t)
                   in Option.bind (resolve_with (physical_if_symlink cls rl r) nxt)
                        (\<lambda>n. map_option (\<lambda>d. if d = [] then n else d) (physical_if_symlink cls rl r n)))"

definition resolve_dotdot :: "('h, 'd) host_ops \<Rightarrow> mount list \<Rightarrow> link_table \<Rightarrow> 'h ns \<Rightarrow> nat \<Rightarrow> string \<Rightarrow> string option" where
  "resolve_dotdot H ms lt st depth p =
    resolve_with (physical_if_symlink (\<lambda>ap. fst (classify H ms lt ap False False Copy_leaf st))
      (read_target H (ns_host st)) (41 - depth)) p"

text \<open>\<open>absolutize\<close>; \<open>cwd\<close> is the caller's working directory.\<close>

definition absolutize ::
  "('h, 'd) host_ops \<Rightarrow> mount list \<Rightarrow> link_table \<Rightarrow> 'h ns \<Rightarrow> string \<Rightarrow> string \<Rightarrow> string \<Rightarrow> string option" where
  "absolutize H ms lt st cwd path dir_path =
    (if path \<noteq> [] \<and> hd path = slash then resolve_dotdot H ms lt st 0 path
     else let base = (if dir_path = [] then cwd else dir_path);
              base2 = (if base = [] then ''/'' else base);
              base3 = (if last base2 \<noteq> slash then base2 @ ''/'' else base2)
          in resolve_dotdot H ms lt st 0 (base3 @ path))"

lemma pop_physical_plain:
  assumes "cs \<noteq> []" "list_all plain_comp cs" "phys (render_path cs) = Some []"
  shows "pop_physical phys (render_path cs) =
           Some (if butlast cs = [] then [] else render_path (butlast cs))"
proof -
  obtain bs b where cs: "cs = bs @ [b]" using assms(1) by (cases cs rule: rev_cases) auto
  then have b: "slash \<notin> set b" using assms(2) by (simp add: plain_comp_def)
  show ?thesis
  proof (cases "bs = []")
    case True
    then show ?thesis
      using assms(3) b str_rfind_append [of slash b "[]"]
      by (simp add: pop_physical_def cs render_path_def)
  next
    case False
    then show ?thesis
      using assms(3) b str_rfind_append [of slash b "render_path bs"]
      by (simp add: pop_physical_def cs render_snoc)
  qed
qed

lemma dotdot_loop_plain:
  assumes "\<And>p. phys p = Some []" "list_all plain_comp cs"
  shows "list_all plain_comp st \<Longrightarrow>
    dotdot_loop phys (if st = [] then [] else render_path st) cs = Some (render_path (foldl comp_step st cs))"
  using assms(2)
proof (induction cs arbitrary: st)
  case Nil
  then show ?case using render_length [of st] by (cases "st = []") (auto simp: render_path_def)
next
  case (Cons c cs)
  have ne: "st \<noteq> [] \<Longrightarrow> render_path st \<noteq> []" by (metis list.distinct(1) render_Cons)
  have st: "list_all plain_comp (comp_step st c)" using Cons.prems comp_step_plain by simp
  have IH: "dotdot_loop phys (if comp_step st c = [] then [] else render_path (comp_step st c)) cs =
      Some (render_path (foldl comp_step (comp_step st c) cs))"
    using Cons.IH [OF st] Cons.prems(2) by simp
  have push: "(if st = [] then [] else render_path st) @ ''/'' @ c = render_path (st @ [c])"
    by (simp add: render_snoc)
  have pop: "st \<noteq> [] \<Longrightarrow> pop_physical phys (render_path st) =
      Some (if butlast st = [] then [] else render_path (butlast st))"
    by (rule pop_physical_plain [OF _ Cons.prems(1) assms(1)])
  show ?case
    using IH ne pop push by (auto simp: comp_step_def [of st c] split: if_splits)
qed

lemma resolve_with_plain:
  assumes "\<And>p. phys p = Some []"
  shows "resolve_with phys p = Some (normalize_path p)"
  using dotdot_loop_plain [where phys = phys and st = "[]" and cs = "comps_of p"] assms comps_of_plain [of p]
  by (simp add: resolve_with_def normalize_path_refines resolve_comps_def)

section \<open>Divergences\<close>

text \<open>A disk with links: \<open>/l\<close> in the upper layer leads to a file of the lower layer that
  was removed, \<open>/r\<close> to the root, \<open>/s\<close> to itself.\<close>

definition link_disk :: demo_fs where
  "link_disk =
    [(''/up'', Hdir 0x1ED []), (''/up/l'', Hlink ''/gone''), (''/up/r'', Hlink ''/''), (''/up/s'', Hlink ''/s''),
     (''/lo'', Hdir 0x1ED []), (''/lo/gone'', Hfile 0x1A4 []), (''/lo/a'', Hlink ''b''), (''/lo/b'', Hfile 0x1A4 [])]"

definition link_mounts :: "mount list" where
  "link_mounts = [mount_host_entry ''/'' ''/'' ''/lo'' ''/up'']"

definition link_ns :: "demo_fs ns" where
  "link_ns = \<lparr>ns_world = \<lparr>w_host = link_disk, w_calls = []\<rparr>,
     ns_wo = add_whiteout ''/gone'' (wo_fresh ''/up''), ns_meta = ms_fresh\<rparr>"

text \<open>The whiteout of a removed file is not consulted when a link leads to it.\<close>

lemma whiteout_bypassed_by_link:
  "fst (classify_name demo_host link_mounts ''/gone'' False True Copy_leaf link_ns) = absent ENOENT
   \<and> fst (classify_name demo_host link_mounts ''/l'' False True Copy_leaf link_ns) = host_backed ''/lo/gone''"
  by code_simp

text \<open>With write intent an overlay mount ignores \<open>follow\<close>: the path handed out is the link.\<close>

lemma classify_write_ignores_follow:
  assumes "deepest ms ap = Some i" "mt_producer (ms ! i) = None" "mt_upper (ms ! i) \<noteq> []"
  shows "classify_step H ms again ap True follow wi st = classify_write H (ms ! i) ap wi st"
  using assms by (simp add: classify_step_def Let_def)

text \<open>\<open>..\<close> after a link to the root: the string left is empty, it has no separator, and
  \<open>resize\<close> is called with \<open>npos\<close>.\<close>

lemma dotdot_after_root_link:
  "resolve_dotdot demo_host link_mounts (lt_empty_table None) link_ns 0 ''/r/../etc'' = None"
  by code_simp

lemma classify_left_write:
  assumes "deepest ms ap = Some i" "mt_producer (ms ! i) = None" "mt_upper (ms ! i) \<noteq> []"
  shows "classify_left H ms r ap True follow wi st = classify_write H (ms ! i) ap wi st"
  by (cases r) (simp_all add: classify_write_ignores_follow [OF assms])

lemma read_overlay:
  assumes "deepest ms ap = Some i" "mt_producer (ms ! i) = None" "mt_upper (ms ! i) \<noteq> []"
    and "up = join_host (mt_upper (ms ! i)) (mount_rel (ms ! i) ap)"
    and "lo = join_host (mt_base (ms ! i)) (mount_rel (ms ! i) ap)"
  shows "fst (classify_left H ms r ap False False wi st) =
    (if probe_link H (ns_host st) up \<noteq> Pabsent then host_backed up
     else if is_whiteout (ns_wo st) ap then absent ENOENT else host_backed lo)"
  using assms
  by (cases r; cases "probe_link H (ns_host st) up") (auto simp: classify_step_def Let_def is_whiteout_def)

section \<open>Properties\<close>

text \<open>C18: Classification is confined and reads are pure: with a well-formed mount table, every
  host path that \<open>classify_name\<close> hands out, through any chain of links and mounts,
  consists of the components of a layer of a host mount followed by ordinary components
  (no dots, so it is inside the layer), unless a virtual mount's producer redirected to
  it, and a class that is not host-backed carries no host path; and a classification without write intent leaves the host, the whiteouts and the
  metadata as they were.\<close>

theorem classify_confined:
  assumes "list_all mount_ok ms" and "canonical_path ap"
  shows "served ms (fst (classify_name H ms ap for_write follow wi st))
    \<and> snd (classify_name H ms ap False follow wi st) = st"
  by (simp add: classify_name_def classify_impl_def classify_left_served [OF assms] classify_left_pure)

theorem classify_confined_witness:
  "\<exists>m\<in>set link_mounts. in_layer m (pc_host (fst (classify_name demo_host link_mounts ''/a'' False True Copy_leaf link_ns)))"
proof -
  have "list_all mount_ok link_mounts" "canonical_path ''/a''" by code_simp+
  note T = classify_confined [OF this, of demo_host False True Copy_leaf link_ns]
  have "pc_realm (fst (classify_name demo_host link_mounts ''/a'' False True Copy_leaf link_ns)) = Rhost" by code_simp
  moreover have "\<forall>m\<in>set link_mounts. mt_producer m = None" by (simp add: link_mounts_def)
  ultimately show ?thesis using T unfolding served_def served_path_def by (metis option.distinct(1))
qed

text \<open>C19: Write intent on an overlay mount.  Creating or changing a path gives the path in the
  upper layer, whether or not it is a link, lifts the whiteout of that path and of no
  other, and issues host changes only at that path and its ancestors.  Removing changes
  nothing by itself: the answer is the upper path if it exists there, with a whiteout
  requested when the lower layer has it too; a whiteout alone if only the lower layer has
  it and it is still visible; and \<open>ENOENT\<close> otherwise.  The lower path is never handed
  out.\<close>

theorem classify_write_overlay:
  assumes "deepest ms ap = Some i" "mt_producer (ms ! i) = None" "mt_upper (ms ! i) \<noteq> []"
    and "up = join_host (mt_upper (ms ! i)) (mount_rel (ms ! i) ap)"
    and "lo = join_host (mt_base (ms ! i)) (mount_rel (ms ! i) ap)"
    and "classify_name H ms ap True follow wi st = (pc, st')"
  shows "if wi = Remove
    then st' = st \<and>
      pc = (if h_exists H (ns_host st) up then (host_backed up)\<lparr>pc_whiteout := h_exists H (ns_host st) lo\<rparr>
            else (absent ENOENT)\<lparr>pc_whiteout := h_exists H (ns_host st) lo \<and> \<not> is_whiteout (ns_wo st) ap\<rparr>)
    else pc = host_backed up
      \<and> (\<forall>q. is_whiteout (ns_wo st') q \<longleftrightarrow> q \<noteq> ap \<and> is_whiteout (ns_wo st) q)
      \<and> extends (ns_world st) (ns_world st') (\<lambda>c. under_dir (call_path c) up)"
proof -
  have cw: "classify_write H (ms ! i) ap wi st = (pc, st')"
    using assms(6) by (simp add: classify_name_def classify_impl_def classify_left_write [OF assms(1-3)])
  show ?thesis
  proof (cases "wi = Remove")
    case True
    then show ?thesis
      using cw by (auto simp: classify_write_def Let_def assms(4,5) split: if_splits)
  next
    case False
    define r where "r = (if wi = Parents_only then mirror_parents_from_lower H up lo (ns_world st, [])
      else copy_up H up lo (ns_world st, []))"
    have "extends (ns_world st) (fst r) (\<lambda>c. under_dir (call_path c) up)"
      using mirror_parents_calls [of "(ns_world st, [])" H up lo] copy_up_calls [of "(ns_world st, [])" H up lo]
      by (simp add: r_def)
    moreover have "(pc, st') = (host_backed up, st\<lparr>ns_world := fst r, ns_meta := record_widened ap (snd r) (ns_meta st),
        ns_wo := clear_whiteout_if_any ap (ns_wo st)\<rparr>)"
      using cw False unfolding classify_write_def assms(4,5) r_def by (simp add: Let_def split_def)
    ultimately show ?thesis using False by simp
  qed
qed

theorem classify_write_overlay_witness:
  "fst (classify_name demo_host link_mounts ''/gone'' True True Parents_only link_ns) = host_backed ''/up/gone''
   \<and> \<not> is_whiteout (ns_wo (snd (classify_name demo_host link_mounts ''/gone'' True True Parents_only link_ns))) ''/gone''
   \<and> pc_whiteout (fst (classify_name demo_host link_mounts ''/b'' True True Remove link_ns))"
proof -
  have m: "deepest link_mounts ''/gone'' = Some 0" "deepest link_mounts ''/b'' = Some 0"
    "mt_producer (link_mounts ! 0) = None" "mt_upper (link_mounts ! 0) \<noteq> []"
    by code_simp+
  have p: "join_host (mt_upper (link_mounts ! 0)) (mount_rel (link_mounts ! 0) ''/gone'') = ''/up/gone''" by code_simp
  have b: "\<not> h_exists demo_host (ns_host link_ns) (join_host (mt_upper (link_mounts ! 0)) (mount_rel (link_mounts ! 0) ''/b''))"
    "h_exists demo_host (ns_host link_ns) (join_host (mt_base (link_mounts ! 0)) (mount_rel (link_mounts ! 0) ''/b''))"
    "\<not> is_whiteout (ns_wo link_ns) ''/b''" by code_simp+
  show ?thesis
    using classify_write_overlay [OF m(1,3,4) refl refl surjective_pairing, where H = demo_host and follow = True and wi = Parents_only and st = link_ns]
      classify_write_overlay [OF m(2,3,4) refl refl surjective_pairing, where H = demo_host and follow = True and wi = Remove and st = link_ns] p b
    by simp
qed





text \<open>C22: Where no name is a link, \<open>resolve_dotdot\<close> is plain normalization and \<open>absolutize\<close>
  agrees with the lexical \<open>absolutize_path\<close>: resolving \<open>..\<close> through link targets is an
  extension of the lexical rule, not a different one.\<close>

theorem resolve_dotdot_lexical:
  assumes "\<forall>p. case read_target H (ns_host st) p of Inl _ \<Rightarrow> True | Inr t \<Rightarrow> t = []"
    and "dir_path \<noteq> [] \<or> cwd \<noteq> []"
  shows "resolve_dotdot H ms lt st depth p = Some (normalize_path p)
    \<and> (path \<noteq> [] \<longrightarrow>
        absolutize H ms lt st cwd path dir_path = Some (absolutize_path path (if dir_path = [] then cwd else dir_path)))"
proof -
  have ph: "physical_if_symlink cls (read_target H (ns_host st)) n ap = Some []" for cls n ap
    using assms(1) by (cases n) (auto simp: Let_def split: sum.splits)
  have rd: "resolve_dotdot H ms lt st depth p = Some (normalize_path p)" for depth p
    by (simp add: resolve_dotdot_def resolve_with_plain ph)
  then show ?thesis using assms(2) by (simp add: absolutize_def absolutize_path_def Let_def)
qed

theorem resolve_dotdot_lexical_witness:
  "absolutize demo_host demo_mounts (lt_empty_table None)
     \<lparr>ns_world = demo_world, ns_wo = wo_fresh ''/up'', ns_meta = ms_fresh\<rparr> ''/usr'' ''../etc/./x'' []
   = Some ''/etc/x''"
proof -
  let ?st = "\<lparr>ns_world = demo_world, ns_wo = wo_fresh ''/up'', ns_meta = ms_fresh\<rparr>"
  have "\<forall>p. case read_target demo_host (ns_host ?st) p of Inl _ \<Rightarrow> True | Inr t \<Rightarrow> t = []"
    by (simp add: read_target_def demo_host_def demo_disk_def)
  then have "absolutize demo_host demo_mounts (lt_empty_table None) ?st ''/usr'' ''../etc/./x'' []
      = Some (absolutize_path ''../etc/./x'' ''/usr'')"
    using resolve_dotdot_lexical [of demo_host ?st "[]" "''/usr''" demo_mounts "lt_empty_table None" 0 "[]" "''../etc/./x''"]
    by simp
  moreover have "absolutize_path ''../etc/./x'' ''/usr'' = ''/etc/x''" by code_simp
  ultimately show ?thesis by simp
qed

end
