(* ===== verification/Lx_Bytes.thy ===== *)
theory Lx_Bytes
  imports Lx_Prelude
begin

text \<open>
  Little-endian byte sequences, as \<open>memcpy\<close> of an integer gives them on the hosts the
  program runs on: base-256 digits, their byte and character forms, and fields at an
  offset of a buffer.
\<close>

primrec digits256 :: "nat \<Rightarrow> nat \<Rightarrow> nat list" where
  "digits256 0 n = []"
| "digits256 (Suc k) n = n mod 256 # digits256 k (n div 256)"

primrec undigits :: "nat list \<Rightarrow> nat" where
  "undigits [] = 0"
| "undigits (d # ds) = d + 256 * undigits ds"

lemma length_digits256 [simp]: "length (digits256 k n) = k"
  by (induction k arbitrary: n) auto

lemma digits256_less: "d \<in> set (digits256 k n) \<Longrightarrow> d < 256"
  by (induction k arbitrary: n) auto

lemma undigits_digits256: "undigits (digits256 k n) = n mod 256 ^ k"
proof (induction k arbitrary: n)
  case (Suc k)
  have "n mod (256 * 256 ^ k) = 256 * (n div 256 mod 256 ^ k) + n mod 256"
    by (rule mod_mult2_eq)
  then show ?case using Suc by simp
qed simp

lemma undigits_less: "(\<And>d. d \<in> set ds \<Longrightarrow> d < 256) \<Longrightarrow> undigits ds < 256 ^ length ds"
proof (induction ds)
  case (Cons d ds)
  then have "undigits ds + 1 \<le> 256 ^ length ds" "d < 256" by (auto simp: Suc_le_eq)
  then have "256 * (undigits ds + 1) \<le> 256 * 256 ^ length ds" by (intro mult_le_mono2)
  then show ?case using \<open>d < 256\<close> by simp
qed simp

lemma digits256_undigits:
  "(\<And>d. d \<in> set ds \<Longrightarrow> d < 256) \<Longrightarrow> digits256 (length ds) (undigits ds) = ds"
  by (induction ds) auto

section \<open>Bytes\<close>

definition put_le :: "nat \<Rightarrow> 'a::len word \<Rightarrow> u8 list" where
  "put_le k v = map of_nat (digits256 k (unat v))"

definition get_le :: "u8 list \<Rightarrow> 'a::len word" where
  "get_le bs = of_nat (undigits (map unat bs))"

lemma length_put_le [simp]: "length (put_le k v) = k"
  by (simp add: put_le_def)

lemma unat_of_digits: "map (\<lambda>d. unat (of_nat d :: u8)) (digits256 k n) = digits256 k n"
  by (rule map_idI) (simp add: unat_of_nat digits256_less)

lemma get_put_le:
  fixes v :: "'a::len word"
  assumes "LENGTH('a) \<le> 8 * k"
  shows "get_le (put_le k v) = v"
proof -
  have "unat v < 256 ^ k"
  proof -
    have "unat v < 2 ^ LENGTH('a)" by simp
    also have "\<dots> \<le> 2 ^ (8 * k)" using assms by (intro power_increasing) auto
    also have "\<dots> = 256 ^ k" by (simp add: power_mult)
    finally show ?thesis .
  qed
  then show ?thesis
    using unat_of_digits [of k "unat v"] by (simp add: get_le_def put_le_def o_def undigits_digits256)
qed

lemma put_get_le:
  assumes "length bs = k" "8 * k \<le> LENGTH('a::len)"
  shows "put_le k (get_le bs :: 'a word) = bs"
proof -
  have u8: "unat b < 256" for b :: u8 using unsigned_less [of b] by simp
  have lt: "d \<in> set (map unat bs) \<Longrightarrow> d < 256" for d using u8 by auto
  then have "undigits (map unat bs) < 256 ^ k" using undigits_less [of "map unat bs"] assms(1) by simp
  also have "256 ^ k = (2::nat) ^ (8 * k)" by (simp add: power_mult)
  also have "\<dots> \<le> 2 ^ LENGTH('a)" using assms(2) by (intro power_increasing) auto
  finally have "undigits (map unat bs) mod 2 ^ LENGTH('a) = undigits (map unat bs)" by simp
  then have "unat (get_le bs :: 'a word) = undigits (map unat bs)" by (simp add: get_le_def unat_of_nat)
  then show ?thesis
    using digits256_undigits [of "map unat bs"] lt assms(1) by (simp add: put_le_def o_def map_idI)
qed

text \<open>A field of \<open>k\<close> bytes at an offset; \<open>store\<close> overwrites it.\<close>

definition field_at :: "nat \<Rightarrow> nat \<Rightarrow> u8 list \<Rightarrow> u8 list" where
  "field_at off k buf = take k (drop off buf)"

definition store_at :: "nat \<Rightarrow> u8 list \<Rightarrow> u8 list \<Rightarrow> u8 list" where
  "store_at off bs buf = take off buf @ bs @ drop (off + length bs) buf"

lemma length_store_at [simp]: "off + length bs \<le> length buf \<Longrightarrow> length (store_at off bs buf) = length buf"
  by (simp add: store_at_def)

lemma field_store_same:
  "off + length bs \<le> length buf \<Longrightarrow> k = length bs \<Longrightarrow> field_at off k (store_at off bs buf) = bs"
  by (simp add: field_at_def store_at_def)

lemma field_store_other:
  assumes "off + length bs \<le> length buf" "off' + k \<le> off \<or> off + length bs \<le> off'"
  shows "field_at off' k (store_at off bs buf) = field_at off' k buf"
  using assms by (auto simp: field_at_def store_at_def nth_append intro!: nth_equalityI)

section \<open>Characters\<close>

definition put_chars :: "nat \<Rightarrow> 'a::len word \<Rightarrow> string" where
  "put_chars k v = map char_of (digits256 k (unat v))"

definition get_chars :: "string \<Rightarrow> 'a::len word" where
  "get_chars cs = of_nat (undigits (map of_char cs))"

lemma length_put_chars [simp]: "length (put_chars k v) = k"
  by (simp add: put_chars_def)

lemma get_put_chars:
  fixes v :: "'a::len word"
  assumes "LENGTH('a) \<le> 8 * k"
  shows "get_chars (put_chars k v) = v"
proof -
  have "map (\<lambda>d. of_char (char_of d :: char)) (digits256 k (unat v)) = digits256 k (unat v)"
    by (rule map_idI) (simp add: digits256_less)
  then have "get_chars (put_chars k v) = (get_le (put_le k v) :: 'a word)"
    using unat_of_digits [of k "unat v"]
    by (simp add: get_chars_def put_chars_def get_le_def put_le_def o_def)
  then show ?thesis by (simp add: get_put_le assms)
qed

text \<open>The byte of a character, as \<open>static_cast\<close> gives it.\<close>

lemma unat_of_char: "unat (of_char c :: u8) = of_char c"
proof -
  have "(of_char c :: u8) = of_nat (of_char c)" by (simp add: of_nat_of_char)
  moreover have "of_char c < (256 :: nat)" by simp
  ultimately show ?thesis using unat_of_nat_small [where 'a = 8, of "of_char c"] by simp
qed

lemma char_of_byte: "char_of (unat (of_char c :: u8)) = c"
  by (simp add: unat_of_char)

lemma byte_zero_iff: "(of_char c :: u8) = 0 \<longleftrightarrow> c = CHR 0x00"
proof
  assume "(of_char c :: u8) = 0"
  then have "of_char c = (0 :: nat)" using unat_of_char [of c] by simp
  then show "c = CHR 0x00" using of_char_eq_iff [where 'a = nat, of c "CHR 0x00"] by simp
qed simp

end
