(* ===== verification/Lx_ProcState.thy ===== *)
theory Lx_ProcState
  imports Lx_Overlay Lx_Bytes
begin

text \<open>
  The per-process part of \<open>FileNamespace\<close> (\<open>kernel/file_namespace.hpp\<close>): working
  directories and descriptor bindings keyed by guest pid, their inheritance on a task's
  first system call, and the byte format that carries them to a fork child that is a
  fresh host process.  An \<open>std::unordered_map\<close> is an association list; accessing it with
  \<open>operator[]\<close> creates the entry.
\<close>

section \<open>The code\<close>

record dir_stream =
  ds_entries :: "virtual_dirent list"
  ds_pos :: nat
  ds_lazy :: string
  ds_off :: u64

record fd_tab =
  ft_paths :: "(int \<times> string) list"
  ft_dirs :: "(int \<times> dir_stream) list"

definition fd_tab_empty :: fd_tab where
  "fd_tab_empty = \<lparr>ft_paths = [], ft_dirs = []\<rparr>"

definition copy_for_fork :: "fd_tab \<Rightarrow> fd_tab" where
  "copy_for_fork t =
    \<lparr>ft_paths = ft_paths t,
     ft_dirs = map (\<lambda>(fd, d). (fd, \<lparr>ds_entries = ds_entries d, ds_pos = ds_pos d,
                                    ds_lazy = ds_lazy d, ds_off = ds_off d\<rparr>)) (ft_dirs t)\<rparr>"

record proc_state =
  ps_cwds :: "(int \<times> string) list"
  ps_cur :: int
  ps_seeded :: int
  ps_last_cwd :: string
  ps_last_pid :: int
  ps_inherited_cwd :: string
  ps_tables :: "(int \<times> fd_tab) list"
  ps_inherited_fds :: fd_tab
  ps_have_inherited :: bool

definition ps_init :: proc_state where
  "ps_init = \<lparr>ps_cwds = [], ps_cur = 1, ps_seeded = 0, ps_last_cwd = ''/'', ps_last_pid = 0,
     ps_inherited_cwd = ''/'', ps_tables = [], ps_inherited_fds = fd_tab_empty, ps_have_inherited = False\<rparr>"

definition cwd_of :: "proc_state \<Rightarrow> int \<Rightarrow> string" where
  "cwd_of s pid = (case map_of (ps_cwds s) pid of None \<Rightarrow> ''/'' | Some c \<Rightarrow> c)"

definition cwd :: "proc_state \<Rightarrow> string" where
  "cwd s = cwd_of s (ps_cur s)"

definition set_cwd :: "string \<Rightarrow> proc_state \<Rightarrow> proc_state" where
  "set_cwd c s = s\<lparr>ps_cwds := AList.update (ps_cur s) (normalize_path c) (ps_cwds s),
                   ps_last_cwd := normalize_path c\<rparr>"

definition select_pid :: "int \<Rightarrow> proc_state \<Rightarrow> proc_state" where
  "select_pid pid s = s\<lparr>ps_cur := pid\<rparr>"

text \<open>Seeding a pid that has no record, from its parent or from the task seen last.\<close>

definition seed_pid :: "int \<Rightarrow> int \<Rightarrow> proc_state \<Rightarrow> proc_state" where
  "seed_pid pid ppid s =
    (let par = map_of (ps_cwds s) ppid;
         s1 = s\<lparr>ps_cwds := AList.update pid (case par of Some c \<Rightarrow> c | None \<Rightarrow> ps_last_cwd s) (ps_cwds s)\<rparr>;
         from = (if par \<noteq> None then ppid else ps_last_pid s)
     in if ps_have_inherited s1 then
          s1\<lparr>ps_tables := AList.update pid (ps_inherited_fds s1) (ps_tables s1),
             ps_inherited_fds := fd_tab_empty, ps_have_inherited := False\<rparr>
        else (case map_of (ps_tables s1) from of
                None \<Rightarrow> s1
              | Some t \<Rightarrow> s1\<lparr>ps_tables := AList.update pid (copy_for_fork t) (ps_tables s1)\<rparr>))"

definition set_current_pid :: "int \<Rightarrow> int \<Rightarrow> proc_state \<Rightarrow> proc_state" where
  "set_current_pid pid ppid s0 =
    (let s = s0\<lparr>ps_cur := pid\<rparr> in
     if pid = ps_seeded s then s
     else let s1 = (if map_of (ps_cwds s) pid = None then seed_pid pid ppid s else s);
              s2 = s1\<lparr>ps_seeded := pid, ps_last_pid := pid\<rparr>;
              c = (case map_of (ps_cwds s2) pid of None \<Rightarrow> [] | Some c \<Rightarrow> c)
          in if c \<noteq> [] then s2\<lparr>ps_last_cwd := c\<rparr> else s2)"

definition inherit_cwd :: "int \<Rightarrow> int \<Rightarrow> proc_state \<Rightarrow> proc_state" where
  "inherit_cwd child parent s = s\<lparr>ps_cwds := AList.update child (cwd_of s parent) (ps_cwds s)\<rparr>"

definition forget_pid :: "int \<Rightarrow> proc_state \<Rightarrow> proc_state" where
  "forget_pid pid s =
    s\<lparr>ps_cwds := AList.delete pid (ps_cwds s), ps_seeded := (if pid = ps_seeded s then 0 else ps_seeded s)\<rparr>"

text \<open>\<open>fds()\<close>: the table of the current pid, created when missing.\<close>

definition fds :: "proc_state \<Rightarrow> fd_tab" where
  "fds s = (case map_of (ps_tables s) (ps_cur s) of None \<Rightarrow> fd_tab_empty | Some t \<Rightarrow> t)"

definition put_fds :: "fd_tab \<Rightarrow> proc_state \<Rightarrow> proc_state" where
  "put_fds t s = s\<lparr>ps_tables := AList.update (ps_cur s) t (ps_tables s)\<rparr>"

definition bind_fd :: "int \<Rightarrow> string \<Rightarrow> proc_state \<Rightarrow> proc_state" where
  "bind_fd fd p s = put_fds ((fds s)\<lparr>ft_paths := AList.update fd p (ft_paths (fds s))\<rparr>) s"

definition unbind_fd :: "int \<Rightarrow> proc_state \<Rightarrow> proc_state" where
  "unbind_fd fd s = put_fds \<lparr>ft_paths = AList.delete fd (ft_paths (fds s)),
                             ft_dirs = AList.delete fd (ft_dirs (fds s))\<rparr> s"

definition mirror_fd :: "int \<Rightarrow> int \<Rightarrow> proc_state \<Rightarrow> proc_state" where
  "mirror_fd from to s =
    (if from = to then s
     else let t = fds s;
              t1 = (case map_of (ft_paths t) from of
                      None \<Rightarrow> t | Some p \<Rightarrow> t\<lparr>ft_paths := AList.update to p (ft_paths t)\<rparr>);
              t2 = (case map_of (ft_dirs t1) from of
                      None \<Rightarrow> t1
                    | Some d \<Rightarrow> t1\<lparr>ft_dirs := AList.update to (d\<lparr>ds_pos := 0, ds_off := 0\<rparr>) (ft_dirs t1)\<rparr>)
          in put_fds t2 s)"

definition path_of_fd :: "int \<Rightarrow> proc_state \<Rightarrow> string \<times> proc_state" where
  "path_of_fd fd s =
    (case map_of (ft_paths (fds s)) fd of None \<Rightarrow> [] | Some p \<Rightarrow> p, put_fds (fds s) s)"

definition bind_dir :: "int \<Rightarrow> virtual_dirent list \<Rightarrow> proc_state \<Rightarrow> proc_state" where
  "bind_dir fd es s =
    put_fds ((fds s)\<lparr>ft_dirs := AList.update fd \<lparr>ds_entries = es, ds_pos = 0, ds_lazy = [], ds_off = 0\<rparr>
                                 (ft_dirs (fds s))\<rparr>) s"

definition bind_lazy_dir :: "int \<Rightarrow> string \<Rightarrow> proc_state \<Rightarrow> proc_state" where
  "bind_lazy_dir fd ap s =
    put_fds ((fds s)\<lparr>ft_dirs := AList.update fd \<lparr>ds_entries = [], ds_pos = 0, ds_lazy = ap, ds_off = 0\<rparr>
                                 (ft_dirs (fds s))\<rparr>) s"

definition is_virtual_dir_fd :: "int \<Rightarrow> proc_state \<Rightarrow> bool" where
  "is_virtual_dir_fd fd s \<longleftrightarrow> map_of (ft_dirs (fds s)) fd \<noteq> None"

text \<open>\<open>dir_stream\<close>; \<open>list\<close> is \<open>overlay_dir_union\<close> on the namespace at hand.\<close>

definition dir_stream_at :: "(string \<Rightarrow> virtual_dirent list) \<Rightarrow> int \<Rightarrow> proc_state \<Rightarrow> dir_stream option \<times> proc_state" where
  "dir_stream_at listing fd s =
    (case map_of (ft_dirs (fds s)) fd of
       None \<Rightarrow> (None, put_fds (fds s) s)
     | Some d \<Rightarrow>
         if ds_lazy d = [] then (Some d, s)
         else let es = listing (ds_lazy d);
                  d2 = d\<lparr>ds_lazy := [], ds_entries := es\<rparr>
              in if es = [] then (None, put_fds ((fds s)\<lparr>ft_dirs := AList.delete fd (ft_dirs (fds s))\<rparr>) s)
                 else (Some d2, put_fds ((fds s)\<lparr>ft_dirs := AList.update fd d2 (ft_dirs (fds s))\<rparr>) s))"

section \<open>The byte format\<close>

text \<open>The four bytes of a \<open>std::uint32_t\<close> on a little-endian host.\<close>

definition put32 :: "u32 \<Rightarrow> string" where
  "put32 v = put_chars 4 v"

definition get32 :: "string \<Rightarrow> u32" where
  "get32 b = get_chars (take 4 b)"

definition put_str :: "string \<Rightarrow> string" where
  "put_str s = put32 (of_nat (length s)) @ s"

definition export_process_state :: "proc_state \<Rightarrow> string" where
  "export_process_state s =
    put_str (cwd s) @ put32 (of_nat (length (ft_paths (fds s))))
    @ concat (map (\<lambda>(fd, p). put32 (word_of_int fd) @ put_str p) (ft_paths (fds s)))"

definition read32 :: "string \<Rightarrow> nat \<Rightarrow> u32 \<times> nat" where
  "read32 inp i = (if i + 4 \<le> length inp then get32 (drop i inp) else 0, i + 4)"

definition read_str :: "string \<Rightarrow> nat \<Rightarrow> string \<times> nat" where
  "read_str inp i =
    (let (n, j) = read32 inp i in (take (unat n) (drop (min j (length inp)) inp), j + unat n))"

text \<open>\<open>None\<close>: the \<open>memcpy\<close> of a descriptor number reads past the end.\<close>

fun import_fds :: "string \<Rightarrow> nat \<Rightarrow> nat \<Rightarrow> fd_tab \<Rightarrow> fd_tab option" where
  "import_fds inp i 0 t = Some t"
| "import_fds inp i (Suc n) t =
    (if i < length inp then
       (if i + 4 \<le> length inp then
          (let fd = sint (get32 (drop i inp)); (p, j) = read_str inp (i + 4)
           in import_fds inp j n (t\<lparr>ft_paths := AList.update fd p (ft_paths t)\<rparr>))
        else None)
     else Some t)"

definition import_process_state :: "string \<Rightarrow> proc_state \<Rightarrow> proc_state option" where
  "import_process_state inp s =
    (let (c, i) = read_str inp 0;
         ic = normalize_path c;
         (n, j) = read32 inp i
     in map_option (\<lambda>t. s\<lparr>ps_inherited_cwd := (if ic = [] then ''/'' else ic), ps_cwds := [], ps_seeded := 0,
                          ps_tables := [], ps_inherited_fds := t, ps_have_inherited := True\<rparr>)
          (import_fds inp j (unat n) fd_tab_empty))"

section \<open>Reachable states\<close>

datatype ps_op =
    Chdir string
  | Select int
  | Enter int int
  | Inherit int int
  | Forget int
  | Bind int string
  | Unbind int
  | Mirror int int
  | Bind_dir int "virtual_dirent list"
  | Bind_lazy int string
  | Read_dir int
  | Path_of int

primrec ps_apply :: "(string \<Rightarrow> virtual_dirent list) \<Rightarrow> ps_op \<Rightarrow> proc_state \<Rightarrow> proc_state" where
  "ps_apply l (Chdir c) s = set_cwd c s"
| "ps_apply l (Select p) s = select_pid p s"
| "ps_apply l (Enter p pp) s = set_current_pid p pp s"
| "ps_apply l (Inherit c p) s = inherit_cwd c p s"
| "ps_apply l (Forget p) s = forget_pid p s"
| "ps_apply l (Bind fd p) s = bind_fd fd p s"
| "ps_apply l (Unbind fd) s = unbind_fd fd s"
| "ps_apply l (Mirror a b) s = mirror_fd a b s"
| "ps_apply l (Bind_dir fd es) s = bind_dir fd es s"
| "ps_apply l (Bind_lazy fd p) s = bind_lazy_dir fd p s"
| "ps_apply l (Read_dir fd) s = snd (dir_stream_at l fd s)"
| "ps_apply l (Path_of fd) s = snd (path_of_fd fd s)"

inductive ps_reach :: "(string \<Rightarrow> virtual_dirent list) \<Rightarrow> proc_state \<Rightarrow> bool" for l where
  init: "ps_reach l ps_init"
| step: "ps_reach l s \<Longrightarrow> ps_reach l (ps_apply l e s)"
| fork: "ps_reach l s \<Longrightarrow> import_process_state blob s = Some s' \<Longrightarrow> ps_reach l s'"

text \<open>The pid cached as already seeded has a record, and records hold normalized paths.\<close>

definition ps_ok :: "proc_state \<Rightarrow> bool" where
  "ps_ok s \<longleftrightarrow> (ps_seeded s \<noteq> 0 \<longrightarrow> map_of (ps_cwds s) (ps_seeded s) \<noteq> None)
     \<and> canonical_path (ps_last_cwd s)
     \<and> (\<forall>p c. map_of (ps_cwds s) p = Some c \<longrightarrow> canonical_path c)"

lemma put_fds_simps [simp]:
  "ps_cwds (put_fds t s) = ps_cwds s" "ps_seeded (put_fds t s) = ps_seeded s"
  "ps_last_cwd (put_fds t s) = ps_last_cwd s" "ps_cur (put_fds t s) = ps_cur s"
  "map_of (ps_tables (put_fds t s)) = (map_of (ps_tables s))(ps_cur s \<mapsto> t)"
  by (simp_all add: put_fds_def update_conv')

lemma ps_ok_put_fds [simp]: "ps_ok (put_fds t s) \<longleftrightarrow> ps_ok s"
  by (simp add: ps_ok_def)

text \<open>The operations on the current process's own descriptors.\<close>

definition fd_op :: "ps_op \<Rightarrow> bool" where
  "fd_op e \<longleftrightarrow> (case e of Bind _ _ \<Rightarrow> True | Unbind _ \<Rightarrow> True | Mirror _ _ \<Rightarrow> True | Bind_dir _ _ \<Rightarrow> True
     | Bind_lazy _ _ \<Rightarrow> True | Read_dir _ \<Rightarrow> True | Path_of _ \<Rightarrow> True | _ \<Rightarrow> False)"

lemma fd_op_put: "fd_op e \<Longrightarrow> \<exists>t. ps_apply l e s = s \<or> ps_apply l e s = put_fds t s"
  by (cases e)
    (auto simp: fd_op_def bind_fd_def unbind_fd_def mirror_fd_def bind_dir_def bind_lazy_dir_def
      dir_stream_at_def path_of_fd_def Let_def split: option.splits)

lemma canonical_root: "canonical_path ''/''"
  by (simp add: canonical_path_def render_path_def)

lemma seed_pid_simps [simp]:
  "map_of (ps_cwds (seed_pid pid ppid s)) =
     (map_of (ps_cwds s))(pid \<mapsto> (case map_of (ps_cwds s) ppid of Some c \<Rightarrow> c | None \<Rightarrow> ps_last_cwd s))"
  "ps_seeded (seed_pid pid ppid s) = ps_seeded s"
  "ps_last_cwd (seed_pid pid ppid s) = ps_last_cwd s"
  "ps_cur (seed_pid pid ppid s) = ps_cur s"
  by (simp_all add: seed_pid_def Let_def update_conv' split: option.split)

lemma seed_pid_table:
  "map_of (ps_cwds s) ppid = Some c \<Longrightarrow> map_of (ps_tables s) ppid = Some t \<Longrightarrow> \<not> ps_have_inherited s \<Longrightarrow>
   map_of (ps_tables (seed_pid pid ppid s)) pid = Some (copy_for_fork t)"
  by (simp add: seed_pid_def Let_def update_conv')

lemma seed_pid_ok: "ps_ok s \<Longrightarrow> ps_ok (seed_pid pid ppid s)"
  by (auto simp: ps_ok_def split: option.splits)

lemma ps_ok_cur [simp]: "ps_ok (s\<lparr>ps_cur := p\<rparr>) \<longleftrightarrow> ps_ok s"
  by (simp add: ps_ok_def)

lemma set_current_pid_ok [lx_inv]:
  assumes "ps_ok s"
  shows "ps_ok (set_current_pid pid ppid s)"
proof (cases "pid = ps_seeded s")
  case True
  then show ?thesis using assms by (simp add: set_current_pid_def)
next
  case False
  define s1 where "s1 = (if map_of (ps_cwds s) pid = None then seed_pid pid ppid (s\<lparr>ps_cur := pid\<rparr>) else s\<lparr>ps_cur := pid\<rparr>)"
  have s1: "ps_ok s1" using assms by (simp add: s1_def seed_pid_ok)
  obtain c where c: "map_of (ps_cwds s1) pid = Some c"
    by (cases "map_of (ps_cwds s) pid") (auto simp: s1_def)
  then have "canonical_path c" using s1 by (auto simp: ps_ok_def)
  then show ?thesis
    using False s1 c by (simp add: set_current_pid_def s1_def [symmetric] Let_def) (simp add: ps_ok_def)
qed

lemma ps_apply_ok [lx_inv]:
  assumes "ps_ok s"
  shows "ps_ok (ps_apply l e s)"
proof (cases "fd_op e")
  case True
  then show ?thesis using fd_op_put [of e l s] assms by auto
next
  case False
  have "canonical_path (cwd_of s p)" for p
    using assms canonical_root by (auto simp: cwd_of_def ps_ok_def split: option.splits)
  then show ?thesis
    using assms False set_current_pid_ok [OF assms]
    by (cases e) (auto simp: fd_op_def ps_ok_def set_cwd_def select_pid_def inherit_cwd_def forget_pid_def
        update_conv' delete_conv' normalize_path_canonical split: if_splits)
qed

lemma import_ok: "ps_ok s \<Longrightarrow> import_process_state blob s = Some s' \<Longrightarrow> ps_ok s'"
  by (auto simp: import_process_state_def split_def ps_ok_def Let_def)

lemma ps_reach_ok: "ps_reach l s \<Longrightarrow> ps_ok s"
  by (induction rule: ps_reach.induct)
    (simp add: ps_ok_def ps_init_def canonical_root, simp add: ps_apply_ok, rule import_ok)

section \<open>The byte format round trip\<close>

lemma read32_at: "read32 (pre @ put32 v @ suf) (length pre) = (v, length pre + 4)"
  by (simp add: read32_def get32_def put32_def get_put_chars)

lemma read_str_at:
  "length s < 2 ^ 32 \<Longrightarrow>
   read_str (pre @ put_str s @ suf) (length pre) = (s, length (pre @ put_str s))"
  using read32_at [of pre "of_nat (length s)" "s @ suf"]
  by (simp add: read_str_def put_str_def put32_def unat_of_nat)

lemma sint_fd: "- (2 ^ 31) \<le> fd \<Longrightarrow> fd < 2 ^ 31 \<Longrightarrow> sint (word_of_int fd :: u32) = fd"
  by (simp add: signed_of_int signed_take_bit_int_eq_self)

definition exportable :: "fd_tab \<Rightarrow> bool" where
  "exportable t \<longleftrightarrow> distinct (map fst (ft_paths t)) \<and> length (ft_paths t) < 2 ^ 32
     \<and> list_all (\<lambda>(fd, p). - (2 ^ 31) \<le> fd \<and> fd < 2 ^ 31 \<and> length p < 2 ^ 32) (ft_paths t)"

lemma import_fds_export:
  assumes "list_all (\<lambda>(fd, p). - (2 ^ 31) \<le> fd \<and> fd < 2 ^ 31 \<and> length p < 2 ^ 32) ps"
  shows "import_fds (pre @ concat (map (\<lambda>(fd, p). put32 (word_of_int fd) @ put_str p) ps)) (length pre) (length ps) t
    = Some (t\<lparr>ft_paths := fold (\<lambda>(fd, p). AList.update fd p) ps (ft_paths t)\<rparr>)"
  using assms
proof (induction ps arbitrary: pre t)
  case (Cons x ps)
  obtain fd p where x: "x = (fd, p)" by force
  let ?rest = "concat (map (\<lambda>(fd, p). put32 (word_of_int fd) @ put_str p) ps)"
  let ?inp = "pre @ put32 (word_of_int fd) @ put_str p @ ?rest"
  have g: "get32 (drop (length pre) ?inp) = word_of_int fd"
    by (simp add: get32_def put32_def get_put_chars)
  have r: "read_str ?inp (length pre + 4) = (p, length (pre @ put32 (word_of_int fd) @ put_str p))"
    using read_str_at [of p "pre @ put32 (word_of_int fd)" ?rest] Cons.prems by (simp add: x put32_def)
  have "import_fds ?inp (length (pre @ put32 (word_of_int fd) @ put_str p)) (length ps)
      (t\<lparr>ft_paths := AList.update fd p (ft_paths t)\<rparr>) =
      Some (t\<lparr>ft_paths := fold (\<lambda>(fd, p). AList.update fd p) ps (AList.update fd p (ft_paths t))\<rparr>)"
    using Cons.IH [of "pre @ put32 (word_of_int fd) @ put_str p" "t\<lparr>ft_paths := AList.update fd p (ft_paths t)\<rparr>"]
      Cons.prems by simp
  then show ?case
    using g r Cons.prems sint_fd [of fd] by (simp add: x put32_def)
qed simp

lemma fold_update_map:
  "distinct (map fst ps) \<Longrightarrow> map_of (fold (\<lambda>(k, v). AList.update k v) ps al) = map_of al ++ map_of ps"
proof (induction ps arbitrary: al)
  case (Cons x ps)
  obtain k v where x: "x = (k, v)" by force
  have "map_of ps k = None" using Cons.prems by (simp add: x map_of_eq_None_iff)
  then show ?case
    using Cons by (auto simp: x update_conv' map_add_def fun_eq_iff split: option.splits)
qed simp

lemma import_export:
  assumes "exportable (fds s)" "length (cwd s) < 2 ^ 32"
  shows "import_process_state (export_process_state s) s0 =
    Some (s0\<lparr>ps_inherited_cwd := normalize_path (cwd s), ps_cwds := [], ps_seeded := 0, ps_tables := [],
             ps_inherited_fds := \<lparr>ft_paths = fold (\<lambda>(fd, p). AList.update fd p) (ft_paths (fds s)) [], ft_dirs = []\<rparr>,
             ps_have_inherited := True\<rparr>)"
proof -
  let ?ps = "ft_paths (fds s)"
  let ?body = "concat (map (\<lambda>(fd, p). put32 (word_of_int fd) @ put_str p) ?ps)"
  have c: "read_str (export_process_state s) 0 = (cwd s, length (put_str (cwd s)))"
    using read_str_at [OF assms(2), of "[]" "put32 (of_nat (length ?ps)) @ ?body"]
    by (simp add: export_process_state_def)
  have n: "read32 (export_process_state s) (length (put_str (cwd s))) = (of_nat (length ?ps), length (put_str (cwd s)) + 4)"
    using read32_at [of "put_str (cwd s)" "of_nat (length ?ps)" ?body] by (simp add: export_process_state_def)
  have "import_fds (export_process_state s) (length (put_str (cwd s)) + 4) (length ?ps) fd_tab_empty =
      Some (fd_tab_empty\<lparr>ft_paths := fold (\<lambda>(fd, p). AList.update fd p) ?ps (ft_paths fd_tab_empty)\<rparr>)"
    using import_fds_export [of ?ps "put_str (cwd s) @ put32 (of_nat (length ?ps))" fd_tab_empty] assms(1)
    by (simp add: exportable_def export_process_state_def put32_def)
  moreover have "unat (of_nat (length ?ps) :: u32) = length ?ps"
    using assms(1) by (simp add: exportable_def unat_of_nat)
  moreover have "normalize_path (cwd s) \<noteq> []"
    by (metis canonical_path_def list.distinct(1) normalize_path_canonical render_Cons)
  ultimately show ?thesis
    by (simp add: import_process_state_def c n fd_tab_empty_def)
qed

section \<open>Divergences\<close>

text \<open>The imported working directory is stored but never consulted: whatever the parent's
  was, the fork child starts in the directory its own process remembered last, \<open>/\<close> when
  it is fresh.\<close>

lemma imported_cwd_unused:
  assumes "exportable (fds s)" "length (cwd s) < 2 ^ 32" "pid \<noteq> 0"
    and "import_process_state (export_process_state s) s0 = Some s1"
  shows "ps_inherited_cwd s1 = normalize_path (cwd s) \<and> cwd (set_current_pid pid ppid s1) = ps_last_cwd s0"
  using assms import_export [OF assms(1,2), of s0]
  by (auto simp: set_current_pid_def seed_pid_def Let_def cwd_def cwd_of_def)

lemma imported_cwd_unused_example:
  "let s = set_cwd ''/work'' ps_init; s1 = the (import_process_state (export_process_state s) ps_init)
   in cwd s = ''/work'' \<and> cwd (set_current_pid 7 1 s1) = ''/''"
  by code_simp

text \<open>Forgetting a pid keeps its descriptor bindings; a task that reuses the number and whose
  parent has no table starts with them.\<close>

lemma recycled_pid_keeps_bindings:
  "let s = bind_fd 3 ''/secret'' (set_current_pid 5 1 ps_init);
       s1 = set_current_pid 5 8 (forget_pid 5 (set_current_pid 8 1 s))
   in fst (path_of_fd 3 s1) = ''/secret''"
  by code_simp

section \<open>Properties\<close>

text \<open>C28: The state a fork child receives: importing what the parent exported, in a fresh
  process, leaves exactly the parent's descriptor bindings waiting, and the child's first
  system call, under whatever pid, adopts them as its own table and empties the waiting
  slot, so no later task can adopt them again.\<close>

theorem fork_state_roundtrip:
  assumes "exportable (fds s)" and "length (cwd s) < 2 ^ 32" and "pid \<noteq> 0"
  shows "\<exists>s1. import_process_state (export_process_state s) s0 = Some s1
    \<and> map_of (ft_paths (ps_inherited_fds s1)) = map_of (ft_paths (fds s))
    \<and> map_of (ft_paths (fds (set_current_pid pid ppid s1))) = map_of (ft_paths (fds s))
    \<and> \<not> ps_have_inherited (set_current_pid pid ppid s1)"
proof -
  have "distinct (map fst (ft_paths (fds s)))" using assms(1) by (simp add: exportable_def)
  note m = fold_update_map [OF this, of "[]"]
  show ?thesis
    using assms(3) m
    by (simp add: import_export [OF assms(1,2)] set_current_pid_def seed_pid_def Let_def fds_def
        AList.update_conv')
qed

definition demo_proc :: proc_state where
  "demo_proc = bind_fd 4 ''/a'' (bind_fd 3 ''/etc'' (set_cwd ''/work'' ps_init))"

theorem fork_state_roundtrip_witness:
  "\<exists>s1. import_process_state (export_process_state demo_proc) ps_init = Some s1
     \<and> map_of (ft_paths (fds (set_current_pid 7 1 s1))) 3 = Some ''/etc''"
proof -
  have "fds demo_proc = \<lparr>ft_paths = [(3, ''/etc''), (4, ''/a'')], ft_dirs = []\<rparr>"
    by (simp add: demo_proc_def bind_fd_def put_fds_def fds_def set_cwd_def ps_init_def fd_tab_empty_def)
  moreover have "cwd demo_proc = ''/work''" by code_simp
  ultimately show ?thesis
    using fork_state_roundtrip [of demo_proc 7 ps_init 1] by (auto simp: exportable_def)
qed

text \<open>C29: Processes do not disturb each other.  In every reachable state, making \<open>pid\<close> current
  gives it a working directory that is a canonical path; if it already had one, no
  working directory and no descriptor table changes (so the cached pid that skips the
  lookup is invisible); if it had none it takes its parent's directory and a copy of its
  parent's bindings.  After that, whatever the current process does with its own
  directory and descriptors leaves every other process's directory and table alone.\<close>

theorem process_state_isolated:
  assumes "ps_reach l s" and "pid \<noteq> 0" and "s1 = set_current_pid pid ppid s"
    and "list_all (\<lambda>e. fd_op e \<or> (\<exists>c. e = Chdir c)) es" and "q \<noteq> pid"
  shows "canonical_path (cwd s1)
    \<and> (if map_of (ps_cwds s) pid \<noteq> None
       then ps_cwds s1 = ps_cwds s \<and> ps_tables s1 = ps_tables s
       else (\<forall>c. map_of (ps_cwds s) ppid = Some c \<longrightarrow> cwd s1 = c \<and>
              (\<forall>t. map_of (ps_tables s) ppid = Some t \<longrightarrow> \<not> ps_have_inherited s \<longrightarrow> fds s1 = t)))
    \<and> cwd_of (fold (ps_apply l) es s1) q = cwd_of s1 q
    \<and> map_of (ps_tables (fold (ps_apply l) es s1)) q = map_of (ps_tables s1) q"
proof -
  have ok: "ps_ok s" by (rule ps_reach_ok [OF assms(1)])
  have ok1: "ps_ok s1" unfolding assms(3) by (rule set_current_pid_ok [OF ok])
  have cur: "ps_cur s1 = pid"
    unfolding assms(3) by (simp add: set_current_pid_def seed_pid_def Let_def split: option.split)
  have can: "canonical_path (cwd s1)"
    using ok1 canonical_root by (auto simp: cwd_def cwd_of_def ps_ok_def split: option.splits)
  have keep: "ps_cwds s1 = ps_cwds s \<and> ps_tables s1 = ps_tables s" if "map_of (ps_cwds s) pid \<noteq> None"
    using that unfolding assms(3) by (auto simp: set_current_pid_def Let_def)
  have seed: "cwd s1 = c \<and> (\<forall>t. map_of (ps_tables s) ppid = Some t \<longrightarrow> \<not> ps_have_inherited s \<longrightarrow> fds s1 = t)"
    if "map_of (ps_cwds s) pid = None" "map_of (ps_cwds s) ppid = Some c" for c
  proof -
    have "pid \<noteq> ps_seeded s" using ok that(1) assms(2) by (auto simp: ps_ok_def)
    moreover have "copy_for_fork t = t" for t
      by (cases t) (auto simp: copy_for_fork_def intro!: map_idI)
    ultimately show ?thesis
      using that unfolding assms(3)
      by (auto simp: set_current_pid_def Let_def cwd_def cwd_of_def fds_def seed_pid_table)
  qed
  have "cwd_of (fold (ps_apply l) es r) q = cwd_of r q
      \<and> map_of (ps_tables (fold (ps_apply l) es r)) q = map_of (ps_tables r) q"
    if "ps_cur r = pid" for r
    using assms(4) that
  proof (induction es arbitrary: r)
    case (Cons e es)
    have step: "ps_cur (ps_apply l e r) = pid \<and> cwd_of (ps_apply l e r) q = cwd_of r q
        \<and> map_of (ps_tables (ps_apply l e r)) q = map_of (ps_tables r) q"
    proof (cases "fd_op e")
      case True
      then obtain t where "ps_apply l e r = r \<or> ps_apply l e r = put_fds t r" using fd_op_put by blast
      then show ?thesis using Cons.prems(2) assms(5) by (auto simp: cwd_of_def)
    next
      case False
      then obtain c where "e = Chdir c" using Cons.prems(1) by auto
      then show ?thesis
        using Cons.prems(2) assms(5) by (auto simp: set_cwd_def cwd_of_def update_conv')
    qed
    then show ?case using Cons.IH [of "ps_apply l e r"] Cons.prems(1) by simp
  qed simp
  then show ?thesis using can keep seed cur by auto
qed

theorem process_state_isolated_witness:
  "let s = bind_fd 3 ''/etc'' (set_cwd ''/work'' (set_current_pid 1 0 ps_init));
       s1 = set_current_pid 7 1 s;
       s2 = fold (ps_apply (\<lambda>_. [])) [Chdir ''/tmp'', Unbind 3] s1
   in cwd s1 = ''/work'' \<and> fst (path_of_fd 3 s1) = ''/etc'' \<and> cwd_of s2 1 = ''/work''"
proof -
  define s where "s = bind_fd 3 ''/etc'' (set_cwd ''/work'' (set_current_pid 1 0 ps_init))"
  have "ps_reach (\<lambda>_. []) (ps_apply (\<lambda>_. []) (Bind 3 ''/etc'') (ps_apply (\<lambda>_. []) (Chdir ''/work'')
      (ps_apply (\<lambda>_. []) (Enter 1 0) ps_init)))"
    by (intro ps_reach.step ps_reach.init)
  then have r: "ps_reach (\<lambda>_. []) s" by (simp add: s_def)
  have es: "list_all (\<lambda>e. fd_op e \<or> (\<exists>c. e = Chdir c)) [Chdir ''/tmp'', Unbind 3]" by (simp add: fd_op_def)
  have d: "cwd (set_current_pid 7 1 s) = ''/work''" "fst (path_of_fd 3 (set_current_pid 7 1 s)) = ''/etc''"
    "cwd_of (set_current_pid 7 1 s) 1 = ''/work''"
    unfolding s_def by code_simp+
  have "cwd_of (fold (ps_apply (\<lambda>_. [])) [Chdir ''/tmp'', Unbind 3] (set_current_pid 7 1 s)) 1
      = cwd_of (set_current_pid 7 1 s) 1"
    using process_state_isolated [OF r _ refl es, of 7 1 1] by simp
  then show ?thesis using d unfolding Let_def s_def [symmetric] by simp
qed

end
