(* ===== verification/Lx_Namespace.thy ===== *)
theory Lx_Namespace
  imports Lx_Classify Lx_ProcState
begin

text \<open>
  The whole \<open>FileNamespace\<close>: its members together, and \<open>mount_host\<close>, which attaches the
  three journals of the first overlay mounted at \<open>/\<close> and repairs the package database.
  The contents of the journal files on the host are the argument \<open>files\<close>.
\<close>

section \<open>The code\<close>

record 'h file_ns =
  fn_mounts :: "mount list"
  fn_ns :: "'h ns"
  fn_links :: link_table
  fn_host_cwd :: string
  fn_attached :: bool
  fn_is_root :: bool

definition set_fork_child :: "bool \<Rightarrow> 'h file_ns \<Rightarrow> 'h file_ns" where
  "set_fork_child child fn = fn\<lparr>fn_is_root := \<not> child\<rparr>"

definition set_host_cwd :: "string \<Rightarrow> 'h file_ns \<Rightarrow> 'h file_ns" where
  "set_host_cwd c fn = fn\<lparr>fn_host_cwd := normalize_path c\<rparr>"

definition mode_of :: "('h, 'd) host_ops \<Rightarrow> 'h \<Rightarrow> string \<Rightarrow> u32 option" where
  "mode_of H h p = (case h_lstat H h p of Inl _ \<Rightarrow> None | Inr st \<Rightarrow> Some (hst_mode st))"

text \<open>The attachments, in the order of the code; \<open>fuel\<close> bounds the depth of the trees the
  repair removes.\<close>

definition attach_journals ::
  "('h, 'd) host_ops \<Rightarrow> nat \<Rightarrow> (string \<Rightarrow> string option) \<Rightarrow> string \<Rightarrow> string \<Rightarrow> 'h file_ns \<Rightarrow> 'h file_ns option" where
  "attach_journals H fuel files upper base fn =
    (let h = ns_host (fn_ns fn);
         st = fn_ns fn;
         meta = ms_attach (mode_of H h) (files (upper @ ''/.linuxity-meta'')) upper (fn_is_root fn)
                  (ns_meta st\<lparr>ms_bases := [upper, base]\<rparr>);
         links = lt_attach (\<lambda>p. isOK (h_lstat H h p)) (files (upper @ ''/.linuxity-links'')) upper (fn_links fn);
         wo = attach_whiteouts (fn_is_root fn) upper
                (ns_wo st\<lparr>wo_file := files (upper @ ''/.linuxity-whiteout'')\<rparr>)
     in map_option (\<lambda>w. fn\<lparr>fn_links := links, fn_attached := True,
                           fn_ns := st\<lparr>ns_meta := meta, ns_wo := wo, ns_world := w\<rparr>\<rparr>)
          (if fn_is_root fn then repair_pacman_db H fuel upper (ns_world st) else Some (ns_world st)))"

definition mount_host ::
  "('h, 'd) host_ops \<Rightarrow> nat \<Rightarrow> (string \<Rightarrow> string option) \<Rightarrow> string \<Rightarrow> string \<Rightarrow> string \<Rightarrow>
   'h file_ns \<Rightarrow> 'h file_ns option" where
  "mount_host H fuel files prefix host_base upper fn =
    (let m = mount_host_entry (fn_host_cwd fn) prefix host_base upper
     in map_option (\<lambda>f. f\<lparr>fn_mounts := fn_mounts f @ [m]\<rparr>)
          (if mt_prefix m = ''/'' \<and> mt_upper m \<noteq> [] \<and> \<not> fn_attached fn
           then attach_journals H fuel files (mt_upper m) (mt_base m) fn else Some fn))"

section \<open>Restart\<close>

text \<open>A namespace before its first mount.\<close>

definition ns_start :: "'h \<Rightarrow> bool \<Rightarrow> 'h file_ns" where
  "ns_start h is_root =
    \<lparr>fn_mounts = [],
     fn_ns = \<lparr>ns_world = \<lparr>w_host = h, w_calls = []\<rparr>,
              ns_wo = \<lparr>wo_set = [], wo_journal = [], wo_file = None\<rparr>, ns_meta = ms_fresh\<rparr>,
     fn_links = lt_empty_table None, fn_host_cwd = ''/'', fn_attached = False, fn_is_root = is_root\<rparr>"

text \<open>A fork child attaches the link table like the root process does, and that rewrites the
  journal file.\<close>

lemma fork_child_rewrites_links:
  assumes "mount_host H fuel files ''/'' base upper (ns_start h False) = Some fn"
    and "upper \<noteq> []" and "files (absolute_host ''/'' upper @ ''/.linuxity-links'') = Some text"
    and "\<And>p. \<not> isOK (h_lstat H h p)"
  shows "lt_file (fn_links fn) = Some []"
proof -
  have u: "strip_slash (absolute_host ''/'' upper) = absolute_host ''/'' upper" "absolute_host ''/'' upper \<noteq> []"
    using strip_slash_canonical absolute_host_canonical [OF assms(2)]
    by (auto simp: canonical_path_def) (metis list.distinct(1) render_Cons)
  have m: "mt_prefix (mount_host_entry ''/'' ''/'' base upper) = ''/''"
    "mt_upper (mount_host_entry ''/'' ''/'' base upper) = absolute_host ''/'' upper"
    using u(1) by (simp_all add: mount_host_entry_def strip_slash_def)
  show ?thesis
    using assms(1,3,4) u(2)
    by (auto simp: mount_host_def m ns_start_def attach_journals_def Let_def lt_attach_def lt_replay_def)
qed

lemma mount_host_whiteouts:
  assumes "wo_ok w" "list_all wo_path (wo_set w)" "wo_journal w = mt_upper m @ ''/.linuxity-whiteout''"
    and "m = mount_host_entry ''/'' ''/'' base upper" "upper \<noteq> []"
    and "files (mt_upper m @ ''/.linuxity-whiteout'') = wo_file w"
    and "mount_host H fuel files ''/'' base upper (ns_start h r) = Some fn"
  shows "is_whiteout (ns_wo (fn_ns fn)) q \<longleftrightarrow> is_whiteout w q"
proof -
  have u: "mt_upper m \<noteq> []" "mt_prefix m = ''/''"
    using mount_host_entry_canonical(2) [OF assms(5)] unfolding assms(4)
    by (metis canonical_path_def list.distinct(1) render_Cons) (simp add: mount_host_entry_def strip_slash_def)
  have "attach_whiteouts r (mt_upper m) \<lparr>wo_set = [], wo_journal = [], wo_file = wo_file w\<rparr>
      = attach_whiteouts r (mt_upper m) (w\<lparr>wo_set := []\<rparr>)"
    by (cases w) (simp add: attach_whiteouts_def)
  then have "ns_wo (fn_ns fn) = attach_whiteouts r (mt_upper m) (w\<lparr>wo_set := []\<rparr>)"
    using assms(6,7) u unfolding mount_host_def assms(4) [symmetric]
    by (auto simp: ns_start_def attach_journals_def Let_def assms(4) [symmetric] split: if_splits)
  then show ?thesis using attach_whiteouts_recovers [OF assms(1-3)] by simp
qed

end
