(* ===== verification/Lx_Sysno.thy ===== *)
theory Lx_Sysno
  imports Lx_Prelude
begin

text \<open>
  System call numbers: \<open>abi/sysno.hpp\<close>.  An enumerator of \<open>Sysno\<close> is its underlying value: one
  abbreviation \<open>SYS_x\<close> per enumerator \<open>Sysno::x\<close>, numbered in the order of the declaration, and
  \<open>sysno_names\<close> lists the names in that order.  Each \<open>switch\<close> of \<open>decode\<close> is the table of its
  cases.  The lemmas show that both tables are strictly increasing in the number and that no
  two numbers of an architecture decode to the same enumerator.
\<close>

section \<open>The enumerators\<close>

datatype arch = X86_64 | Aarch64

type_synonym sysno = nat

definition sysno_names :: "string list" where
  "sysno_names =
   [''unknown'', ''read'', ''write'', ''open'', ''openat'', ''close'', ''mmap'', ''munmap'',
    ''mprotect'', ''brk'', ''getpid'', ''gettid'', ''clone'', ''fork'', ''vfork'', ''execve'',
    ''execveat'', ''wait4'', ''kill'', ''tgkill'', ''tkill'', ''exit'', ''exit_group'', ''uname'',
    ''arch_prctl'', ''set_tid_address'', ''ioctl'', ''writev'', ''readv'', ''rt_sigaction'',
    ''rt_sigprocmask'', ''getuid'', ''geteuid'', ''getgid'', ''getegid'', ''getresuid'',
    ''getresgid'', ''stat'', ''lstat'', ''fstat'', ''newfstatat'', ''statx'', ''lseek'', ''pread64'',
    ''pwrite64'', ''getdents64'', ''readlink'', ''readlinkat'', ''getcwd'', ''chdir'', ''fchdir'',
    ''access'', ''faccessat'', ''faccessat2'', ''dup'', ''dup2'', ''dup3'', ''fcntl'', ''openat2'',
    ''statfs'', ''fstatfs'', ''chroot'', ''getxattr'', ''lgetxattr'', ''fgetxattr'', ''setxattr'',
    ''lsetxattr'', ''fsetxattr'', ''listxattr'', ''llistxattr'', ''flistxattr'', ''removexattr'',
    ''lremovexattr'', ''fremovexattr'', ''inotify_add_watch'', ''fanotify_mark'',
    ''name_to_handle_at'', ''open_by_handle_at'', ''fsopen'', ''fsconfig'', ''fsmount'',
    ''move_mount'', ''open_tree'', ''mount_setattr'', ''statmount'', ''listmount'', ''pivot_root'',
    ''swapon'', ''swapoff'', ''acct'', ''quotactl'', ''ustat'', ''mount'', ''umount2'', ''getpgrp'',
    ''getppid'', ''sysinfo'', ''sched_getaffinity'', ''clock_gettime'', ''gettimeofday'', ''time'',
    ''clock_getres'', ''times'', ''getrlimit'', ''setrlimit'', ''prlimit64'', ''getrusage'',
    ''getrandom'', ''futex'', ''set_robust_list'', ''rseq'', ''membarrier'', ''sched_yield'',
    ''madvise'', ''mremap'', ''nanosleep'', ''clock_nanosleep'', ''pipe2'', ''ppoll'', ''pselect6'',
    ''epoll_create1'', ''epoll_ctl'', ''epoll_pwait'', ''eventfd2'', ''fsync'', ''fdatasync'',
    ''sync'', ''flock'', ''umask'', ''getgroups'', ''clone3'', ''rt_sigreturn'', ''rt_sigpending'',
    ''rt_sigsuspend'', ''sigaltstack'', ''setpgid'', ''getpgid'', ''setsid'', ''getsid'',
    ''getpriority'', ''setpriority'', ''mkdir'', ''mkdirat'', ''rmdir'', ''unlink'', ''unlinkat'',
    ''chmod'', ''fchmod'', ''fchmodat'', ''chown'', ''lchown'', ''fchown'', ''fchownat'',
    ''truncate'', ''ftruncate'', ''utimensat'', ''futimesat'', ''utimes'', ''utime'', ''mknod'',
    ''mknodat'', ''rename'', ''renameat'', ''renameat2'', ''link'', ''linkat'', ''symlink'',
    ''symlinkat'', ''setuid'', ''setgid'', ''setreuid'', ''setregid'', ''setresuid'', ''setresgid'',
    ''setfsuid'', ''setfsgid'', ''setgroups'', ''landlock_create_ruleset'', ''landlock_add_rule'',
    ''landlock_restrict_self'', ''socket'', ''socketpair'', ''listen'', ''accept'', ''accept4'',
    ''getpeername'', ''sendto'', ''recvfrom'', ''sendmsg'', ''recvmsg'', ''setsockopt'',
    ''getsockopt'', ''shutdown'', ''bind'', ''connect'', ''prctl'', ''getsockname'', ''capget'',
    ''copy_file_range'', ''fadvise64'', ''getitimer'', ''setitimer'', ''timer_create'',
    ''timer_settime'', ''timer_gettime'', ''timer_getoverrun'', ''timer_delete'', ''clock_settime'',
    ''settimeofday'', ''close_range'', ''fchmodat2'', ''seccomp'', ''mlock'', ''munlock'',
    ''mlockall'', ''munlockall'', ''mlock2'', ''mincore'', ''msync'', ''sched_setaffinity'',
    ''sched_getparam'', ''sched_setparam'', ''sched_getscheduler'', ''sched_setscheduler'',
    ''sched_get_priority_max'', ''sched_get_priority_min'', ''getcpu'', ''_sysctl'', ''add_key'',
    ''adjtimex'', ''afs_syscall'', ''alarm'', ''bpf'', ''cachestat'', ''capset'', ''clock_adjtime'',
    ''creat'', ''create_module'', ''delete_module'', ''epoll_create'', ''epoll_ctl_old'',
    ''epoll_pwait2'', ''epoll_wait'', ''epoll_wait_old'', ''eventfd'', ''fallocate'',
    ''fanotify_init'', ''file_getattr'', ''file_setattr'', ''finit_module'', ''fspick'',
    ''futex_requeue'', ''futex_wait'', ''futex_waitv'', ''futex_wake'', ''get_kernel_syms'',
    ''get_mempolicy'', ''get_robust_list'', ''get_thread_area'', ''getdents'', ''getpmsg'',
    ''getxattrat'', ''init_module'', ''inotify_init'', ''inotify_init1'', ''inotify_rm_watch'',
    ''io_cancel'', ''io_destroy'', ''io_getevents'', ''io_pgetevents'', ''io_setup'', ''io_submit'',
    ''io_uring_enter'', ''io_uring_register'', ''io_uring_setup'', ''ioperm'', ''iopl'',
    ''ioprio_get'', ''ioprio_set'', ''kcmp'', ''kexec_file_load'', ''kexec_load'', ''keyctl'',
    ''listns'', ''listxattrat'', ''lookup_dcookie'', ''lsm_get_self_attr'', ''lsm_list_modules'',
    ''lsm_set_self_attr'', ''map_shadow_stack'', ''mbind'', ''memfd_create'', ''memfd_secret'',
    ''migrate_pages'', ''modify_ldt'', ''move_pages'', ''mq_getsetattr'', ''mq_notify'', ''mq_open'',
    ''mq_timedreceive'', ''mq_timedsend'', ''mq_unlink'', ''mseal'', ''msgctl'', ''msgget'',
    ''msgrcv'', ''msgsnd'', ''nfsservctl'', ''open_tree_attr'', ''pause'', ''perf_event_open'',
    ''personality'', ''pidfd_getfd'', ''pidfd_open'', ''pidfd_send_signal'', ''pipe'',
    ''pkey_alloc'', ''pkey_free'', ''pkey_mprotect'', ''poll'', ''preadv'', ''preadv2'',
    ''process_madvise'', ''process_mrelease'', ''process_vm_readv'', ''process_vm_writev'',
    ''ptrace'', ''putpmsg'', ''pwritev'', ''pwritev2'', ''query_module'', ''quotactl_fd'',
    ''readahead'', ''reboot'', ''recvmmsg'', ''remap_file_pages'', ''removexattrat'',
    ''request_key'', ''restart_syscall'', ''rseq_slice_yield'', ''rt_sigqueueinfo'',
    ''rt_sigtimedwait'', ''rt_tgsigqueueinfo'', ''sched_getattr'', ''sched_rr_get_interval'',
    ''sched_setattr'', ''security'', ''select'', ''semctl'', ''semget'', ''semop'', ''semtimedop'',
    ''sendfile'', ''sendmmsg'', ''set_mempolicy'', ''set_mempolicy_home_node'', ''set_thread_area'',
    ''setdomainname'', ''sethostname'', ''setns'', ''setxattrat'', ''shmat'', ''shmctl'', ''shmdt'',
    ''shmget'', ''signalfd'', ''signalfd4'', ''splice'', ''sync_file_range'', ''syncfs'', ''sysfs'',
    ''syslog'', ''tee'', ''timerfd_create'', ''timerfd_gettime'', ''timerfd_settime'', ''tuxcall'',
    ''unshare'', ''uselib'', ''userfaultfd'', ''vhangup'', ''vmsplice'', ''vserver'', ''waitid'']"

abbreviation (input) SYS_unknown :: sysno where "SYS_unknown \<equiv> 0"
abbreviation (input) SYS_read :: sysno where "SYS_read \<equiv> 1"
abbreviation (input) SYS_write :: sysno where "SYS_write \<equiv> 2"
abbreviation (input) SYS_open :: sysno where "SYS_open \<equiv> 3"
abbreviation (input) SYS_openat :: sysno where "SYS_openat \<equiv> 4"
abbreviation (input) SYS_close :: sysno where "SYS_close \<equiv> 5"
abbreviation (input) SYS_mmap :: sysno where "SYS_mmap \<equiv> 6"
abbreviation (input) SYS_munmap :: sysno where "SYS_munmap \<equiv> 7"
abbreviation (input) SYS_mprotect :: sysno where "SYS_mprotect \<equiv> 8"
abbreviation (input) SYS_brk :: sysno where "SYS_brk \<equiv> 9"
abbreviation (input) SYS_getpid :: sysno where "SYS_getpid \<equiv> 10"
abbreviation (input) SYS_gettid :: sysno where "SYS_gettid \<equiv> 11"
abbreviation (input) SYS_clone :: sysno where "SYS_clone \<equiv> 12"
abbreviation (input) SYS_fork :: sysno where "SYS_fork \<equiv> 13"
abbreviation (input) SYS_vfork :: sysno where "SYS_vfork \<equiv> 14"
abbreviation (input) SYS_execve :: sysno where "SYS_execve \<equiv> 15"
abbreviation (input) SYS_execveat :: sysno where "SYS_execveat \<equiv> 16"
abbreviation (input) SYS_wait4 :: sysno where "SYS_wait4 \<equiv> 17"
abbreviation (input) SYS_kill :: sysno where "SYS_kill \<equiv> 18"
abbreviation (input) SYS_tgkill :: sysno where "SYS_tgkill \<equiv> 19"
abbreviation (input) SYS_tkill :: sysno where "SYS_tkill \<equiv> 20"
abbreviation (input) SYS_exit :: sysno where "SYS_exit \<equiv> 21"
abbreviation (input) SYS_exit_group :: sysno where "SYS_exit_group \<equiv> 22"
abbreviation (input) SYS_uname :: sysno where "SYS_uname \<equiv> 23"
abbreviation (input) SYS_arch_prctl :: sysno where "SYS_arch_prctl \<equiv> 24"
abbreviation (input) SYS_set_tid_address :: sysno where "SYS_set_tid_address \<equiv> 25"
abbreviation (input) SYS_ioctl :: sysno where "SYS_ioctl \<equiv> 26"
abbreviation (input) SYS_writev :: sysno where "SYS_writev \<equiv> 27"
abbreviation (input) SYS_readv :: sysno where "SYS_readv \<equiv> 28"
abbreviation (input) SYS_rt_sigaction :: sysno where "SYS_rt_sigaction \<equiv> 29"
abbreviation (input) SYS_rt_sigprocmask :: sysno where "SYS_rt_sigprocmask \<equiv> 30"
abbreviation (input) SYS_getuid :: sysno where "SYS_getuid \<equiv> 31"
abbreviation (input) SYS_geteuid :: sysno where "SYS_geteuid \<equiv> 32"
abbreviation (input) SYS_getgid :: sysno where "SYS_getgid \<equiv> 33"
abbreviation (input) SYS_getegid :: sysno where "SYS_getegid \<equiv> 34"
abbreviation (input) SYS_getresuid :: sysno where "SYS_getresuid \<equiv> 35"
abbreviation (input) SYS_getresgid :: sysno where "SYS_getresgid \<equiv> 36"
abbreviation (input) SYS_stat :: sysno where "SYS_stat \<equiv> 37"
abbreviation (input) SYS_lstat :: sysno where "SYS_lstat \<equiv> 38"
abbreviation (input) SYS_fstat :: sysno where "SYS_fstat \<equiv> 39"
abbreviation (input) SYS_newfstatat :: sysno where "SYS_newfstatat \<equiv> 40"
abbreviation (input) SYS_statx :: sysno where "SYS_statx \<equiv> 41"
abbreviation (input) SYS_lseek :: sysno where "SYS_lseek \<equiv> 42"
abbreviation (input) SYS_pread64 :: sysno where "SYS_pread64 \<equiv> 43"
abbreviation (input) SYS_pwrite64 :: sysno where "SYS_pwrite64 \<equiv> 44"
abbreviation (input) SYS_getdents64 :: sysno where "SYS_getdents64 \<equiv> 45"
abbreviation (input) SYS_readlink :: sysno where "SYS_readlink \<equiv> 46"
abbreviation (input) SYS_readlinkat :: sysno where "SYS_readlinkat \<equiv> 47"
abbreviation (input) SYS_getcwd :: sysno where "SYS_getcwd \<equiv> 48"
abbreviation (input) SYS_chdir :: sysno where "SYS_chdir \<equiv> 49"
abbreviation (input) SYS_fchdir :: sysno where "SYS_fchdir \<equiv> 50"
abbreviation (input) SYS_access :: sysno where "SYS_access \<equiv> 51"
abbreviation (input) SYS_faccessat :: sysno where "SYS_faccessat \<equiv> 52"
abbreviation (input) SYS_faccessat2 :: sysno where "SYS_faccessat2 \<equiv> 53"
abbreviation (input) SYS_dup :: sysno where "SYS_dup \<equiv> 54"
abbreviation (input) SYS_dup2 :: sysno where "SYS_dup2 \<equiv> 55"
abbreviation (input) SYS_dup3 :: sysno where "SYS_dup3 \<equiv> 56"
abbreviation (input) SYS_fcntl :: sysno where "SYS_fcntl \<equiv> 57"
abbreviation (input) SYS_openat2 :: sysno where "SYS_openat2 \<equiv> 58"
abbreviation (input) SYS_statfs :: sysno where "SYS_statfs \<equiv> 59"
abbreviation (input) SYS_fstatfs :: sysno where "SYS_fstatfs \<equiv> 60"
abbreviation (input) SYS_chroot :: sysno where "SYS_chroot \<equiv> 61"
abbreviation (input) SYS_getxattr :: sysno where "SYS_getxattr \<equiv> 62"
abbreviation (input) SYS_lgetxattr :: sysno where "SYS_lgetxattr \<equiv> 63"
abbreviation (input) SYS_fgetxattr :: sysno where "SYS_fgetxattr \<equiv> 64"
abbreviation (input) SYS_setxattr :: sysno where "SYS_setxattr \<equiv> 65"
abbreviation (input) SYS_lsetxattr :: sysno where "SYS_lsetxattr \<equiv> 66"
abbreviation (input) SYS_fsetxattr :: sysno where "SYS_fsetxattr \<equiv> 67"
abbreviation (input) SYS_listxattr :: sysno where "SYS_listxattr \<equiv> 68"
abbreviation (input) SYS_llistxattr :: sysno where "SYS_llistxattr \<equiv> 69"
abbreviation (input) SYS_flistxattr :: sysno where "SYS_flistxattr \<equiv> 70"
abbreviation (input) SYS_removexattr :: sysno where "SYS_removexattr \<equiv> 71"
abbreviation (input) SYS_lremovexattr :: sysno where "SYS_lremovexattr \<equiv> 72"
abbreviation (input) SYS_fremovexattr :: sysno where "SYS_fremovexattr \<equiv> 73"
abbreviation (input) SYS_inotify_add_watch :: sysno where "SYS_inotify_add_watch \<equiv> 74"
abbreviation (input) SYS_fanotify_mark :: sysno where "SYS_fanotify_mark \<equiv> 75"
abbreviation (input) SYS_name_to_handle_at :: sysno where "SYS_name_to_handle_at \<equiv> 76"
abbreviation (input) SYS_open_by_handle_at :: sysno where "SYS_open_by_handle_at \<equiv> 77"
abbreviation (input) SYS_fsopen :: sysno where "SYS_fsopen \<equiv> 78"
abbreviation (input) SYS_fsconfig :: sysno where "SYS_fsconfig \<equiv> 79"
abbreviation (input) SYS_fsmount :: sysno where "SYS_fsmount \<equiv> 80"
abbreviation (input) SYS_move_mount :: sysno where "SYS_move_mount \<equiv> 81"
abbreviation (input) SYS_open_tree :: sysno where "SYS_open_tree \<equiv> 82"
abbreviation (input) SYS_mount_setattr :: sysno where "SYS_mount_setattr \<equiv> 83"
abbreviation (input) SYS_statmount :: sysno where "SYS_statmount \<equiv> 84"
abbreviation (input) SYS_listmount :: sysno where "SYS_listmount \<equiv> 85"
abbreviation (input) SYS_pivot_root :: sysno where "SYS_pivot_root \<equiv> 86"
abbreviation (input) SYS_swapon :: sysno where "SYS_swapon \<equiv> 87"
abbreviation (input) SYS_swapoff :: sysno where "SYS_swapoff \<equiv> 88"
abbreviation (input) SYS_acct :: sysno where "SYS_acct \<equiv> 89"
abbreviation (input) SYS_quotactl :: sysno where "SYS_quotactl \<equiv> 90"
abbreviation (input) SYS_ustat :: sysno where "SYS_ustat \<equiv> 91"
abbreviation (input) SYS_mount :: sysno where "SYS_mount \<equiv> 92"
abbreviation (input) SYS_umount2 :: sysno where "SYS_umount2 \<equiv> 93"
abbreviation (input) SYS_getpgrp :: sysno where "SYS_getpgrp \<equiv> 94"
abbreviation (input) SYS_getppid :: sysno where "SYS_getppid \<equiv> 95"
abbreviation (input) SYS_sysinfo :: sysno where "SYS_sysinfo \<equiv> 96"
abbreviation (input) SYS_sched_getaffinity :: sysno where "SYS_sched_getaffinity \<equiv> 97"
abbreviation (input) SYS_clock_gettime :: sysno where "SYS_clock_gettime \<equiv> 98"
abbreviation (input) SYS_gettimeofday :: sysno where "SYS_gettimeofday \<equiv> 99"
abbreviation (input) SYS_time :: sysno where "SYS_time \<equiv> 100"
abbreviation (input) SYS_clock_getres :: sysno where "SYS_clock_getres \<equiv> 101"
abbreviation (input) SYS_times :: sysno where "SYS_times \<equiv> 102"
abbreviation (input) SYS_getrlimit :: sysno where "SYS_getrlimit \<equiv> 103"
abbreviation (input) SYS_setrlimit :: sysno where "SYS_setrlimit \<equiv> 104"
abbreviation (input) SYS_prlimit64 :: sysno where "SYS_prlimit64 \<equiv> 105"
abbreviation (input) SYS_getrusage :: sysno where "SYS_getrusage \<equiv> 106"
abbreviation (input) SYS_getrandom :: sysno where "SYS_getrandom \<equiv> 107"
abbreviation (input) SYS_futex :: sysno where "SYS_futex \<equiv> 108"
abbreviation (input) SYS_set_robust_list :: sysno where "SYS_set_robust_list \<equiv> 109"
abbreviation (input) SYS_rseq :: sysno where "SYS_rseq \<equiv> 110"
abbreviation (input) SYS_membarrier :: sysno where "SYS_membarrier \<equiv> 111"
abbreviation (input) SYS_sched_yield :: sysno where "SYS_sched_yield \<equiv> 112"
abbreviation (input) SYS_madvise :: sysno where "SYS_madvise \<equiv> 113"
abbreviation (input) SYS_mremap :: sysno where "SYS_mremap \<equiv> 114"
abbreviation (input) SYS_nanosleep :: sysno where "SYS_nanosleep \<equiv> 115"
abbreviation (input) SYS_clock_nanosleep :: sysno where "SYS_clock_nanosleep \<equiv> 116"
abbreviation (input) SYS_pipe2 :: sysno where "SYS_pipe2 \<equiv> 117"
abbreviation (input) SYS_ppoll :: sysno where "SYS_ppoll \<equiv> 118"
abbreviation (input) SYS_pselect6 :: sysno where "SYS_pselect6 \<equiv> 119"
abbreviation (input) SYS_epoll_create1 :: sysno where "SYS_epoll_create1 \<equiv> 120"
abbreviation (input) SYS_epoll_ctl :: sysno where "SYS_epoll_ctl \<equiv> 121"
abbreviation (input) SYS_epoll_pwait :: sysno where "SYS_epoll_pwait \<equiv> 122"
abbreviation (input) SYS_eventfd2 :: sysno where "SYS_eventfd2 \<equiv> 123"
abbreviation (input) SYS_fsync :: sysno where "SYS_fsync \<equiv> 124"
abbreviation (input) SYS_fdatasync :: sysno where "SYS_fdatasync \<equiv> 125"
abbreviation (input) SYS_sync :: sysno where "SYS_sync \<equiv> 126"
abbreviation (input) SYS_flock :: sysno where "SYS_flock \<equiv> 127"
abbreviation (input) SYS_umask :: sysno where "SYS_umask \<equiv> 128"
abbreviation (input) SYS_getgroups :: sysno where "SYS_getgroups \<equiv> 129"
abbreviation (input) SYS_clone3 :: sysno where "SYS_clone3 \<equiv> 130"
abbreviation (input) SYS_rt_sigreturn :: sysno where "SYS_rt_sigreturn \<equiv> 131"
abbreviation (input) SYS_rt_sigpending :: sysno where "SYS_rt_sigpending \<equiv> 132"
abbreviation (input) SYS_rt_sigsuspend :: sysno where "SYS_rt_sigsuspend \<equiv> 133"
abbreviation (input) SYS_sigaltstack :: sysno where "SYS_sigaltstack \<equiv> 134"
abbreviation (input) SYS_setpgid :: sysno where "SYS_setpgid \<equiv> 135"
abbreviation (input) SYS_getpgid :: sysno where "SYS_getpgid \<equiv> 136"
abbreviation (input) SYS_setsid :: sysno where "SYS_setsid \<equiv> 137"
abbreviation (input) SYS_getsid :: sysno where "SYS_getsid \<equiv> 138"
abbreviation (input) SYS_getpriority :: sysno where "SYS_getpriority \<equiv> 139"
abbreviation (input) SYS_setpriority :: sysno where "SYS_setpriority \<equiv> 140"
abbreviation (input) SYS_mkdir :: sysno where "SYS_mkdir \<equiv> 141"
abbreviation (input) SYS_mkdirat :: sysno where "SYS_mkdirat \<equiv> 142"
abbreviation (input) SYS_rmdir :: sysno where "SYS_rmdir \<equiv> 143"
abbreviation (input) SYS_unlink :: sysno where "SYS_unlink \<equiv> 144"
abbreviation (input) SYS_unlinkat :: sysno where "SYS_unlinkat \<equiv> 145"
abbreviation (input) SYS_chmod :: sysno where "SYS_chmod \<equiv> 146"
abbreviation (input) SYS_fchmod :: sysno where "SYS_fchmod \<equiv> 147"
abbreviation (input) SYS_fchmodat :: sysno where "SYS_fchmodat \<equiv> 148"
abbreviation (input) SYS_chown :: sysno where "SYS_chown \<equiv> 149"
abbreviation (input) SYS_lchown :: sysno where "SYS_lchown \<equiv> 150"
abbreviation (input) SYS_fchown :: sysno where "SYS_fchown \<equiv> 151"
abbreviation (input) SYS_fchownat :: sysno where "SYS_fchownat \<equiv> 152"
abbreviation (input) SYS_truncate :: sysno where "SYS_truncate \<equiv> 153"
abbreviation (input) SYS_ftruncate :: sysno where "SYS_ftruncate \<equiv> 154"
abbreviation (input) SYS_utimensat :: sysno where "SYS_utimensat \<equiv> 155"
abbreviation (input) SYS_futimesat :: sysno where "SYS_futimesat \<equiv> 156"
abbreviation (input) SYS_utimes :: sysno where "SYS_utimes \<equiv> 157"
abbreviation (input) SYS_utime :: sysno where "SYS_utime \<equiv> 158"
abbreviation (input) SYS_mknod :: sysno where "SYS_mknod \<equiv> 159"
abbreviation (input) SYS_mknodat :: sysno where "SYS_mknodat \<equiv> 160"
abbreviation (input) SYS_rename :: sysno where "SYS_rename \<equiv> 161"
abbreviation (input) SYS_renameat :: sysno where "SYS_renameat \<equiv> 162"
abbreviation (input) SYS_renameat2 :: sysno where "SYS_renameat2 \<equiv> 163"
abbreviation (input) SYS_link :: sysno where "SYS_link \<equiv> 164"
abbreviation (input) SYS_linkat :: sysno where "SYS_linkat \<equiv> 165"
abbreviation (input) SYS_symlink :: sysno where "SYS_symlink \<equiv> 166"
abbreviation (input) SYS_symlinkat :: sysno where "SYS_symlinkat \<equiv> 167"
abbreviation (input) SYS_setuid :: sysno where "SYS_setuid \<equiv> 168"
abbreviation (input) SYS_setgid :: sysno where "SYS_setgid \<equiv> 169"
abbreviation (input) SYS_setreuid :: sysno where "SYS_setreuid \<equiv> 170"
abbreviation (input) SYS_setregid :: sysno where "SYS_setregid \<equiv> 171"
abbreviation (input) SYS_setresuid :: sysno where "SYS_setresuid \<equiv> 172"
abbreviation (input) SYS_setresgid :: sysno where "SYS_setresgid \<equiv> 173"
abbreviation (input) SYS_setfsuid :: sysno where "SYS_setfsuid \<equiv> 174"
abbreviation (input) SYS_setfsgid :: sysno where "SYS_setfsgid \<equiv> 175"
abbreviation (input) SYS_setgroups :: sysno where "SYS_setgroups \<equiv> 176"
abbreviation (input) SYS_landlock_create_ruleset :: sysno where "SYS_landlock_create_ruleset \<equiv> 177"
abbreviation (input) SYS_landlock_add_rule :: sysno where "SYS_landlock_add_rule \<equiv> 178"
abbreviation (input) SYS_landlock_restrict_self :: sysno where "SYS_landlock_restrict_self \<equiv> 179"
abbreviation (input) SYS_socket :: sysno where "SYS_socket \<equiv> 180"
abbreviation (input) SYS_socketpair :: sysno where "SYS_socketpair \<equiv> 181"
abbreviation (input) SYS_listen :: sysno where "SYS_listen \<equiv> 182"
abbreviation (input) SYS_accept :: sysno where "SYS_accept \<equiv> 183"
abbreviation (input) SYS_accept4 :: sysno where "SYS_accept4 \<equiv> 184"
abbreviation (input) SYS_getpeername :: sysno where "SYS_getpeername \<equiv> 185"
abbreviation (input) SYS_sendto :: sysno where "SYS_sendto \<equiv> 186"
abbreviation (input) SYS_recvfrom :: sysno where "SYS_recvfrom \<equiv> 187"
abbreviation (input) SYS_sendmsg :: sysno where "SYS_sendmsg \<equiv> 188"
abbreviation (input) SYS_recvmsg :: sysno where "SYS_recvmsg \<equiv> 189"
abbreviation (input) SYS_setsockopt :: sysno where "SYS_setsockopt \<equiv> 190"
abbreviation (input) SYS_getsockopt :: sysno where "SYS_getsockopt \<equiv> 191"
abbreviation (input) SYS_shutdown :: sysno where "SYS_shutdown \<equiv> 192"
abbreviation (input) SYS_bind :: sysno where "SYS_bind \<equiv> 193"
abbreviation (input) SYS_connect :: sysno where "SYS_connect \<equiv> 194"
abbreviation (input) SYS_prctl :: sysno where "SYS_prctl \<equiv> 195"
abbreviation (input) SYS_getsockname :: sysno where "SYS_getsockname \<equiv> 196"
abbreviation (input) SYS_capget :: sysno where "SYS_capget \<equiv> 197"
abbreviation (input) SYS_copy_file_range :: sysno where "SYS_copy_file_range \<equiv> 198"
abbreviation (input) SYS_fadvise64 :: sysno where "SYS_fadvise64 \<equiv> 199"
abbreviation (input) SYS_getitimer :: sysno where "SYS_getitimer \<equiv> 200"
abbreviation (input) SYS_setitimer :: sysno where "SYS_setitimer \<equiv> 201"
abbreviation (input) SYS_timer_create :: sysno where "SYS_timer_create \<equiv> 202"
abbreviation (input) SYS_timer_settime :: sysno where "SYS_timer_settime \<equiv> 203"
abbreviation (input) SYS_timer_gettime :: sysno where "SYS_timer_gettime \<equiv> 204"
abbreviation (input) SYS_timer_getoverrun :: sysno where "SYS_timer_getoverrun \<equiv> 205"
abbreviation (input) SYS_timer_delete :: sysno where "SYS_timer_delete \<equiv> 206"
abbreviation (input) SYS_clock_settime :: sysno where "SYS_clock_settime \<equiv> 207"
abbreviation (input) SYS_settimeofday :: sysno where "SYS_settimeofday \<equiv> 208"
abbreviation (input) SYS_close_range :: sysno where "SYS_close_range \<equiv> 209"
abbreviation (input) SYS_fchmodat2 :: sysno where "SYS_fchmodat2 \<equiv> 210"
abbreviation (input) SYS_seccomp :: sysno where "SYS_seccomp \<equiv> 211"
abbreviation (input) SYS_mlock :: sysno where "SYS_mlock \<equiv> 212"
abbreviation (input) SYS_munlock :: sysno where "SYS_munlock \<equiv> 213"
abbreviation (input) SYS_mlockall :: sysno where "SYS_mlockall \<equiv> 214"
abbreviation (input) SYS_munlockall :: sysno where "SYS_munlockall \<equiv> 215"
abbreviation (input) SYS_mlock2 :: sysno where "SYS_mlock2 \<equiv> 216"
abbreviation (input) SYS_mincore :: sysno where "SYS_mincore \<equiv> 217"
abbreviation (input) SYS_msync :: sysno where "SYS_msync \<equiv> 218"
abbreviation (input) SYS_sched_setaffinity :: sysno where "SYS_sched_setaffinity \<equiv> 219"
abbreviation (input) SYS_sched_getparam :: sysno where "SYS_sched_getparam \<equiv> 220"
abbreviation (input) SYS_sched_setparam :: sysno where "SYS_sched_setparam \<equiv> 221"
abbreviation (input) SYS_sched_getscheduler :: sysno where "SYS_sched_getscheduler \<equiv> 222"
abbreviation (input) SYS_sched_setscheduler :: sysno where "SYS_sched_setscheduler \<equiv> 223"
abbreviation (input) SYS_sched_get_priority_max :: sysno where "SYS_sched_get_priority_max \<equiv> 224"
abbreviation (input) SYS_sched_get_priority_min :: sysno where "SYS_sched_get_priority_min \<equiv> 225"
abbreviation (input) SYS_getcpu :: sysno where "SYS_getcpu \<equiv> 226"
abbreviation (input) SYS__sysctl :: sysno where "SYS__sysctl \<equiv> 227"
abbreviation (input) SYS_add_key :: sysno where "SYS_add_key \<equiv> 228"
abbreviation (input) SYS_adjtimex :: sysno where "SYS_adjtimex \<equiv> 229"
abbreviation (input) SYS_afs_syscall :: sysno where "SYS_afs_syscall \<equiv> 230"
abbreviation (input) SYS_alarm :: sysno where "SYS_alarm \<equiv> 231"
abbreviation (input) SYS_bpf :: sysno where "SYS_bpf \<equiv> 232"
abbreviation (input) SYS_cachestat :: sysno where "SYS_cachestat \<equiv> 233"
abbreviation (input) SYS_capset :: sysno where "SYS_capset \<equiv> 234"
abbreviation (input) SYS_clock_adjtime :: sysno where "SYS_clock_adjtime \<equiv> 235"
abbreviation (input) SYS_creat :: sysno where "SYS_creat \<equiv> 236"
abbreviation (input) SYS_create_module :: sysno where "SYS_create_module \<equiv> 237"
abbreviation (input) SYS_delete_module :: sysno where "SYS_delete_module \<equiv> 238"
abbreviation (input) SYS_epoll_create :: sysno where "SYS_epoll_create \<equiv> 239"
abbreviation (input) SYS_epoll_ctl_old :: sysno where "SYS_epoll_ctl_old \<equiv> 240"
abbreviation (input) SYS_epoll_pwait2 :: sysno where "SYS_epoll_pwait2 \<equiv> 241"
abbreviation (input) SYS_epoll_wait :: sysno where "SYS_epoll_wait \<equiv> 242"
abbreviation (input) SYS_epoll_wait_old :: sysno where "SYS_epoll_wait_old \<equiv> 243"
abbreviation (input) SYS_eventfd :: sysno where "SYS_eventfd \<equiv> 244"
abbreviation (input) SYS_fallocate :: sysno where "SYS_fallocate \<equiv> 245"
abbreviation (input) SYS_fanotify_init :: sysno where "SYS_fanotify_init \<equiv> 246"
abbreviation (input) SYS_file_getattr :: sysno where "SYS_file_getattr \<equiv> 247"
abbreviation (input) SYS_file_setattr :: sysno where "SYS_file_setattr \<equiv> 248"
abbreviation (input) SYS_finit_module :: sysno where "SYS_finit_module \<equiv> 249"
abbreviation (input) SYS_fspick :: sysno where "SYS_fspick \<equiv> 250"
abbreviation (input) SYS_futex_requeue :: sysno where "SYS_futex_requeue \<equiv> 251"
abbreviation (input) SYS_futex_wait :: sysno where "SYS_futex_wait \<equiv> 252"
abbreviation (input) SYS_futex_waitv :: sysno where "SYS_futex_waitv \<equiv> 253"
abbreviation (input) SYS_futex_wake :: sysno where "SYS_futex_wake \<equiv> 254"
abbreviation (input) SYS_get_kernel_syms :: sysno where "SYS_get_kernel_syms \<equiv> 255"
abbreviation (input) SYS_get_mempolicy :: sysno where "SYS_get_mempolicy \<equiv> 256"
abbreviation (input) SYS_get_robust_list :: sysno where "SYS_get_robust_list \<equiv> 257"
abbreviation (input) SYS_get_thread_area :: sysno where "SYS_get_thread_area \<equiv> 258"
abbreviation (input) SYS_getdents :: sysno where "SYS_getdents \<equiv> 259"
abbreviation (input) SYS_getpmsg :: sysno where "SYS_getpmsg \<equiv> 260"
abbreviation (input) SYS_getxattrat :: sysno where "SYS_getxattrat \<equiv> 261"
abbreviation (input) SYS_init_module :: sysno where "SYS_init_module \<equiv> 262"
abbreviation (input) SYS_inotify_init :: sysno where "SYS_inotify_init \<equiv> 263"
abbreviation (input) SYS_inotify_init1 :: sysno where "SYS_inotify_init1 \<equiv> 264"
abbreviation (input) SYS_inotify_rm_watch :: sysno where "SYS_inotify_rm_watch \<equiv> 265"
abbreviation (input) SYS_io_cancel :: sysno where "SYS_io_cancel \<equiv> 266"
abbreviation (input) SYS_io_destroy :: sysno where "SYS_io_destroy \<equiv> 267"
abbreviation (input) SYS_io_getevents :: sysno where "SYS_io_getevents \<equiv> 268"
abbreviation (input) SYS_io_pgetevents :: sysno where "SYS_io_pgetevents \<equiv> 269"
abbreviation (input) SYS_io_setup :: sysno where "SYS_io_setup \<equiv> 270"
abbreviation (input) SYS_io_submit :: sysno where "SYS_io_submit \<equiv> 271"
abbreviation (input) SYS_io_uring_enter :: sysno where "SYS_io_uring_enter \<equiv> 272"
abbreviation (input) SYS_io_uring_register :: sysno where "SYS_io_uring_register \<equiv> 273"
abbreviation (input) SYS_io_uring_setup :: sysno where "SYS_io_uring_setup \<equiv> 274"
abbreviation (input) SYS_ioperm :: sysno where "SYS_ioperm \<equiv> 275"
abbreviation (input) SYS_iopl :: sysno where "SYS_iopl \<equiv> 276"
abbreviation (input) SYS_ioprio_get :: sysno where "SYS_ioprio_get \<equiv> 277"
abbreviation (input) SYS_ioprio_set :: sysno where "SYS_ioprio_set \<equiv> 278"
abbreviation (input) SYS_kcmp :: sysno where "SYS_kcmp \<equiv> 279"
abbreviation (input) SYS_kexec_file_load :: sysno where "SYS_kexec_file_load \<equiv> 280"
abbreviation (input) SYS_kexec_load :: sysno where "SYS_kexec_load \<equiv> 281"
abbreviation (input) SYS_keyctl :: sysno where "SYS_keyctl \<equiv> 282"
abbreviation (input) SYS_listns :: sysno where "SYS_listns \<equiv> 283"
abbreviation (input) SYS_listxattrat :: sysno where "SYS_listxattrat \<equiv> 284"
abbreviation (input) SYS_lookup_dcookie :: sysno where "SYS_lookup_dcookie \<equiv> 285"
abbreviation (input) SYS_lsm_get_self_attr :: sysno where "SYS_lsm_get_self_attr \<equiv> 286"
abbreviation (input) SYS_lsm_list_modules :: sysno where "SYS_lsm_list_modules \<equiv> 287"
abbreviation (input) SYS_lsm_set_self_attr :: sysno where "SYS_lsm_set_self_attr \<equiv> 288"
abbreviation (input) SYS_map_shadow_stack :: sysno where "SYS_map_shadow_stack \<equiv> 289"
abbreviation (input) SYS_mbind :: sysno where "SYS_mbind \<equiv> 290"
abbreviation (input) SYS_memfd_create :: sysno where "SYS_memfd_create \<equiv> 291"
abbreviation (input) SYS_memfd_secret :: sysno where "SYS_memfd_secret \<equiv> 292"
abbreviation (input) SYS_migrate_pages :: sysno where "SYS_migrate_pages \<equiv> 293"
abbreviation (input) SYS_modify_ldt :: sysno where "SYS_modify_ldt \<equiv> 294"
abbreviation (input) SYS_move_pages :: sysno where "SYS_move_pages \<equiv> 295"
abbreviation (input) SYS_mq_getsetattr :: sysno where "SYS_mq_getsetattr \<equiv> 296"
abbreviation (input) SYS_mq_notify :: sysno where "SYS_mq_notify \<equiv> 297"
abbreviation (input) SYS_mq_open :: sysno where "SYS_mq_open \<equiv> 298"
abbreviation (input) SYS_mq_timedreceive :: sysno where "SYS_mq_timedreceive \<equiv> 299"
abbreviation (input) SYS_mq_timedsend :: sysno where "SYS_mq_timedsend \<equiv> 300"
abbreviation (input) SYS_mq_unlink :: sysno where "SYS_mq_unlink \<equiv> 301"
abbreviation (input) SYS_mseal :: sysno where "SYS_mseal \<equiv> 302"
abbreviation (input) SYS_msgctl :: sysno where "SYS_msgctl \<equiv> 303"
abbreviation (input) SYS_msgget :: sysno where "SYS_msgget \<equiv> 304"
abbreviation (input) SYS_msgrcv :: sysno where "SYS_msgrcv \<equiv> 305"
abbreviation (input) SYS_msgsnd :: sysno where "SYS_msgsnd \<equiv> 306"
abbreviation (input) SYS_nfsservctl :: sysno where "SYS_nfsservctl \<equiv> 307"
abbreviation (input) SYS_open_tree_attr :: sysno where "SYS_open_tree_attr \<equiv> 308"
abbreviation (input) SYS_pause :: sysno where "SYS_pause \<equiv> 309"
abbreviation (input) SYS_perf_event_open :: sysno where "SYS_perf_event_open \<equiv> 310"
abbreviation (input) SYS_personality :: sysno where "SYS_personality \<equiv> 311"
abbreviation (input) SYS_pidfd_getfd :: sysno where "SYS_pidfd_getfd \<equiv> 312"
abbreviation (input) SYS_pidfd_open :: sysno where "SYS_pidfd_open \<equiv> 313"
abbreviation (input) SYS_pidfd_send_signal :: sysno where "SYS_pidfd_send_signal \<equiv> 314"
abbreviation (input) SYS_pipe :: sysno where "SYS_pipe \<equiv> 315"
abbreviation (input) SYS_pkey_alloc :: sysno where "SYS_pkey_alloc \<equiv> 316"
abbreviation (input) SYS_pkey_free :: sysno where "SYS_pkey_free \<equiv> 317"
abbreviation (input) SYS_pkey_mprotect :: sysno where "SYS_pkey_mprotect \<equiv> 318"
abbreviation (input) SYS_poll :: sysno where "SYS_poll \<equiv> 319"
abbreviation (input) SYS_preadv :: sysno where "SYS_preadv \<equiv> 320"
abbreviation (input) SYS_preadv2 :: sysno where "SYS_preadv2 \<equiv> 321"
abbreviation (input) SYS_process_madvise :: sysno where "SYS_process_madvise \<equiv> 322"
abbreviation (input) SYS_process_mrelease :: sysno where "SYS_process_mrelease \<equiv> 323"
abbreviation (input) SYS_process_vm_readv :: sysno where "SYS_process_vm_readv \<equiv> 324"
abbreviation (input) SYS_process_vm_writev :: sysno where "SYS_process_vm_writev \<equiv> 325"
abbreviation (input) SYS_ptrace :: sysno where "SYS_ptrace \<equiv> 326"
abbreviation (input) SYS_putpmsg :: sysno where "SYS_putpmsg \<equiv> 327"
abbreviation (input) SYS_pwritev :: sysno where "SYS_pwritev \<equiv> 328"
abbreviation (input) SYS_pwritev2 :: sysno where "SYS_pwritev2 \<equiv> 329"
abbreviation (input) SYS_query_module :: sysno where "SYS_query_module \<equiv> 330"
abbreviation (input) SYS_quotactl_fd :: sysno where "SYS_quotactl_fd \<equiv> 331"
abbreviation (input) SYS_readahead :: sysno where "SYS_readahead \<equiv> 332"
abbreviation (input) SYS_reboot :: sysno where "SYS_reboot \<equiv> 333"
abbreviation (input) SYS_recvmmsg :: sysno where "SYS_recvmmsg \<equiv> 334"
abbreviation (input) SYS_remap_file_pages :: sysno where "SYS_remap_file_pages \<equiv> 335"
abbreviation (input) SYS_removexattrat :: sysno where "SYS_removexattrat \<equiv> 336"
abbreviation (input) SYS_request_key :: sysno where "SYS_request_key \<equiv> 337"
abbreviation (input) SYS_restart_syscall :: sysno where "SYS_restart_syscall \<equiv> 338"
abbreviation (input) SYS_rseq_slice_yield :: sysno where "SYS_rseq_slice_yield \<equiv> 339"
abbreviation (input) SYS_rt_sigqueueinfo :: sysno where "SYS_rt_sigqueueinfo \<equiv> 340"
abbreviation (input) SYS_rt_sigtimedwait :: sysno where "SYS_rt_sigtimedwait \<equiv> 341"
abbreviation (input) SYS_rt_tgsigqueueinfo :: sysno where "SYS_rt_tgsigqueueinfo \<equiv> 342"
abbreviation (input) SYS_sched_getattr :: sysno where "SYS_sched_getattr \<equiv> 343"
abbreviation (input) SYS_sched_rr_get_interval :: sysno where "SYS_sched_rr_get_interval \<equiv> 344"
abbreviation (input) SYS_sched_setattr :: sysno where "SYS_sched_setattr \<equiv> 345"
abbreviation (input) SYS_security :: sysno where "SYS_security \<equiv> 346"
abbreviation (input) SYS_select :: sysno where "SYS_select \<equiv> 347"
abbreviation (input) SYS_semctl :: sysno where "SYS_semctl \<equiv> 348"
abbreviation (input) SYS_semget :: sysno where "SYS_semget \<equiv> 349"
abbreviation (input) SYS_semop :: sysno where "SYS_semop \<equiv> 350"
abbreviation (input) SYS_semtimedop :: sysno where "SYS_semtimedop \<equiv> 351"
abbreviation (input) SYS_sendfile :: sysno where "SYS_sendfile \<equiv> 352"
abbreviation (input) SYS_sendmmsg :: sysno where "SYS_sendmmsg \<equiv> 353"
abbreviation (input) SYS_set_mempolicy :: sysno where "SYS_set_mempolicy \<equiv> 354"
abbreviation (input) SYS_set_mempolicy_home_node :: sysno where "SYS_set_mempolicy_home_node \<equiv> 355"
abbreviation (input) SYS_set_thread_area :: sysno where "SYS_set_thread_area \<equiv> 356"
abbreviation (input) SYS_setdomainname :: sysno where "SYS_setdomainname \<equiv> 357"
abbreviation (input) SYS_sethostname :: sysno where "SYS_sethostname \<equiv> 358"
abbreviation (input) SYS_setns :: sysno where "SYS_setns \<equiv> 359"
abbreviation (input) SYS_setxattrat :: sysno where "SYS_setxattrat \<equiv> 360"
abbreviation (input) SYS_shmat :: sysno where "SYS_shmat \<equiv> 361"
abbreviation (input) SYS_shmctl :: sysno where "SYS_shmctl \<equiv> 362"
abbreviation (input) SYS_shmdt :: sysno where "SYS_shmdt \<equiv> 363"
abbreviation (input) SYS_shmget :: sysno where "SYS_shmget \<equiv> 364"
abbreviation (input) SYS_signalfd :: sysno where "SYS_signalfd \<equiv> 365"
abbreviation (input) SYS_signalfd4 :: sysno where "SYS_signalfd4 \<equiv> 366"
abbreviation (input) SYS_splice :: sysno where "SYS_splice \<equiv> 367"
abbreviation (input) SYS_sync_file_range :: sysno where "SYS_sync_file_range \<equiv> 368"
abbreviation (input) SYS_syncfs :: sysno where "SYS_syncfs \<equiv> 369"
abbreviation (input) SYS_sysfs :: sysno where "SYS_sysfs \<equiv> 370"
abbreviation (input) SYS_syslog :: sysno where "SYS_syslog \<equiv> 371"
abbreviation (input) SYS_tee :: sysno where "SYS_tee \<equiv> 372"
abbreviation (input) SYS_timerfd_create :: sysno where "SYS_timerfd_create \<equiv> 373"
abbreviation (input) SYS_timerfd_gettime :: sysno where "SYS_timerfd_gettime \<equiv> 374"
abbreviation (input) SYS_timerfd_settime :: sysno where "SYS_timerfd_settime \<equiv> 375"
abbreviation (input) SYS_tuxcall :: sysno where "SYS_tuxcall \<equiv> 376"
abbreviation (input) SYS_unshare :: sysno where "SYS_unshare \<equiv> 377"
abbreviation (input) SYS_uselib :: sysno where "SYS_uselib \<equiv> 378"
abbreviation (input) SYS_userfaultfd :: sysno where "SYS_userfaultfd \<equiv> 379"
abbreviation (input) SYS_vhangup :: sysno where "SYS_vhangup \<equiv> 380"
abbreviation (input) SYS_vmsplice :: sysno where "SYS_vmsplice \<equiv> 381"
abbreviation (input) SYS_vserver :: sysno where "SYS_vserver \<equiv> 382"
abbreviation (input) SYS_waitid :: sysno where "SYS_waitid \<equiv> 383"

section \<open>The tables\<close>

definition x86_1 :: "(nat \<times> sysno) list" where
  "x86_1 =
   [(0, SYS_read), (1, SYS_write), (2, SYS_open), (3, SYS_close), (4, SYS_stat), (5, SYS_fstat),
    (6, SYS_lstat), (7, SYS_poll), (8, SYS_lseek), (9, SYS_mmap), (10, SYS_mprotect),
    (11, SYS_munmap), (12, SYS_brk), (13, SYS_rt_sigaction), (14, SYS_rt_sigprocmask),
    (15, SYS_rt_sigreturn), (16, SYS_ioctl), (17, SYS_pread64), (18, SYS_pwrite64), (19, SYS_readv),
    (20, SYS_writev), (21, SYS_access), (22, SYS_pipe), (23, SYS_select), (24, SYS_sched_yield),
    (25, SYS_mremap), (26, SYS_msync), (27, SYS_mincore), (28, SYS_madvise), (29, SYS_shmget),
    (30, SYS_shmat), (31, SYS_shmctl), (32, SYS_dup), (33, SYS_dup2), (34, SYS_pause),
    (35, SYS_nanosleep), (36, SYS_getitimer), (37, SYS_alarm), (38, SYS_setitimer), (39, SYS_getpid),
    (40, SYS_sendfile), (41, SYS_socket), (42, SYS_connect), (43, SYS_accept), (44, SYS_sendto),
    (45, SYS_recvfrom), (46, SYS_sendmsg), (47, SYS_recvmsg), (48, SYS_shutdown), (49, SYS_bind),
    (50, SYS_listen), (51, SYS_getsockname), (52, SYS_getpeername), (53, SYS_socketpair),
    (54, SYS_setsockopt), (55, SYS_getsockopt), (56, SYS_clone), (57, SYS_fork), (58, SYS_vfork),
    (59, SYS_execve), (60, SYS_exit), (61, SYS_wait4), (62, SYS_kill), (63, SYS_uname),
    (64, SYS_semget), (65, SYS_semop), (66, SYS_semctl), (67, SYS_shmdt), (68, SYS_msgget),
    (69, SYS_msgsnd), (70, SYS_msgrcv), (71, SYS_msgctl), (72, SYS_fcntl), (73, SYS_flock),
    (74, SYS_fsync), (75, SYS_fdatasync), (76, SYS_truncate), (77, SYS_ftruncate),
    (78, SYS_getdents), (79, SYS_getcwd), (80, SYS_chdir), (81, SYS_fchdir), (82, SYS_rename),
    (83, SYS_mkdir), (84, SYS_rmdir), (85, SYS_creat), (86, SYS_link), (87, SYS_unlink),
    (88, SYS_symlink), (89, SYS_readlink), (90, SYS_chmod), (91, SYS_fchmod), (92, SYS_chown),
    (93, SYS_fchown), (94, SYS_lchown), (95, SYS_umask), (96, SYS_gettimeofday), (97, SYS_getrlimit),
    (98, SYS_getrusage), (99, SYS_sysinfo), (100, SYS_times), (101, SYS_ptrace), (102, SYS_getuid),
    (103, SYS_syslog), (104, SYS_getgid), (105, SYS_setuid), (106, SYS_setgid), (107, SYS_geteuid),
    (108, SYS_getegid), (109, SYS_setpgid), (110, SYS_getppid), (111, SYS_getpgrp),
    (112, SYS_setsid), (113, SYS_setreuid), (114, SYS_setregid), (115, SYS_getgroups),
    (116, SYS_setgroups), (117, SYS_setresuid), (118, SYS_getresuid), (119, SYS_setresgid),
    (120, SYS_getresgid), (121, SYS_getpgid), (122, SYS_setfsuid), (123, SYS_setfsgid),
    (124, SYS_getsid), (125, SYS_capget), (126, SYS_capset), (127, SYS_rt_sigpending),
    (128, SYS_rt_sigtimedwait), (129, SYS_rt_sigqueueinfo), (130, SYS_rt_sigsuspend),
    (131, SYS_sigaltstack), (132, SYS_utime), (133, SYS_mknod), (134, SYS_uselib),
    (135, SYS_personality), (136, SYS_ustat), (137, SYS_statfs), (138, SYS_fstatfs),
    (139, SYS_sysfs), (140, SYS_getpriority), (141, SYS_setpriority), (142, SYS_sched_setparam),
    (143, SYS_sched_getparam), (144, SYS_sched_setscheduler), (145, SYS_sched_getscheduler),
    (146, SYS_sched_get_priority_max), (147, SYS_sched_get_priority_min),
    (148, SYS_sched_rr_get_interval), (149, SYS_mlock)]"

definition x86_2 :: "(nat \<times> sysno) list" where
  "x86_2 =
   [(150, SYS_munlock), (151, SYS_mlockall), (152, SYS_munlockall), (153, SYS_vhangup),
    (154, SYS_modify_ldt), (155, SYS_pivot_root), (156, SYS__sysctl), (157, SYS_prctl),
    (158, SYS_arch_prctl), (159, SYS_adjtimex), (160, SYS_setrlimit), (161, SYS_chroot),
    (162, SYS_sync), (163, SYS_acct), (164, SYS_settimeofday), (165, SYS_mount), (166, SYS_umount2),
    (167, SYS_swapon), (168, SYS_swapoff), (169, SYS_reboot), (170, SYS_sethostname),
    (171, SYS_setdomainname), (172, SYS_iopl), (173, SYS_ioperm), (174, SYS_create_module),
    (175, SYS_init_module), (176, SYS_delete_module), (177, SYS_get_kernel_syms),
    (178, SYS_query_module), (179, SYS_quotactl), (180, SYS_nfsservctl), (181, SYS_getpmsg),
    (182, SYS_putpmsg), (183, SYS_afs_syscall), (184, SYS_tuxcall), (185, SYS_security),
    (186, SYS_gettid), (187, SYS_readahead), (188, SYS_setxattr), (189, SYS_lsetxattr),
    (190, SYS_fsetxattr), (191, SYS_getxattr), (192, SYS_lgetxattr), (193, SYS_fgetxattr),
    (194, SYS_listxattr), (195, SYS_llistxattr), (196, SYS_flistxattr), (197, SYS_removexattr),
    (198, SYS_lremovexattr), (199, SYS_fremovexattr), (200, SYS_tkill), (201, SYS_time),
    (202, SYS_futex), (203, SYS_sched_setaffinity), (204, SYS_sched_getaffinity),
    (205, SYS_set_thread_area), (206, SYS_io_setup), (207, SYS_io_destroy), (208, SYS_io_getevents),
    (209, SYS_io_submit), (210, SYS_io_cancel), (211, SYS_get_thread_area),
    (212, SYS_lookup_dcookie), (213, SYS_epoll_create), (214, SYS_epoll_ctl_old),
    (215, SYS_epoll_wait_old), (216, SYS_remap_file_pages), (217, SYS_getdents64),
    (218, SYS_set_tid_address), (219, SYS_restart_syscall), (220, SYS_semtimedop),
    (221, SYS_fadvise64), (222, SYS_timer_create), (223, SYS_timer_settime),
    (224, SYS_timer_gettime), (225, SYS_timer_getoverrun), (226, SYS_timer_delete),
    (227, SYS_clock_settime), (228, SYS_clock_gettime), (229, SYS_clock_getres),
    (230, SYS_clock_nanosleep), (231, SYS_exit_group), (232, SYS_epoll_wait), (233, SYS_epoll_ctl),
    (234, SYS_tgkill), (235, SYS_utimes), (236, SYS_vserver), (237, SYS_mbind),
    (238, SYS_set_mempolicy), (239, SYS_get_mempolicy), (240, SYS_mq_open), (241, SYS_mq_unlink),
    (242, SYS_mq_timedsend), (243, SYS_mq_timedreceive), (244, SYS_mq_notify),
    (245, SYS_mq_getsetattr), (246, SYS_kexec_load), (247, SYS_waitid), (248, SYS_add_key),
    (249, SYS_request_key), (250, SYS_keyctl), (251, SYS_ioprio_set), (252, SYS_ioprio_get),
    (253, SYS_inotify_init), (254, SYS_inotify_add_watch), (255, SYS_inotify_rm_watch),
    (256, SYS_migrate_pages), (257, SYS_openat), (258, SYS_mkdirat), (259, SYS_mknodat),
    (260, SYS_fchownat), (261, SYS_futimesat), (262, SYS_newfstatat), (263, SYS_unlinkat),
    (264, SYS_renameat), (265, SYS_linkat), (266, SYS_symlinkat), (267, SYS_readlinkat),
    (268, SYS_fchmodat), (269, SYS_faccessat), (270, SYS_pselect6), (271, SYS_ppoll),
    (272, SYS_unshare), (273, SYS_set_robust_list), (274, SYS_get_robust_list), (275, SYS_splice),
    (276, SYS_tee), (277, SYS_sync_file_range), (278, SYS_vmsplice), (279, SYS_move_pages),
    (280, SYS_utimensat), (281, SYS_epoll_pwait), (282, SYS_signalfd), (283, SYS_timerfd_create),
    (284, SYS_eventfd), (285, SYS_fallocate), (286, SYS_timerfd_settime), (287, SYS_timerfd_gettime),
    (288, SYS_accept4), (289, SYS_signalfd4), (290, SYS_eventfd2), (291, SYS_epoll_create1),
    (292, SYS_dup3), (293, SYS_pipe2), (294, SYS_inotify_init1), (295, SYS_preadv),
    (296, SYS_pwritev), (297, SYS_rt_tgsigqueueinfo), (298, SYS_perf_event_open),
    (299, SYS_recvmmsg)]"

definition x86_3 :: "(nat \<times> sysno) list" where
  "x86_3 =
   [(300, SYS_fanotify_init), (301, SYS_fanotify_mark), (302, SYS_prlimit64),
    (303, SYS_name_to_handle_at), (304, SYS_open_by_handle_at), (305, SYS_clock_adjtime),
    (306, SYS_syncfs), (307, SYS_sendmmsg), (308, SYS_setns), (309, SYS_getcpu),
    (310, SYS_process_vm_readv), (311, SYS_process_vm_writev), (312, SYS_kcmp),
    (313, SYS_finit_module), (314, SYS_sched_setattr), (315, SYS_sched_getattr),
    (316, SYS_renameat2), (317, SYS_seccomp), (318, SYS_getrandom), (319, SYS_memfd_create),
    (320, SYS_kexec_file_load), (321, SYS_bpf), (322, SYS_execveat), (323, SYS_userfaultfd),
    (324, SYS_membarrier), (325, SYS_mlock2), (326, SYS_copy_file_range), (327, SYS_preadv2),
    (328, SYS_pwritev2), (329, SYS_pkey_mprotect), (330, SYS_pkey_alloc), (331, SYS_pkey_free),
    (332, SYS_statx), (333, SYS_io_pgetevents), (334, SYS_rseq), (424, SYS_pidfd_send_signal),
    (425, SYS_io_uring_setup), (426, SYS_io_uring_enter), (427, SYS_io_uring_register),
    (428, SYS_open_tree), (429, SYS_move_mount), (430, SYS_fsopen), (431, SYS_fsconfig),
    (432, SYS_fsmount), (433, SYS_fspick), (434, SYS_pidfd_open), (435, SYS_clone3),
    (436, SYS_close_range), (437, SYS_openat2), (438, SYS_pidfd_getfd), (439, SYS_faccessat2),
    (440, SYS_process_madvise), (441, SYS_epoll_pwait2), (442, SYS_mount_setattr),
    (443, SYS_quotactl_fd), (444, SYS_landlock_create_ruleset), (445, SYS_landlock_add_rule),
    (446, SYS_landlock_restrict_self), (447, SYS_memfd_secret), (448, SYS_process_mrelease),
    (449, SYS_futex_waitv), (450, SYS_set_mempolicy_home_node), (451, SYS_cachestat),
    (452, SYS_fchmodat2), (453, SYS_map_shadow_stack), (454, SYS_futex_wake), (455, SYS_futex_wait),
    (456, SYS_futex_requeue), (457, SYS_statmount), (458, SYS_listmount),
    (459, SYS_lsm_get_self_attr), (460, SYS_lsm_set_self_attr), (461, SYS_lsm_list_modules),
    (462, SYS_mseal), (463, SYS_setxattrat), (464, SYS_getxattrat), (465, SYS_listxattrat),
    (466, SYS_removexattrat), (467, SYS_open_tree_attr), (468, SYS_file_getattr),
    (469, SYS_file_setattr), (470, SYS_listns), (471, SYS_rseq_slice_yield)]"

definition x86_table :: "(nat \<times> sysno) list" where
  "x86_table = x86_1 @ x86_2 @ x86_3"

definition arm_1 :: "(nat \<times> sysno) list" where
  "arm_1 =
   [(0, SYS_io_setup), (1, SYS_io_destroy), (2, SYS_io_submit), (3, SYS_io_cancel),
    (4, SYS_io_getevents), (5, SYS_setxattr), (6, SYS_lsetxattr), (7, SYS_fsetxattr),
    (8, SYS_getxattr), (9, SYS_lgetxattr), (10, SYS_fgetxattr), (11, SYS_listxattr),
    (12, SYS_llistxattr), (13, SYS_flistxattr), (14, SYS_removexattr), (15, SYS_lremovexattr),
    (16, SYS_fremovexattr), (17, SYS_getcwd), (18, SYS_lookup_dcookie), (19, SYS_eventfd2),
    (20, SYS_epoll_create1), (21, SYS_epoll_ctl), (22, SYS_epoll_pwait), (23, SYS_dup),
    (24, SYS_dup3), (25, SYS_fcntl), (26, SYS_inotify_init1), (27, SYS_inotify_add_watch),
    (28, SYS_inotify_rm_watch), (29, SYS_ioctl), (30, SYS_ioprio_set), (31, SYS_ioprio_get),
    (32, SYS_flock), (33, SYS_mknodat), (34, SYS_mkdirat), (35, SYS_unlinkat), (36, SYS_symlinkat),
    (37, SYS_linkat), (38, SYS_renameat), (39, SYS_umount2), (40, SYS_mount), (41, SYS_pivot_root),
    (42, SYS_nfsservctl), (43, SYS_statfs), (44, SYS_fstatfs), (45, SYS_truncate),
    (46, SYS_ftruncate), (47, SYS_fallocate), (48, SYS_faccessat), (49, SYS_chdir), (50, SYS_fchdir),
    (51, SYS_chroot), (52, SYS_fchmod), (53, SYS_fchmodat), (54, SYS_fchownat), (55, SYS_fchown),
    (56, SYS_openat), (57, SYS_close), (58, SYS_vhangup), (59, SYS_pipe2), (60, SYS_quotactl),
    (61, SYS_getdents64), (62, SYS_lseek), (63, SYS_read), (64, SYS_write), (65, SYS_readv),
    (66, SYS_writev), (67, SYS_pread64), (68, SYS_pwrite64), (69, SYS_preadv), (70, SYS_pwritev),
    (71, SYS_sendfile), (72, SYS_pselect6), (73, SYS_ppoll), (74, SYS_signalfd4), (75, SYS_vmsplice),
    (76, SYS_splice), (77, SYS_tee), (78, SYS_readlinkat), (79, SYS_newfstatat), (80, SYS_fstat),
    (81, SYS_sync), (82, SYS_fsync), (83, SYS_fdatasync), (84, SYS_sync_file_range),
    (85, SYS_timerfd_create), (86, SYS_timerfd_settime), (87, SYS_timerfd_gettime),
    (88, SYS_utimensat), (89, SYS_acct), (90, SYS_capget), (91, SYS_capset), (92, SYS_personality),
    (93, SYS_exit), (94, SYS_exit_group), (95, SYS_waitid), (96, SYS_set_tid_address),
    (97, SYS_unshare), (98, SYS_futex), (99, SYS_set_robust_list), (100, SYS_get_robust_list),
    (101, SYS_nanosleep), (102, SYS_getitimer), (103, SYS_setitimer), (104, SYS_kexec_load),
    (105, SYS_init_module), (106, SYS_delete_module), (107, SYS_timer_create),
    (108, SYS_timer_gettime), (109, SYS_timer_getoverrun), (110, SYS_timer_settime),
    (111, SYS_timer_delete), (112, SYS_clock_settime), (113, SYS_clock_gettime),
    (114, SYS_clock_getres), (115, SYS_clock_nanosleep), (116, SYS_syslog), (117, SYS_ptrace),
    (118, SYS_sched_setparam), (119, SYS_sched_setscheduler), (120, SYS_sched_getscheduler),
    (121, SYS_sched_getparam), (122, SYS_sched_setaffinity), (123, SYS_sched_getaffinity),
    (124, SYS_sched_yield), (125, SYS_sched_get_priority_max), (126, SYS_sched_get_priority_min),
    (127, SYS_sched_rr_get_interval), (128, SYS_restart_syscall), (129, SYS_kill), (130, SYS_tkill),
    (131, SYS_tgkill), (132, SYS_sigaltstack), (133, SYS_rt_sigsuspend), (134, SYS_rt_sigaction),
    (135, SYS_rt_sigprocmask), (136, SYS_rt_sigpending), (137, SYS_rt_sigtimedwait),
    (138, SYS_rt_sigqueueinfo), (139, SYS_rt_sigreturn), (140, SYS_setpriority),
    (141, SYS_getpriority), (142, SYS_reboot), (143, SYS_setregid), (144, SYS_setgid),
    (145, SYS_setreuid), (146, SYS_setuid), (147, SYS_setresuid), (148, SYS_getresuid),
    (149, SYS_setresgid)]"

definition arm_2 :: "(nat \<times> sysno) list" where
  "arm_2 =
   [(150, SYS_getresgid), (151, SYS_setfsuid), (152, SYS_setfsgid), (153, SYS_times),
    (154, SYS_setpgid), (155, SYS_getpgid), (156, SYS_getsid), (157, SYS_setsid),
    (158, SYS_getgroups), (159, SYS_setgroups), (160, SYS_uname), (161, SYS_sethostname),
    (162, SYS_setdomainname), (163, SYS_getrlimit), (164, SYS_setrlimit), (165, SYS_getrusage),
    (166, SYS_umask), (167, SYS_prctl), (168, SYS_getcpu), (169, SYS_gettimeofday),
    (170, SYS_settimeofday), (171, SYS_adjtimex), (172, SYS_getpid), (173, SYS_getppid),
    (174, SYS_getuid), (175, SYS_geteuid), (176, SYS_getgid), (177, SYS_getegid), (178, SYS_gettid),
    (179, SYS_sysinfo), (180, SYS_mq_open), (181, SYS_mq_unlink), (182, SYS_mq_timedsend),
    (183, SYS_mq_timedreceive), (184, SYS_mq_notify), (185, SYS_mq_getsetattr), (186, SYS_msgget),
    (187, SYS_msgctl), (188, SYS_msgrcv), (189, SYS_msgsnd), (190, SYS_semget), (191, SYS_semctl),
    (192, SYS_semtimedop), (193, SYS_semop), (194, SYS_shmget), (195, SYS_shmctl), (196, SYS_shmat),
    (197, SYS_shmdt), (198, SYS_socket), (199, SYS_socketpair), (200, SYS_bind), (201, SYS_listen),
    (202, SYS_accept), (203, SYS_connect), (204, SYS_getsockname), (205, SYS_getpeername),
    (206, SYS_sendto), (207, SYS_recvfrom), (208, SYS_setsockopt), (209, SYS_getsockopt),
    (210, SYS_shutdown), (211, SYS_sendmsg), (212, SYS_recvmsg), (213, SYS_readahead),
    (214, SYS_brk), (215, SYS_munmap), (216, SYS_mremap), (217, SYS_add_key), (218, SYS_request_key),
    (219, SYS_keyctl), (220, SYS_clone), (221, SYS_execve), (222, SYS_mmap), (223, SYS_fadvise64),
    (224, SYS_swapon), (225, SYS_swapoff), (226, SYS_mprotect), (227, SYS_msync), (228, SYS_mlock),
    (229, SYS_munlock), (230, SYS_mlockall), (231, SYS_munlockall), (232, SYS_mincore),
    (233, SYS_madvise), (234, SYS_remap_file_pages), (235, SYS_mbind), (236, SYS_get_mempolicy),
    (237, SYS_set_mempolicy), (238, SYS_migrate_pages), (239, SYS_move_pages),
    (240, SYS_rt_tgsigqueueinfo), (241, SYS_perf_event_open), (242, SYS_accept4),
    (243, SYS_recvmmsg), (260, SYS_wait4), (261, SYS_prlimit64), (262, SYS_fanotify_init),
    (263, SYS_fanotify_mark), (264, SYS_name_to_handle_at), (265, SYS_open_by_handle_at),
    (266, SYS_clock_adjtime), (267, SYS_syncfs), (268, SYS_setns), (269, SYS_sendmmsg),
    (270, SYS_process_vm_readv), (271, SYS_process_vm_writev), (272, SYS_kcmp),
    (273, SYS_finit_module), (274, SYS_sched_setattr), (275, SYS_sched_getattr),
    (276, SYS_renameat2), (277, SYS_seccomp), (278, SYS_getrandom), (279, SYS_memfd_create),
    (280, SYS_bpf), (281, SYS_execveat), (282, SYS_userfaultfd), (283, SYS_membarrier),
    (284, SYS_mlock2), (285, SYS_copy_file_range), (286, SYS_preadv2), (287, SYS_pwritev2),
    (288, SYS_pkey_mprotect), (289, SYS_pkey_alloc), (290, SYS_pkey_free), (291, SYS_statx),
    (292, SYS_io_pgetevents), (293, SYS_rseq), (294, SYS_kexec_file_load),
    (424, SYS_pidfd_send_signal), (425, SYS_io_uring_setup), (426, SYS_io_uring_enter),
    (427, SYS_io_uring_register), (428, SYS_open_tree), (429, SYS_move_mount), (430, SYS_fsopen),
    (431, SYS_fsconfig), (432, SYS_fsmount), (433, SYS_fspick), (434, SYS_pidfd_open),
    (435, SYS_clone3), (436, SYS_close_range), (437, SYS_openat2), (438, SYS_pidfd_getfd),
    (439, SYS_faccessat2), (440, SYS_process_madvise), (441, SYS_epoll_pwait2),
    (442, SYS_mount_setattr), (443, SYS_quotactl_fd), (444, SYS_landlock_create_ruleset)]"

definition arm_3 :: "(nat \<times> sysno) list" where
  "arm_3 =
   [(445, SYS_landlock_add_rule), (446, SYS_landlock_restrict_self), (447, SYS_memfd_secret),
    (448, SYS_process_mrelease), (449, SYS_futex_waitv), (450, SYS_set_mempolicy_home_node),
    (451, SYS_cachestat), (452, SYS_fchmodat2), (453, SYS_map_shadow_stack), (454, SYS_futex_wake),
    (455, SYS_futex_wait), (456, SYS_futex_requeue), (457, SYS_statmount), (458, SYS_listmount),
    (459, SYS_lsm_get_self_attr), (460, SYS_lsm_set_self_attr), (461, SYS_lsm_list_modules),
    (462, SYS_mseal), (463, SYS_setxattrat), (464, SYS_getxattrat), (465, SYS_listxattrat),
    (466, SYS_removexattrat), (467, SYS_open_tree_attr), (468, SYS_file_getattr),
    (469, SYS_file_setattr), (470, SYS_listns), (471, SYS_rseq_slice_yield)]"

definition arm_table :: "(nat \<times> sysno) list" where
  "arm_table = arm_1 @ arm_2 @ arm_3"

definition arch_table :: "arch \<Rightarrow> (nat \<times> sysno) list" where
  "arch_table a = (case a of X86_64 \<Rightarrow> x86_table | Aarch64 \<Rightarrow> arm_table)"

definition decode :: "arch \<Rightarrow> nat \<Rightarrow> sysno" where
  "decode a nr = (case map_of (arch_table a) nr of None \<Rightarrow> SYS_unknown | Some s \<Rightarrow> s)"

text \<open>\<open>conform/arch.hpp\<close> and \<open>conform/sysno_names.hpp\<close>: what the conformance oracles ask of
  the tables.\<close>

definition arch_has :: "arch \<Rightarrow> sysno \<Rightarrow> bool" where
  "arch_has a s = (s \<noteq> SYS_unknown \<and> (\<exists>nr < 600. decode a nr = s))"

definition arch_name :: "arch \<Rightarrow> string" where
  "arch_name a = (case a of X86_64 \<Rightarrow> ''x86_64'' | Aarch64 \<Rightarrow> ''aarch64'')"

definition name_of :: "sysno \<Rightarrow> string" where
  "name_of s = (if s < length sysno_names then sysno_names ! s else ''<out-of-range>'')"

section \<open>The tables are well formed\<close>

lemmas x86_defs = x86_table_def x86_1_def x86_2_def x86_3_def
lemmas arm_defs = arm_table_def arm_1_def arm_2_def arm_3_def

lemma x86_ascending: "sorted_wrt (<) (map fst x86_table)"
  by (simp add: x86_defs sorted_wrt2_simps del: sorted_wrt.simps)

lemma arm_ascending: "sorted_wrt (<) (map fst arm_table)"
  by (simp add: arm_defs sorted_wrt2_simps del: sorted_wrt.simps)

lemma x86_names_distinct: "distinct (map snd x86_table)"
  by (simp add: x86_defs)

lemma arm_names_distinct: "distinct (map snd arm_table)"
  by (simp add: arm_defs)

lemma x86_rows: "list_all (\<lambda>p. fst p < 472 \<and> 0 < snd p \<and> snd p < 384) x86_table"
  by (simp add: x86_defs)

lemma arm_rows: "list_all (\<lambda>p. fst p < 472 \<and> 0 < snd p \<and> snd p < 384) arm_table"
  by (simp add: arm_defs)

lemma arch_table_ascending: "sorted_wrt (<) (map fst (arch_table a))"
  by (cases a) (simp_all add: arch_table_def x86_ascending arm_ascending)

lemma arch_table_distinct: "distinct (map fst (arch_table a))" "distinct (map snd (arch_table a))"
  using arch_table_ascending [of a]
  by (cases a; simp add: arch_table_def x86_names_distinct arm_names_distinct strict_sorted_iff)+

lemma arch_table_row:
  assumes "(n, s) \<in> set (arch_table a)"
  shows "n < 472" "0 < s" "s < 384"
  using assms x86_rows arm_rows by (cases a; fastforce simp: arch_table_def list_all_iff)+

lemma decode_row: "(n, s) \<in> set (arch_table a) \<Longrightarrow> decode a n = s"
  by (simp add: decode_def arch_table_distinct)

lemma decode_known:
  assumes "decode a n \<noteq> SYS_unknown"
  shows "(n, decode a n) \<in> set (arch_table a)"
  using assms by (auto simp: decode_def split: option.splits dest: map_of_SomeD)

lemma decode_bounds:
  "decode a n < 384" "decode a n \<noteq> SYS_unknown \<Longrightarrow> n < 472"
  using arch_table_row [OF decode_known [of a n]]
  by (cases "decode a n = SYS_unknown"; simp)+

lemma decode_inj:
  assumes "decode a m = decode a n" "decode a m \<noteq> SYS_unknown"
  shows "m = n"
proof -
  have "(m, decode a n) \<in> set (arch_table a)" "(n, decode a n) \<in> set (arch_table a)"
    using decode_known [of a m] decode_known [of a n] assms by simp_all
  then show ?thesis
    using arch_table_distinct(2) [of a] inj_onD [of snd "set (arch_table a)" "(m, decode a n)" "(n, decode a n)"]
    by (simp add: distinct_map)
qed

lemma arch_has_iff: "arch_has a s \<longleftrightarrow> s \<noteq> SYS_unknown \<and> s \<in> set (map snd (arch_table a))"
proof -
  have "\<exists>nr < 600. decode a nr = s" if row: "s \<in> snd ` set (arch_table a)"
  proof -
    from row obtain n where "(n, s) \<in> set (arch_table a)" by force
    with decode_row [OF this] arch_table_row(1) [OF this] show ?thesis by (intro exI [of _ n]) simp
  qed
  moreover have "s \<noteq> SYS_unknown \<Longrightarrow> decode a nr = s \<Longrightarrow> s \<in> snd ` set (arch_table a)" for nr
    using decode_known [of a nr] by force
  ultimately show ?thesis by (auto simp: arch_has_def)
qed

lemma x86_covers: "set (map snd x86_table) = {0<..<384}"
proof (rule card_subset_eq)
  show "set (map snd x86_table) \<subseteq> {0<..<384}"
    using x86_rows by (auto simp: list_all_iff)
  have "length x86_table = 383" by (simp add: x86_defs)
  then show "card (set (map snd x86_table)) = card {0<..<384::nat}"
    using distinct_card [OF x86_names_distinct] by simp
qed simp

text \<open>The kernel's x86-64 table names every system call of the enumeration.\<close>

lemma x86_has_every_call:
  assumes "s \<noteq> SYS_unknown" "s < 384"
  shows "\<exists>n. decode X86_64 n = s"
proof -
  from assms x86_covers have "s \<in> snd ` set x86_table" by auto
  then obtain n where "(n, s) \<in> set (arch_table X86_64)" by (force simp: arch_table_def)
  then show ?thesis using decode_row by blast
qed

lemma rows_member: "list_ex (\<lambda>q. q = p) t \<Longrightarrow> p \<in> set t"
  by (auto simp: list_ex_iff)

lemma x86_uring_rows:
  "list_ex (\<lambda>q. q = (425, SYS_io_uring_setup)) x86_table"
  "list_ex (\<lambda>q. q = (426, SYS_io_uring_enter)) x86_table"
  "list_ex (\<lambda>q. q = (427, SYS_io_uring_register)) x86_table"
  by (simp_all add: x86_defs)

lemma arm_uring_rows:
  "list_ex (\<lambda>q. q = (425, SYS_io_uring_setup)) arm_table"
  "list_ex (\<lambda>q. q = (426, SYS_io_uring_enter)) arm_table"
  "list_ex (\<lambda>q. q = (427, SYS_io_uring_register)) arm_table"
  by (simp_all add: arm_defs)

lemma uring_rows:
  "decode a 425 = SYS_io_uring_setup" "decode a 426 = SYS_io_uring_enter"
  "decode a 427 = SYS_io_uring_register"
  using x86_uring_rows [THEN rows_member] arm_uring_rows [THEN rows_member]
  by (cases a; intro decode_row; simp add: arch_table_def)+

end
