(* ===== verification/Lx_Seccomp.thy ===== *)
theory Lx_Seccomp
  imports Lx_Sysno
begin

text \<open>
  The trap filter: \<open>runtime/linux/seccomp_arch.hpp\<close> and \<open>runtime/linux/seccomp_filter.hpp\<close>.

  The list of trapped x86-64 numbers, its translation to the other architecture through the
  inverted decode table, and the classic-BPF program that \<open>install_trap_filter\<close> assembles are
  translated as they stand, the jump offsets at their eight bits.  The BPF machine belongs to the
  kernel: it is the parameter \<open>run\<close>, and \<open>cbpf_laws\<close> states the documented meaning of the five
  instructions the program uses.  The lemmas show what the assembled program answers for every
  architecture token and number, and that no system call the coverage check of the repository
  classifies as path-bearing runs without the tracer.
\<close>

unbundle bit_operations_syntax

section \<open>Per-architecture facts\<close>

definition seccomp_audit_arch :: "arch \<Rightarrow> u32" where
  "seccomp_audit_arch a = (if a = Aarch64 then 0xC00000B7 else 0xC000003E)"

definition has_x32_personality :: "arch \<Rightarrow> bool" where
  "has_x32_personality a = (a = X86_64)"

definition kMaxSysno :: nat where "kMaxSysno = 1024"

definition kSysnoCount :: nat where "kSysnoCount = 512"

definition kNoSysno :: nat where "kNoSysno = 2 ^ 64 - 1"

definition invert_step :: "arch \<Rightarrow> nat \<Rightarrow> nat list \<Rightarrow> nat list" where
  "invert_step a n t =
     (let s = decode a n
      in if s \<noteq> 0 \<and> s < kSysnoCount \<and> t ! s = kNoSysno then t[s := n] else t)"

definition invert :: "arch \<Rightarrow> nat list" where
  "invert a = fold (invert_step a) [0..<kMaxSysno] (replicate kSysnoCount kNoSysno)"

definition encode :: "arch \<Rightarrow> sysno \<Rightarrow> nat" where
  "encode a s = (if s = 0 \<or> kSysnoCount \<le> s then kNoSysno else invert a ! s)"

definition trapped_for :: "arch \<Rightarrow> nat list \<Rightarrow> nat list" where
  "trapped_for a xs =
     (if a = X86_64 then xs
      else let target = invert a
           in map (\<lambda>x. let s = decode X86_64 x
                        in if s = 0 \<or> kSysnoCount \<le> s then kNoSysno else target ! s) xs)"

definition max_sysno_index :: "arch \<Rightarrow> nat" where
  "max_sysno_index a = fold (\<lambda>n hi. if decode a n > hi then decode a n else hi) [0..<kMaxSysno] 0"

section \<open>The trapped set\<close>

definition kTrappedX86_64 :: "nat list" where
  "kTrappedX86_64 =
   [39, 110, 186, 102, 104, 107, 108, 218, 118, 120, 56, 57, 58, 435, 59, 322, 61, 247, 62,
    200, 234, 434, 55, 63, 99, 204, 203, 144, 145, 142, 143, 148, 314, 315, 302, 310, 311,
    312, 251, 252, 115, 111, 121, 124, 112, 109, 140, 141, 16, 2, 257, 437, 85, 452, 433, 4,
    6, 262, 332, 137, 138, 21, 269, 439, 80, 81, 161, 89, 267, 79, 217, 8, 191, 192, 193, 188,
    189, 190, 194, 195, 196, 463, 464, 465, 466, 467, 468, 469, 470, 197, 198, 199, 3, 32,
    33, 292, 72, 83, 258, 133, 259, 84, 87, 263, 90, 268, 91, 92, 94, 93, 260, 76, 235, 132,
    280, 261, 82, 264, 316, 86, 265, 88, 266, 49, 42, 41, 157, 105, 106, 114, 113, 117, 119,
    122, 123, 116, 444, 445, 446, 165, 166, 254, 301, 303, 304, 430, 431, 432, 429, 428, 442,
    457, 458, 155, 167, 168, 163, 179, 136]"

text \<open>\<open>PATH_BEARING\<close> of \<open>tools/check_syscall_coverage.sh\<close>: the calls whose first-class job is to
  name a filesystem path.\<close>

definition PATH_BEARING :: "sysno list" where
  "PATH_BEARING =
   [SYS_open, SYS_openat, SYS_openat2, SYS_creat, SYS_stat, SYS_lstat, SYS_newfstatat,
    SYS_statx, SYS_statfs, SYS_access, SYS_faccessat, SYS_faccessat2, SYS_chdir, SYS_chroot,
    SYS_truncate, SYS_rename, SYS_renameat, SYS_renameat2, SYS_mkdir, SYS_mkdirat, SYS_rmdir,
    SYS_link, SYS_linkat, SYS_unlink, SYS_unlinkat, SYS_symlink, SYS_symlinkat, SYS_readlink,
    SYS_readlinkat, SYS_chmod, SYS_fchmodat, SYS_fchmodat2, SYS_chown, SYS_lchown,
    SYS_fchownat, SYS_mknod, SYS_mknodat, SYS_utimensat, SYS_futimesat, SYS_utimes,
    SYS_setxattr, SYS_lsetxattr, SYS_getxattr, SYS_lgetxattr, SYS_listxattr, SYS_llistxattr,
    SYS_removexattr, SYS_lremovexattr, SYS_mount, SYS_umount2, SYS_pivot_root, SYS_swapon,
    SYS_swapoff, SYS_acct, SYS_quotactl, SYS_name_to_handle_at, SYS_open_tree, SYS_move_mount,
    SYS_fsopen, SYS_fspick, SYS_execve, SYS_execveat, SYS_statmount, SYS_listmount,
    SYS_setxattrat, SYS_getxattrat, SYS_listxattrat, SYS_removexattrat, SYS_open_tree_attr,
    SYS_file_getattr, SYS_file_setattr]"

section \<open>The program\<close>

record sock_filter =
  bpf_code :: u16
  bpf_jt :: u8
  bpf_jf :: u8
  bpf_k :: u32

abbreviation "LD_W_ABS \<equiv> (0x20 :: u16)"
abbreviation "JEQ_K \<equiv> (0x15 :: u16)"
abbreviation "JGT_K \<equiv> (0x25 :: u16)"
abbreviation "JGE_K \<equiv> (0x35 :: u16)"
abbreviation "RET_K \<equiv> (0x06 :: u16)"

definition BPF_STMT :: "u16 \<Rightarrow> u32 \<Rightarrow> sock_filter" where
  "BPF_STMT c k = \<lparr>bpf_code = c, bpf_jt = 0, bpf_jf = 0, bpf_k = k\<rparr>"

definition BPF_JUMP :: "u16 \<Rightarrow> u32 \<Rightarrow> u8 \<Rightarrow> u8 \<Rightarrow> sock_filter" where
  "BPF_JUMP c k jt jf = \<lparr>bpf_code = c, bpf_jt = jt, bpf_jf = jf, bpf_k = k\<rparr>"

definition kEnosys :: u32 where "kEnosys = 0x00050000 OR 38"

definition kX32Bit :: u32 where "kX32Bit = 0x40000000"

abbreviation "SECCOMP_RET_ALLOW \<equiv> (0x7fff0000 :: u32)"
abbreviation "SECCOMP_RET_TRACE \<equiv> (0x7ff00000 :: u32)"

definition trapped_here :: "arch \<Rightarrow> u32 list" where
  "trapped_here a = map of_nat (filter (\<lambda>nr. nr \<noteq> kNoSysno) (trapped_for a kTrappedX86_64))"

text \<open>The program over a list of trapped numbers: the prologue, the gates, one compare for each
  number and the three leaves.  \<open>to_enosys\<close> and the offset of a compare are cast to eight bits.\<close>

definition emit_uring :: "arch \<Rightarrow> bool" where
  "emit_uring a = (encode a SYS_io_uring_setup \<noteq> kNoSysno \<and> encode a SYS_io_uring_register \<noteq> kNoSysno)"

definition firstJeq :: "arch \<Rightarrow> nat" where
  "firstJeq a = 4 + ((if has_x32_personality a then 1 else 0) + (if emit_uring a then 2 else 0))"

definition to_enosys :: "arch \<Rightarrow> nat \<Rightarrow> nat \<Rightarrow> u8" where
  "to_enosys a nTrapped idx = of_nat ((firstJeq a + nTrapped + 2) - idx - 1)"

definition filter_prologue :: "arch \<Rightarrow> sock_filter list" where
  "filter_prologue a =
     [BPF_STMT LD_W_ABS 4,
      BPF_JUMP JEQ_K (seccomp_audit_arch a) 1 0,
      BPF_STMT RET_K kEnosys,
      BPF_STMT LD_W_ABS 0]"

definition filter_gates :: "arch \<Rightarrow> nat \<Rightarrow> sock_filter list" where
  "filter_gates a nTrapped =
     (let f = filter_prologue a;
          g = (if has_x32_personality a
               then [BPF_JUMP JGE_K kX32Bit (to_enosys a nTrapped (length f)) 0] else []);
          u = (if emit_uring a
               then [BPF_JUMP JGE_K (of_nat (encode a SYS_io_uring_setup)) 0 1,
                     BPF_JUMP JGT_K (of_nat (encode a SYS_io_uring_register)) 0
                       (to_enosys a nTrapped (length f + length g + 1))]
               else [])
      in g @ u)"

definition filter_compares :: "u32 list \<Rightarrow> sock_filter list" where
  "filter_compares trapped =
     map (\<lambda>i. BPF_JUMP JEQ_K (trapped ! i) (of_nat ((length trapped - 1 - i) + 1)) 0)
       [0..<length trapped]"

definition filter_leaves :: "sock_filter list" where
  "filter_leaves =
     [BPF_STMT RET_K SECCOMP_RET_ALLOW, BPF_STMT RET_K SECCOMP_RET_TRACE, BPF_STMT RET_K kEnosys]"

definition trap_filter :: "arch \<Rightarrow> sock_filter list" where
  "trap_filter a =
     (let trapped = trapped_here a; n = length trapped
      in filter_prologue a @ filter_gates a n @ filter_compares trapped @ filter_leaves)"

text \<open>The kernel's side of the installation: the two \<open>prctl\<close> calls and the \<open>seccomp\<close> call, over
  a kernel state of its own.  \<open>prog.len\<close> is the sixteen-bit count of instructions.\<close>

record 'w seccomp_ops =
  op_no_new_privs :: "'w \<Rightarrow> int \<times> 'w"
  op_seccomp :: "u16 \<Rightarrow> sock_filter list \<Rightarrow> 'w \<Rightarrow> int \<times> 'w"
  op_prctl_seccomp :: "u16 \<Rightarrow> sock_filter list \<Rightarrow> 'w \<Rightarrow> int \<times> 'w"

definition install_trap_filter :: "'w seccomp_ops \<Rightarrow> arch \<Rightarrow> 'w \<Rightarrow> bool \<times> 'w" where
  "install_trap_filter K a w =
     (let (rc, w) = op_no_new_privs K w
      in if rc \<noteq> 0 then (False, w)
         else let f = trap_filter a; (rc, w) = op_seccomp K (of_nat (length f)) f w
              in if rc \<noteq> 0
                 then let (rc, w) = op_prctl_seccomp K (of_nat (length f)) f w in (rc = 0, w)
                 else (True, w))"

section \<open>The machine the program runs on\<close>

record seccomp_data =
  sd_nr :: u32
  sd_arch :: u32

text \<open>The documented meaning of the instructions the filter uses, for a machine that is given the
  rest of the program: a load of the number (offset 0) or of the architecture token (offset 4),
  the three unsigned compares against a constant, whose offset counts the instructions to skip,
  and the return of a constant.\<close>

definition jump_law :: "(seccomp_data \<Rightarrow> sock_filter list \<Rightarrow> u32 \<Rightarrow> u32 option) \<Rightarrow> u16 \<Rightarrow> (u32 \<Rightarrow> u32 \<Rightarrow> bool) \<Rightarrow> bool" where
  "jump_law run c test \<longleftrightarrow>
     (\<forall>d k jt jf p x. run d (BPF_JUMP c k jt jf # p) x =
        run d (drop (unat (if test x k then jt else jf)) p) x)"

definition cbpf_laws :: "(seccomp_data \<Rightarrow> sock_filter list \<Rightarrow> u32 \<Rightarrow> u32 option) \<Rightarrow> bool" where
  "cbpf_laws run \<longleftrightarrow>
     (\<forall>d p x. run d (BPF_STMT LD_W_ABS 0 # p) x = run d p (sd_nr d)) \<and>
     (\<forall>d p x. run d (BPF_STMT LD_W_ABS 4 # p) x = run d p (sd_arch d)) \<and>
     jump_law run JEQ_K (\<lambda>x k. x = k) \<and> jump_law run JGT_K (\<lambda>x k. x > k) \<and>
     jump_law run JGE_K (\<lambda>x k. x \<ge> k) \<and>
     (\<forall>d k p x. run d (BPF_STMT RET_K k # p) x = Some k)"

text \<open>What the comment above the program promises.\<close>

definition seccomp_verdict :: "arch \<Rightarrow> seccomp_data \<Rightarrow> u32" where
  "seccomp_verdict a d =
     (if sd_arch d \<noteq> seccomp_audit_arch a then kEnosys
      else if has_x32_personality a \<and> kX32Bit \<le> sd_nr d then kEnosys
      else if decode a (unat (sd_nr d)) \<in> {SYS_io_uring_setup, SYS_io_uring_enter, SYS_io_uring_register}
      then kEnosys
      else if decode a (unat (sd_nr d)) \<in> decode X86_64 ` set kTrappedX86_64 then SECCOMP_RET_TRACE
      else SECCOMP_RET_ALLOW)"

section \<open>Inverting the tables\<close>

lemma length_invert_fold [simp]: "length (fold (invert_step a) ns t) = length t"
  by (induction ns arbitrary: t) (simp_all add: invert_step_def Let_def)

lemma invert_fold:
  assumes "length t = kSysnoCount" "0 < s" "s < kSysnoCount" "kNoSysno \<notin> set ns"
  shows "fold (invert_step a) ns t ! s =
    (if t ! s \<noteq> kNoSysno then t ! s
     else case find (\<lambda>n. decode a n = s) ns of None \<Rightarrow> kNoSysno | Some n \<Rightarrow> n)"
  using assms
proof (induction ns arbitrary: t)
  case (Cons n ns)
  have "length (invert_step a n t) = kSysnoCount"
    using Cons.prems by (simp add: invert_step_def Let_def)
  with Cons show ?case
    by (cases "decode a n = s") (auto simp: invert_step_def Let_def nth_list_update)
qed simp

lemma kNoSysno_large: "n < kMaxSysno \<Longrightarrow> n \<noteq> kNoSysno"
  by (simp add: kMaxSysno_def kNoSysno_def)

lemma encode_find:
  assumes "0 < s" "s < kSysnoCount"
  shows "encode a s =
    (case find (\<lambda>n. decode a n = s) [0..<kMaxSysno] of None \<Rightarrow> kNoSysno | Some n \<Rightarrow> n)"
proof -
  have "kNoSysno \<notin> set [0..<kMaxSysno]" by (simp add: kMaxSysno_def kNoSysno_def)
  with assms show ?thesis
    by (simp add: encode_def invert_def invert_fold)
qed

lemma decode_lt: "decode a n < kSysnoCount" "decode a n \<noteq> SYS_unknown \<Longrightarrow> n < kMaxSysno"
  using decode_bounds [of a n] by (simp_all add: kSysnoCount_def kMaxSysno_def)

text \<open>\<open>encode\<close> inverts \<open>decode\<close>, in both directions.\<close>

lemma encode_decode:
  assumes known: "decode a n \<noteq> SYS_unknown"
  shows "encode a (decode a n) = n"
proof -
  have "find (\<lambda>m. decode a m = decode a n) [0..<kMaxSysno] = Some n"
  proof (cases "find (\<lambda>m. decode a m = decode a n) [0..<kMaxSysno]")
    case None
    then show ?thesis using decode_lt(2) [OF known] by (auto simp: find_None_iff)
  next
    case (Some m)
    then have "decode a m = decode a n" by (auto simp: find_Some_iff)
    with Some known show ?thesis using decode_inj [of a m n] by simp
  qed
  with known show ?thesis by (simp add: encode_find decode_lt)
qed

lemma decode_encode:
  assumes "encode a s \<noteq> kNoSysno"
  shows "decode a (encode a s) = s \<and> s \<noteq> SYS_unknown"
proof -
  have s: "0 < s" "s < kSysnoCount" using assms by (auto simp: encode_def split: if_splits)
  show ?thesis
  proof (cases "find (\<lambda>n. decode a n = s) [0..<kMaxSysno]")
    case None
    with s assms show ?thesis by (simp add: encode_find)
  next
    case (Some n)
    then have "decode a n = s" by (auto simp: find_Some_iff)
    with s Some show ?thesis by (simp add: encode_find)
  qed
qed

lemma encode_eq_iff: "n \<noteq> kNoSysno \<Longrightarrow> encode a s = n \<longleftrightarrow> decode a n = s \<and> s \<noteq> SYS_unknown"
  using encode_decode decode_encode by metis

lemma uring_numbers: "encode a SYS_io_uring_setup = 425" "encode a SYS_io_uring_register = 427"
  using encode_decode [of a 425] encode_decode [of a 427] by (simp_all add: uring_rows)

lemma emit_uring [simp]: "emit_uring a"
  by (simp add: emit_uring_def uring_numbers kNoSysno_def)

lemma max_sysno_index_small: "max_sysno_index a < kSysnoCount"
proof -
  have "hi < kSysnoCount \<Longrightarrow>
    fold (\<lambda>n hi. if decode a n > hi then decode a n else hi) ns hi < kSysnoCount" for ns hi
    by (induction ns arbitrary: hi) (simp_all add: decode_lt)
  from this [of 0] show ?thesis by (simp add: max_sysno_index_def kSysnoCount_def)
qed

section \<open>The trapped set on either architecture\<close>

lemma x86_numbers: "map fst x86_table = 0 # 1 # [2..<335] @ [424..<472]"
  by (simp add: x86_defs)

lemma x86_known:
  assumes "n < 335 \<or> 424 \<le> n \<and> n < 472"
  shows "decode X86_64 n \<noteq> SYS_unknown"
proof -
  from assms have "n \<in> set (map fst x86_table)"
    unfolding x86_numbers set_append set_upt list.set by auto
  then obtain s where s: "(n, s) \<in> set (arch_table X86_64)" by (force simp: arch_table_def)
  from decode_row [OF s] arch_table_row(2) [OF s] show ?thesis by simp
qed

lemma trapped_numbers: "list_all (\<lambda>n. n < 335 \<or> 424 \<le> n \<and> n < 472) kTrappedX86_64"
  by (simp add: kTrappedX86_64_def)

lemma trapped_known: "n \<in> set kTrappedX86_64 \<Longrightarrow> decode X86_64 n \<noteq> SYS_unknown"
  using trapped_numbers by (intro x86_known) (auto simp: list_all_iff)

lemma trapped_for_encode:
  "trapped_for a kTrappedX86_64 = map (\<lambda>n. encode a (decode X86_64 n)) kTrappedX86_64"
proof (cases a)
  case X86_64
  then show ?thesis
    using trapped_known by (simp add: trapped_for_def encode_decode map_idI)
next
  case Aarch64
  then show ?thesis by (simp add: trapped_for_def encode_def Let_def)
qed

lemma trapped_here_iff:
  "x \<in> set (trapped_here a) \<longleftrightarrow> decode a (unat x) \<in> decode X86_64 ` set kTrappedX86_64"
proof
  assume "x \<in> set (trapped_here a)"
  then obtain n where n: "n \<in> set kTrappedX86_64" "encode a (decode X86_64 n) \<noteq> kNoSysno"
    and x: "x = of_nat (encode a (decode X86_64 n))"
    by (auto simp: trapped_here_def trapped_for_encode)
  from decode_encode [OF n(2)] have d: "decode a (encode a (decode X86_64 n)) = decode X86_64 n" by simp
  then have "encode a (decode X86_64 n) < 472"
    using decode_bounds(2) [of a "encode a (decode X86_64 n)"] trapped_known [OF n(1)] by simp
  then have "unat x = encode a (decode X86_64 n)"
    by (simp add: x unat_of_nat take_bit_nat_eq_self)
  with d n(1) show "decode a (unat x) \<in> decode X86_64 ` set kTrappedX86_64" by simp
next
  assume "decode a (unat x) \<in> decode X86_64 ` set kTrappedX86_64"
  then obtain n where n: "n \<in> set kTrappedX86_64" "decode a (unat x) = decode X86_64 n" by auto
  then have k: "decode a (unat x) \<noteq> SYS_unknown" using trapped_known by simp
  from encode_decode [OF k] n(2) have e: "encode a (decode X86_64 n) = unat x" by simp
  have "unat x \<noteq> kNoSysno" using decode_lt(2) [OF k] kNoSysno_large by blast
  with e n(1) have "unat x \<in> set (filter (\<lambda>nr. nr \<noteq> kNoSysno) (trapped_for a kTrappedX86_64))"
    by (force simp: trapped_for_encode)
  then have "of_nat (unat x) \<in> set (trapped_here a)" unfolding trapped_here_def by (metis image_eqI set_map)
  then show "x \<in> set (trapped_here a)" by simp
qed

lemma length_trapped_here: "length (trapped_here a) \<le> 159"
proof -
  have "length kTrappedX86_64 = 159" by (simp add: kTrappedX86_64_def)
  then show ?thesis
    using length_filter_le [of "\<lambda>nr. nr \<noteq> kNoSysno" "trapped_for a kTrappedX86_64"]
    by (simp add: trapped_here_def trapped_for_encode del: length_filter_le)
qed

section \<open>What the program answers\<close>

lemma cbpf_simps:
  assumes "cbpf_laws run"
  shows "run d (BPF_STMT LD_W_ABS 0 # p) x = run d p (sd_nr d)"
    and "run d (BPF_STMT LD_W_ABS 4 # p) x = run d p (sd_arch d)"
    and "run d (BPF_JUMP JEQ_K k jt jf # p) x = run d (drop (unat (if x = k then jt else jf)) p) x"
    and "run d (BPF_JUMP JGT_K k jt jf # p) x = run d (drop (unat (if x > k then jt else jf)) p) x"
    and "run d (BPF_JUMP JGE_K k jt jf # p) x = run d (drop (unat (if x \<ge> k then jt else jf)) p) x"
    and "run d (BPF_STMT RET_K k # p) x = Some k"
  using assms by (simp_all add: cbpf_laws_def jump_law_def)

lemma filter_compares_Nil [simp]: "filter_compares [] = []"
  by (simp add: filter_compares_def)

lemma filter_compares_Cons [simp]:
  "filter_compares (t # ts) = BPF_JUMP JEQ_K t (of_nat (length ts + 1)) 0 # filter_compares ts"
  by (simp add: filter_compares_def upt_conv_Cons map_Suc_upt [symmetric] comp_def del: upt_Suc map_Suc_upt)

lemma length_filter_compares [simp]: "length (filter_compares ts) = length ts"
  by (simp add: filter_compares_def)

lemma unat_offset: "n < 256 \<Longrightarrow> unat (of_nat n :: u8) = n"
  by (simp add: unat_of_nat take_bit_nat_eq_self)

lemma run_compares:
  assumes laws: "cbpf_laws run" and "length ts < 255"
  shows "run d (filter_compares ts @ filter_leaves) x =
    Some (if x \<in> set ts then SECCOMP_RET_TRACE else SECCOMP_RET_ALLOW)"
  using assms(2)
proof (induction ts)
  case Nil
  then show ?case by (simp add: filter_leaves_def cbpf_simps [OF laws])
next
  case (Cons t ts)
  have "unat (of_nat (length ts + 1) :: u8) = length ts + 1"
    using Cons.prems by (intro unat_offset) simp
  then have off: "unat (1 + of_nat (length ts) :: u8) = length ts + 1" by simp
  have "run d (drop (length ts + 1) (filter_compares ts @ filter_leaves)) x = Some SECCOMP_RET_TRACE"
    by (simp add: filter_leaves_def cbpf_simps [OF laws])
  with Cons show ?case by (cases "x = t") (simp_all add: cbpf_simps [OF laws] off)
qed

lemma run_enosys_leaf:
  assumes "cbpf_laws run"
  shows "run d (drop (length ts + 2) (filter_compares ts @ filter_leaves)) x = Some kEnosys"
  by (simp add: filter_leaves_def cbpf_simps [OF assms])

text \<open>The two range compares of the \<open>io_uring\<close> gate.\<close>

lemma run_uring:
  assumes laws: "cbpf_laws run" and n: "length ts < 254" and jf: "unat jf = length ts + 2"
  shows "run d (BPF_JUMP JGE_K 425 0 1 # BPF_JUMP JGT_K 427 0 jf # filter_compares ts @ filter_leaves) x =
    Some (if 425 \<le> x \<and> x \<le> 427 then kEnosys
          else if x \<in> set ts then SECCOMP_RET_TRACE else SECCOMP_RET_ALLOW)"
  using run_compares [OF laws, of ts d x] run_enosys_leaf [OF laws, of d ts x] n jf
  by (auto simp: cbpf_simps [OF laws] not_le not_less)

lemma run_body:
  assumes laws: "cbpf_laws run" and ts: "ts = trapped_here a"
  shows "run d (filter_gates a (length ts) @ filter_compares ts @ filter_leaves) x =
    Some (if has_x32_personality a \<and> kX32Bit \<le> x then kEnosys
          else if 425 \<le> x \<and> x \<le> 427 then kEnosys
          else if x \<in> set ts then SECCOMP_RET_TRACE else SECCOMP_RET_ALLOW)"
proof -
  have n: "length ts \<le> 159" using length_trapped_here ts by simp
  have offs: "unat (of_nat (length ts + 2) :: u8) = length ts + 2"
    "unat (of_nat (length ts + 4) :: u8) = length ts + 4"
    using n by (rule_tac [!] unat_offset) simp_all
  note uring = run_uring [OF laws _ offs(1), of d x]
  show ?thesis
  proof (cases a)
    case X86_64
    have leaf: "run d (drop (length ts + 4) (b1 # b2 # filter_compares ts @ filter_leaves)) x = Some kEnosys"
      for b1 b2
    proof -
      have "length ts + 4 = Suc (Suc (length ts + 2))" by simp
      then show ?thesis by (simp only: drop_Suc_Cons run_enosys_leaf [OF laws])
    qed
    have "filter_gates a (length ts) =
      [BPF_JUMP JGE_K kX32Bit (of_nat (length ts + 4)) 0, BPF_JUMP JGE_K 425 0 1,
       BPF_JUMP JGT_K 427 0 (of_nat (length ts + 2))]"
      by (simp add: X86_64 filter_gates_def has_x32_personality_def uring_numbers to_enosys_def
        firstJeq_def filter_prologue_def Let_def add.commute)
    with n uring leaf show ?thesis
      by (simp add: cbpf_simps [OF laws] X86_64 has_x32_personality_def offs del: of_nat_add)
  next
    case Aarch64
    have "filter_gates a (length ts) =
      [BPF_JUMP JGE_K 425 0 1, BPF_JUMP JGT_K 427 0 (of_nat (length ts + 2))]"
      by (simp add: Aarch64 filter_gates_def has_x32_personality_def uring_numbers to_enosys_def
        firstJeq_def filter_prologue_def Let_def)
    with n uring show ?thesis by (simp add: Aarch64 has_x32_personality_def del: of_nat_add)
  qed
qed

lemma uring_range:
  "425 \<le> x \<and> x \<le> 427 \<longleftrightarrow>
   decode a (unat (x :: u32)) \<in> {SYS_io_uring_setup, SYS_io_uring_enter, SYS_io_uring_register}"
proof
  assume "425 \<le> x \<and> x \<le> 427"
  then have "unat x = 425 \<or> unat x = 426 \<or> unat x = 427"
    by (simp add: word_le_nat_alt) linarith
  then show "decode a (unat x) \<in> {SYS_io_uring_setup, SYS_io_uring_enter, SYS_io_uring_register}"
    by (auto simp: uring_rows)
next
  assume "decode a (unat x) \<in> {SYS_io_uring_setup, SYS_io_uring_enter, SYS_io_uring_register}"
  then have "unat x = 425 \<or> unat x = 426 \<or> unat x = 427"
    using decode_inj [of a "unat x"] uring_rows [of a] by (metis empty_iff insert_iff numeral_eq_iff zero_neq_numeral)
  then show "425 \<le> x \<and> x \<le> 427" by (auto simp: word_le_nat_alt)
qed

lemma run_trap_filter:
  assumes "cbpf_laws run"
  shows "run d (trap_filter a) 0 = Some (seccomp_verdict a d)"
  using run_body [OF assms refl, of d a "sd_nr d"]
  by (simp add: trap_filter_def Let_def filter_prologue_def cbpf_simps [OF assms] seccomp_verdict_def
    uring_range [of "sd_nr d" a] trapped_here_iff)

text \<open>C30: Run on any conforming machine, the assembled filter answers for every architecture token
  and every number exactly what is promised: a foreign personality, the x32 numbers and the
  \<open>io_uring\<close> calls get \<open>ENOSYS\<close>, a call whose identity is in the trapped list stops for the tracer,
  and every other call runs natively -- on either architecture, although the list is written as
  x86-64 numbers and the jump offsets are single bytes.\<close>

theorem trap_filter_correct:
  assumes "cbpf_laws run"
  shows "run d (trap_filter a) 0 = Some (seccomp_verdict a d)"
  by (rule run_trap_filter [OF assms])

text \<open>A machine that conforms, to run the filter on.\<close>

function cbpf_run :: "seccomp_data \<Rightarrow> sock_filter list \<Rightarrow> u32 \<Rightarrow> u32 option" where
  "cbpf_run d [] x = None"
| "cbpf_run d (i # p) x =
     (if bpf_code i = LD_W_ABS then cbpf_run d p (if bpf_k i = 0 then sd_nr d else sd_arch d)
      else if bpf_code i = JEQ_K then cbpf_run d (drop (unat (if x = bpf_k i then bpf_jt i else bpf_jf i)) p) x
      else if bpf_code i = JGT_K then cbpf_run d (drop (unat (if x > bpf_k i then bpf_jt i else bpf_jf i)) p) x
      else if bpf_code i = JGE_K then cbpf_run d (drop (unat (if x \<ge> bpf_k i then bpf_jt i else bpf_jf i)) p) x
      else Some (bpf_k i))"
  by pat_completeness auto
termination
  by (relation "measure (\<lambda>(d, p, x). length p)") auto

lemma cbpf_run_laws: "cbpf_laws cbpf_run"
  by (simp add: cbpf_laws_def jump_law_def BPF_STMT_def BPF_JUMP_def)

theorem trap_filter_correct_witness:
  "cbpf_laws cbpf_run \<and>
   cbpf_run \<lparr>sd_nr = 257, sd_arch = 0xC000003E\<rparr> (trap_filter X86_64) 0 = Some SECCOMP_RET_TRACE"
proof -
  have "257 \<in> set kTrappedX86_64" by (simp add: kTrappedX86_64_def)
  then have "decode X86_64 257 \<in> decode X86_64 ` set kTrappedX86_64" by (rule imageI)
  then have "seccomp_verdict X86_64 \<lparr>sd_nr = 257, sd_arch = 0xC000003E\<rparr> = SECCOMP_RET_TRACE"
    using uring_range [of 257 X86_64]
    by (simp add: seccomp_verdict_def seccomp_audit_arch_def kX32Bit_def)
  with trap_filter_correct [OF cbpf_run_laws] cbpf_run_laws show ?thesis by simp
qed

definition path_rows :: "(nat \<times> sysno) list" where
  "path_rows =
   [(2, SYS_open), (4, SYS_stat), (6, SYS_lstat), (21, SYS_access), (59, SYS_execve),
    (76, SYS_truncate), (80, SYS_chdir), (82, SYS_rename), (83, SYS_mkdir), (84, SYS_rmdir),
    (85, SYS_creat), (86, SYS_link), (87, SYS_unlink), (88, SYS_symlink), (89, SYS_readlink),
    (90, SYS_chmod), (92, SYS_chown), (94, SYS_lchown), (133, SYS_mknod), (137, SYS_statfs),
    (155, SYS_pivot_root), (161, SYS_chroot), (163, SYS_acct), (165, SYS_mount),
    (166, SYS_umount2), (167, SYS_swapon), (168, SYS_swapoff), (179, SYS_quotactl),
    (188, SYS_setxattr), (189, SYS_lsetxattr), (191, SYS_getxattr), (192, SYS_lgetxattr),
    (194, SYS_listxattr), (195, SYS_llistxattr), (197, SYS_removexattr), (198, SYS_lremovexattr),
    (235, SYS_utimes), (257, SYS_openat), (258, SYS_mkdirat), (259, SYS_mknodat),
    (260, SYS_fchownat), (261, SYS_futimesat), (262, SYS_newfstatat), (263, SYS_unlinkat),
    (264, SYS_renameat), (265, SYS_linkat), (266, SYS_symlinkat), (267, SYS_readlinkat),
    (268, SYS_fchmodat), (269, SYS_faccessat), (280, SYS_utimensat), (303, SYS_name_to_handle_at),
    (316, SYS_renameat2), (322, SYS_execveat), (332, SYS_statx), (428, SYS_open_tree),
    (429, SYS_move_mount), (430, SYS_fsopen), (433, SYS_fspick), (437, SYS_openat2),
    (439, SYS_faccessat2), (452, SYS_fchmodat2), (457, SYS_statmount), (458, SYS_listmount),
    (463, SYS_setxattrat), (464, SYS_getxattrat), (465, SYS_listxattrat),
    (466, SYS_removexattrat), (467, SYS_open_tree_attr), (468, SYS_file_getattr),
    (469, SYS_file_setattr)]"

lemma path_rows_all: "filter (\<lambda>p. snd p \<in> set PATH_BEARING) x86_table = path_rows"
  by (simp add: x86_defs PATH_BEARING_def path_rows_def)

lemma path_rows_trapped: "list_all (\<lambda>p. fst p \<in> set kTrappedX86_64) path_rows"
  by (simp add: path_rows_def kTrappedX86_64_def)

lemma path_bearing_known:
  "s \<in> set PATH_BEARING \<Longrightarrow> s \<noteq> SYS_unknown \<and> s < 384 \<and>
    s \<notin> {SYS_io_uring_setup, SYS_io_uring_enter, SYS_io_uring_register}"
  by (auto simp: PATH_BEARING_def)

lemma path_bearing_trapped:
  assumes "s \<in> set PATH_BEARING"
  shows "s \<in> decode X86_64 ` set kTrappedX86_64"
proof -
  from path_bearing_known [OF assms] x86_has_every_call [of s] obtain n where n: "decode X86_64 n = s" by blast
  with path_bearing_known [OF assms] have "(n, s) \<in> set x86_table"
    using decode_known [of X86_64 n] by (auto simp: arch_table_def)
  with assms have "(n, s) \<in> set (filter (\<lambda>p. snd p \<in> set PATH_BEARING) x86_table)" by simp
  then have "n \<in> set kTrappedX86_64"
    using path_rows_trapped unfolding path_rows_all list_all_iff by fastforce
  with n show ?thesis by blast
qed

text \<open>C31: No path-bearing call escapes the tracer.  A call that the kernel of either architecture
  decodes to a name the coverage check lists as path-bearing stops for the tracer whenever it is
  issued with the native architecture token; it never runs with the guest's path untranslated.\<close>

theorem path_calls_stop:
  assumes "cbpf_laws run" "decode a (unat nr) \<in> set PATH_BEARING"
  shows "run \<lparr>sd_nr = nr, sd_arch = seccomp_audit_arch a\<rparr> (trap_filter a) 0 = Some SECCOMP_RET_TRACE"
proof -
  from path_bearing_known [OF assms(2)] have "unat nr < 472" using decode_bounds(2) by blast
  then have "\<not> kX32Bit \<le> nr" by (simp add: kX32Bit_def word_le_nat_alt)
  with path_bearing_known [OF assms(2)] path_bearing_trapped [OF assms(2)]
  show ?thesis by (auto simp: run_trap_filter [OF assms(1)] seccomp_verdict_def)
qed

lemma arm_openat_row: "list_ex (\<lambda>q. q = (56, SYS_openat)) arm_table"
  by (simp add: arm_defs)

lemma arm_openat: "decode Aarch64 56 = SYS_openat"
  using rows_member [OF arm_openat_row] by (intro decode_row) (simp add: arch_table_def)

theorem path_calls_stop_witness:
  "cbpf_laws cbpf_run \<and> decode Aarch64 (unat (56 :: u32)) \<in> set PATH_BEARING \<and>
   cbpf_run \<lparr>sd_nr = 56, sd_arch = seccomp_audit_arch Aarch64\<rparr> (trap_filter Aarch64) 0 = Some SECCOMP_RET_TRACE"
proof -
  have "decode Aarch64 (unat (56 :: u32)) \<in> set PATH_BEARING"
    by (simp add: arm_openat PATH_BEARING_def)
  with path_calls_stop [OF cbpf_run_laws this] cbpf_run_laws show ?thesis by blast
qed

text \<open>The static assertions of \<open>seccomp_arch.hpp\<close> on the numbering.\<close>

lemma encode_openat_arm: "encode Aarch64 SYS_openat = 56"
  using encode_decode [of Aarch64 56] by (simp add: arm_openat)

lemma arm_has_no_open: "encode Aarch64 SYS_open = kNoSysno"
proof (rule ccontr)
  assume "encode Aarch64 SYS_open \<noteq> kNoSysno"
  from decode_encode [OF this] have "(encode Aarch64 SYS_open, SYS_open) \<in> set arm_table"
    using decode_known [of Aarch64 "encode Aarch64 SYS_open"] by (simp add: arch_table_def)
  then have "list_ex (\<lambda>p. snd p = SYS_open) arm_table" by (force simp: list_ex_iff)
  then show False by (simp add: arm_defs)
qed

text \<open>The datagram calls carry a socket address of their own, as \<open>bind\<close> and \<open>connect\<close> do, and a
  Unix-domain address is a path.  They are not in the trapped list.\<close>

lemma sendto_rows:
  "list_ex (\<lambda>q. q = (44, SYS_sendto)) x86_table" "list_ex (\<lambda>q. q = (42, SYS_connect)) x86_table"
  by (simp_all add: x86_defs)

lemma sendto_runs_natively:
  assumes "cbpf_laws run"
  shows "run \<lparr>sd_nr = 42, sd_arch = seccomp_audit_arch X86_64\<rparr> (trap_filter X86_64) 0 = Some SECCOMP_RET_TRACE"
    and "run \<lparr>sd_nr = 44, sd_arch = seccomp_audit_arch X86_64\<rparr> (trap_filter X86_64) 0 = Some SECCOMP_RET_ALLOW"
proof -
  have "42 \<in> set kTrappedX86_64" "44 \<notin> set kTrappedX86_64" by (simp_all add: kTrappedX86_64_def)
  moreover have "decode X86_64 44 \<noteq> SYS_unknown" by (rule x86_known) simp
  ultimately have "decode X86_64 42 \<in> decode X86_64 ` set kTrappedX86_64"
    "decode X86_64 44 \<notin> decode X86_64 ` set kTrappedX86_64"
    using decode_inj [of X86_64 44] by (blast, metis imageE)
  then show "run \<lparr>sd_nr = 42, sd_arch = seccomp_audit_arch X86_64\<rparr> (trap_filter X86_64) 0 = Some SECCOMP_RET_TRACE"
    "run \<lparr>sd_nr = 44, sd_arch = seccomp_audit_arch X86_64\<rparr> (trap_filter X86_64) 0 = Some SECCOMP_RET_ALLOW"
    using uring_range [of 42 X86_64] uring_range [of 44 X86_64]
    by (simp_all add: run_trap_filter [OF assms] seccomp_verdict_def kX32Bit_def)
qed

section \<open>Installing it\<close>

text \<open>The installation hands the kernel one program, whose sixteen-bit count is exact, and reports
  success only after the kernel has accepted it.\<close>

lemma length_trap_filter: "length (trap_filter a) \<le> 169"
  using length_trapped_here [of a]
  by (simp add: trap_filter_def Let_def filter_prologue_def filter_gates_def filter_leaves_def)

lemma prog_len_exact: "unat (of_nat (length (trap_filter a)) :: u16) = length (trap_filter a)"
  using length_trap_filter [of a] by (simp add: unat_of_nat take_bit_nat_eq_self)

lemma install_trap_filter_result:
  "fst (install_trap_filter K a w) \<longleftrightarrow>
   (let (rc1, w1) = op_no_new_privs K w;
        f = trap_filter a;
        (rc2, w2) = op_seccomp K (of_nat (length f)) f w1
    in rc1 = 0 \<and> (rc2 = 0 \<or> fst (op_prctl_seccomp K (of_nat (length f)) f w2) = 0))"
  by (simp add: install_trap_filter_def Let_def split: prod.split)

end
