(* ===== verification/Lx_Memory.thy ===== *)
theory Lx_Memory
  imports Lx_Result Lx_Bytes
begin

text \<open>
  Guest memory.  The interface is the \<open>GuestMem\<close> concept of \<open>abi/syscall.hpp\<close> (\<open>copy_in\<close>,
  \<open>copy_out\<close>), the locale \<open>guest_memory\<close>; its client is \<open>read_cstr\<close>, which fetches a path in
  page-bounded chunks, and the provider is \<open>mm/address_space.hpp\<close>, a list of regions, each with
  the host memory behind it.  The lemmas show that the chunked reader finds what a byte-by-byte
  reader finds, and that the address space meets the laws.
\<close>

unbundle bit_operations_syntax

section \<open>The code: a string from guest memory\<close>

text \<open>The bytes of a chunk go onto the string until a terminator, or until it is over-long; the
  flag says that reading is over.\<close>

primrec push_bytes :: "u8 list \<Rightarrow> string \<Rightarrow> bool \<times> string" where
  "push_bytes [] s = (False, s)"
| "push_bytes (b # bs) s =
     (if b = 0 then (True, s)
      else let s = s @ [char_of (unat b)]
           in if length s > 4096 then (True, s) else push_bytes bs s)"

text \<open>The recovery after a faulting chunk: \<open>n\<close> single bytes, stopping at the first that faults.\<close>

primrec push_single :: "(u64 \<Rightarrow> nat \<Rightarrow> u8 list option) \<Rightarrow> nat \<Rightarrow> u64 \<Rightarrow> string \<Rightarrow> bool \<times> string" where
  "push_single rd 0 a s = (False, s)"
| "push_single rd (Suc n) a s =
     (case rd a 1 of
        None \<Rightarrow> (True, s)
      | Some one \<Rightarrow>
          (let (stop, s) = push_bytes one s in if stop then (True, s) else push_single rd n (a + 1) s))"

definition chunk_len :: "u64 \<Rightarrow> nat" where
  "chunk_len a = (let to_page = 4096 - unat (a AND 4095) in if to_page < 64 then to_page else 64)"

lemma push_bytes_grows:
  "push_bytes bs s = (False, t) \<Longrightarrow> length t = length s + length bs \<and> (bs \<noteq> [] \<longrightarrow> length t \<le> 4096)"
  by (induction bs arbitrary: s) (fastforce simp: Let_def split: if_splits)+

lemma push_bytes_bound: "push_bytes bs s = (False, t) \<Longrightarrow> length t \<le> max (length s) 4096"
  using push_bytes_grows [of bs s t] by (cases "bs = []") auto

lemma push_single_bound: "push_single rd n a s = (False, t) \<Longrightarrow> length t \<le> max (length s) 4096"
proof (induction n arbitrary: a s)
  case (Suc n)
  then obtain one u where "rd a 1 = Some one" "push_bytes one s = (False, u)" "push_single rd n (a + 1) u = (False, t)"
    by (auto split: option.splits prod.splits if_splits)
  with Suc.IH [of "a + 1" u] push_bytes_bound [of one s u] show ?case by simp
qed simp

text \<open>The loop; a read that returns another number of bytes than asked is impossible (the buffer has
  its size), and is treated as the end.\<close>

function read_cstr_from :: "(u64 \<Rightarrow> nat \<Rightarrow> u8 list option) \<Rightarrow> u64 \<Rightarrow> string \<Rightarrow> string" where
  "read_cstr_from rd a s =
     (let want = chunk_len a;
          (stop, t) = (case rd a want of
                         Some chunk \<Rightarrow> push_bytes chunk s
                       | None \<Rightarrow> push_single rd want a s)
      in if stop \<or> length t \<le> length s then t else read_cstr_from rd (a + of_nat want) t)"
  by pat_completeness auto
termination
proof (relation "measure (\<lambda>(rd, a, s). 4097 - length s)", simp)
  fix rd :: "u64 \<Rightarrow> nat \<Rightarrow> u8 list option" and a s want res stop t
  assume "want = chunk_len a"
    and res: "res = (case rd a want of None \<Rightarrow> push_single rd want a s | Some chunk \<Rightarrow> push_bytes chunk s)"
      "(stop, t) = res" "\<not> (stop \<or> length t \<le> length s)"
  from res(2,3) have "res = (False, t)" by auto
  with res(1) have "length t \<le> max (length s) 4096"
    by (cases "rd a want") (simp_all add: push_single_bound push_bytes_bound)
  with res(3) show "((rd, a + word_of_nat want, t), rd, a, s) \<in> measure (\<lambda>(rd, a, s). 4097 - length s)"
    by auto
qed

declare read_cstr_from.simps [simp del]

definition read_cstr :: "(u64 \<Rightarrow> nat \<Rightarrow> u8 list option) \<Rightarrow> u64 \<Rightarrow> string" where
  "read_cstr rd a = read_cstr_from rd a []"

section \<open>The code: the address space\<close>

text \<open>\<open>Perm\<close> is a bit set; a region keeps the bytes of the host memory behind it.\<close>

type_synonym perm = u32

definition perm_none :: perm where "perm_none = 0"
definition perm_read :: perm where "perm_read = 1"
definition perm_write :: perm where "perm_write = 2"
definition perm_exec :: perm where "perm_exec = 4"

definition allows :: "perm \<Rightarrow> perm \<Rightarrow> bool" where
  "allows ps p \<longleftrightarrow> ps AND p = p"

record region =
  rg_base :: u64
  rg_len :: nat
  rg_perm :: perm
  rg_host :: "u8 list"

definition rg_contains :: "region \<Rightarrow> u64 \<Rightarrow> nat \<Rightarrow> bool" where
  "rg_contains r a n \<longleftrightarrow>
     (let s = rg_base r; e = s + of_nat (rg_len r); x = a
      in x \<ge> s \<and> x + of_nat n \<ge> x \<and> x + of_nat n \<le> e)"

type_synonym regions = "region list"

text \<open>\<open>find\<close>: the position of the first region that holds the range.\<close>

primrec rg_find :: "regions \<Rightarrow> u64 \<Rightarrow> nat \<Rightarrow> nat option" where
  "rg_find [] a n = None"
| "rg_find (r # rs) a n = (if rg_contains r a n then Some 0 else map_option Suc (rg_find rs a n))"

text \<open>\<open>host.map\<close> gives fresh memory or an error.\<close>

definition mm_map_fixed :: "(nat \<Rightarrow> u8 list result) \<Rightarrow> u64 \<Rightarrow> nat \<Rightarrow> perm \<Rightarrow> regions \<Rightarrow> nat result \<times> regions" where
  "mm_map_fixed host_map base len p rs =
     (case host_map len of
        Inl e \<Rightarrow> (Inl e, rs)
      | Inr mem \<Rightarrow> (Inr (length rs), rs @ [\<lparr>rg_base = base, rg_len = len, rg_perm = p, rg_host = mem\<rparr>]))"

definition mm_write :: "u64 \<Rightarrow> u8 list \<Rightarrow> regions \<Rightarrow> regions option" where
  "mm_write dst src rs =
     (case rg_find rs dst (length src) of
        None \<Rightarrow> None
      | Some i \<Rightarrow>
          let r = rs ! i; off = unat (dst - rg_base r)
          in Some (rs[i := r\<lparr>rg_host := store_at off src (rg_host r)\<rparr>]))"

definition mm_read :: "u64 \<Rightarrow> nat \<Rightarrow> regions \<Rightarrow> u8 list option" where
  "mm_read src n rs =
     (case rg_find rs src n of
        None \<Rightarrow> None
      | Some i \<Rightarrow> let r = rs ! i; off = unat (src - rg_base r) in Some (field_at off n (rg_host r)))"

definition mm_zero :: "u64 \<Rightarrow> nat \<Rightarrow> regions \<Rightarrow> regions option" where
  "mm_zero at n rs =
     (case rg_find rs at n of
        None \<Rightarrow> None
      | Some i \<Rightarrow>
          let r = rs ! i; off = unat (at - rg_base r)
          in Some (rs[i := r\<lparr>rg_host := store_at off (replicate n 0) (rg_host r)\<rparr>]))"

text \<open>A host pointer is a region and an offset into its memory.\<close>

definition mm_translate :: "u64 \<Rightarrow> nat \<Rightarrow> perm \<Rightarrow> regions \<Rightarrow> (nat \<times> nat) result" where
  "mm_translate a n need rs =
     (case rg_find rs a n of
        None \<Rightarrow> Inl EFAULT
      | Some i \<Rightarrow>
          if \<not> allows (rg_perm (rs ! i)) need then Inl EACCES
          else Inr (i, unat (a - rg_base (rs ! i))))"

definition host_prot :: "perm \<Rightarrow> u32" where
  "host_prot p =
     (let q = 0;
          q = (if allows p perm_read then q OR 1 else q);
          q = (if allows p perm_write then q OR 2 else q)
      in if allows p perm_exec then q OR 4 else q)"

text \<open>\<open>host.protect\<close> over the host's state, region after region, up to the first failure.\<close>

primrec mm_finalize_perms :: "(region \<Rightarrow> u32 \<Rightarrow> 'h \<Rightarrow> errno option \<times> 'h) \<Rightarrow> regions \<Rightarrow> 'h \<Rightarrow> errno option \<times> 'h" where
  "mm_finalize_perms host_protect [] h = (None, h)"
| "mm_finalize_perms host_protect (r # rs) h =
     (case host_protect r (host_prot (rg_perm r)) h of
        (Some e, h) \<Rightarrow> (Some e, h)
      | (None, h) \<Rightarrow> mm_finalize_perms host_protect rs h)"

text \<open>The reference: one byte at a time.\<close>

function cstr_ref :: "(u64 \<Rightarrow> nat \<Rightarrow> u8 list option) \<Rightarrow> u64 \<Rightarrow> string \<Rightarrow> string" where
  "cstr_ref rd a s =
     (case rd a 1 of
        None \<Rightarrow> s
      | Some one \<Rightarrow>
          if one = [] \<or> hd one = 0 then s
          else let t = s @ [char_of (unat (hd one))]
               in if length t > 4096 then t else cstr_ref rd (a + 1) t)"
  by pat_completeness auto
termination
  by (relation "measure (\<lambda>(rd, a, s). 4097 - length s)") auto

declare cstr_ref.simps [simp del]

lemma cstr_ref_fault: "rd a 1 = None \<Longrightarrow> cstr_ref rd a s = s"
  by (subst cstr_ref.simps) simp

lemma cstr_ref_byte:
  assumes "rd a 1 = Some [b]"
  shows "cstr_ref rd a s = (let (stop, t) = push_bytes [b] s in if stop then t else cstr_ref rd (a + 1) t)"
  using assms by (subst cstr_ref.simps) (simp add: Let_def)

lemma push_bytes_Cons:
  "push_bytes (b # bs) s = (let (stop, t) = push_bytes [b] s in if stop then (True, t) else push_bytes bs t)"
  by (simp add: Let_def)

lemma cstr_ref_bytes:
  assumes "\<And>i. i < length bs \<Longrightarrow> rd (a + of_nat i) 1 = Some [bs ! i]"
  shows "cstr_ref rd a s =
    (let (stop, t) = push_bytes bs s in if stop then t else cstr_ref rd (a + of_nat (length bs)) t)"
  using assms
proof (induction bs arbitrary: a s)
  case (Cons b bs)
  have b: "rd a 1 = Some [b]" using Cons.prems [of 0] by simp
  have "rd (a + 1 + of_nat i) 1 = Some [bs ! i]" if "i < length bs" for i
    using Cons.prems [of "Suc i"] that by (simp add: add.assoc)
  note IH = Cons.IH [of "a + 1", OF this]
  obtain stop t where p: "push_bytes [b] s = (stop, t)" by fastforce
  show ?case
    using cstr_ref_byte [where rd = rd, OF b, of s] IH [of t]
    by (simp add: push_bytes_Cons [of b bs] p add.assoc split: prod.split del: push_bytes.simps)
qed simp

lemma cstr_ref_single:
  assumes "\<And>b one. rd b 1 = Some one \<Longrightarrow> length one = 1"
  shows "cstr_ref rd a s =
    (let (stop, t) = push_single rd n a s in if stop then t else cstr_ref rd (a + of_nat n) t)"
proof (induction n arbitrary: a s)
  case (Suc n)
  show ?case
  proof (cases "rd a 1")
    case None
    then show ?thesis by (simp add: cstr_ref_fault)
  next
    case (Some one)
    then obtain b where b: "one = [b]" using assms [OF Some] by (cases one) auto
    obtain stop t where p: "push_bytes [b] s = (stop, t)" by fastforce
    show ?thesis
      using cstr_ref_byte [where rd = rd, OF Some [unfolded b], of s] Suc.IH [of "a + 1" t] Some
      by (simp add: b p add.assoc split: prod.split del: push_bytes.simps)
  qed
qed simp

lemma chunk_len_bounds: "0 < chunk_len a" "chunk_len a \<le> 64"
proof -
  have "unat (a AND 4095) < 4096"
    using word_and_le1 [of a 4095] by (simp add: word_le_nat_alt)
  then show "0 < chunk_len a" "chunk_len a \<le> 64" by (simp_all add: chunk_len_def Let_def)
qed

lemma push_single_grows:
  assumes "\<And>b one. rd b 1 = Some one \<Longrightarrow> length one = 1"
  shows "push_single rd n a s = (False, t) \<Longrightarrow> length t = length s + n"
proof (induction n arbitrary: a s)
  case (Suc n)
  then obtain one u where "rd a 1 = Some one" "push_bytes one s = (False, u)" "push_single rd n (a + 1) u = (False, t)"
    by (auto split: option.splits prod.splits if_splits)
  with Suc.IH [of "a + 1" u] push_bytes_grows [of one s u] assms show ?case by simp
qed simp

section \<open>The interface\<close>

locale guest_memory =
  fixes rd :: "u64 \<Rightarrow> nat \<Rightarrow> 'm \<Rightarrow> u8 list option"
    and wr :: "u64 \<Rightarrow> u8 list \<Rightarrow> 'm \<Rightarrow> 'm option"
    and mem_ok :: "'m \<Rightarrow> bool"
  assumes rd_length: "mem_ok m \<Longrightarrow> n < 2 ^ 64 \<Longrightarrow> rd a n m = Some bs \<Longrightarrow> length bs = n"
    and rd_part: "mem_ok m \<Longrightarrow> n < 2 ^ 64 \<Longrightarrow> rd a n m = Some bs \<Longrightarrow> i + k \<le> n \<Longrightarrow> 0 < k \<Longrightarrow>
      rd (a + of_nat i) k m = Some (take k (drop i bs))"
    and wr_ok: "mem_ok m \<Longrightarrow> length bs < 2 ^ 64 \<Longrightarrow> wr a bs m = Some m' \<Longrightarrow> mem_ok m'"
    and rd_wr: "mem_ok m \<Longrightarrow> length bs < 2 ^ 64 \<Longrightarrow> wr a bs m = Some m' \<Longrightarrow> rd a (length bs) m' = Some bs"
    and rd_patch: "mem_ok m \<Longrightarrow> n < 2 ^ 64 \<Longrightarrow> rd a n m = Some old \<Longrightarrow> wr (a + of_nat i) bs m = Some m' \<Longrightarrow>
      i + length bs \<le> n \<Longrightarrow> 0 < length bs \<Longrightarrow> rd a n m' = Some (store_at i bs old)"
    and wr_part: "mem_ok m \<Longrightarrow> length bs < 2 ^ 64 \<Longrightarrow> wr a bs m \<noteq> None \<Longrightarrow> i + length cs \<le> length bs \<Longrightarrow>
      0 < length cs \<Longrightarrow> wr (a + of_nat i) cs m \<noteq> None"
    and wr_dom: "mem_ok m \<Longrightarrow> length cs < 2 ^ 64 \<Longrightarrow> wr b cs m = Some m' \<Longrightarrow> (wr a bs m' = None) = (wr a bs m = None)"
begin

text \<open>A part of a buffer that was filled can be replaced, and the rest of it stays.\<close>

lemma patch:
  assumes "mem_ok m" "length old < 2 ^ 64" "rd a (length old) m = Some old" "wr a old m \<noteq> None"
    and "i + length cs \<le> length old" "0 < length cs"
  obtains m' where "wr (a + of_nat i) cs m = Some m'" "mem_ok m'"
    "rd a (length old) m' = Some (store_at i cs old)" "wr a (store_at i cs old) m' \<noteq> None"
proof -
  obtain m' where m': "wr (a + of_nat i) cs m = Some m'" using wr_part [OF assms(1,2,4-6)] by blast
  have n: "length cs < 2 ^ 64" "length (store_at i cs old) = length old" using assms(2,5) by auto
  have "wr a old m' \<noteq> None" using wr_dom [OF assms(1) n(1) m'] assms(4) by simp
  moreover have "0 < length (store_at i cs old)" using n(2) assms(5,6) by linarith
  ultimately have "wr a (store_at i cs old) m' \<noteq> None"
    using wr_part [OF wr_ok [OF assms(1) n(1) m'] assms(2), of a 0 "store_at i cs old"] n(2) by simp
  with that m' rd_patch [OF assms(1,2,3) m' assms(5,6)] wr_ok [OF assms(1) n(1) m'] show thesis by blast
qed

text \<open>What is written can be read back piecewise: a field of a structure that was copied out.\<close>

lemma rd_field:
  assumes "mem_ok m" "length bs < 2 ^ 64" "wr a bs m = Some m'" "i + k \<le> length bs" "0 < k"
  shows "rd (a + of_nat i) k m' = Some (field_at i k bs)"
  using rd_part [OF wr_ok [OF assms(1-3)] assms(2) rd_wr [OF assms(1-3)] assms(4,5)]
  by (simp add: field_at_def)

lemma rd_byte:
  assumes "mem_ok m" "n < 2 ^ 64" "rd a n m = Some bs" "i < n"
  shows "rd (a + of_nat i) 1 m = Some [bs ! i]"
  using rd_part [OF assms(1-3), of i 1] rd_length [OF assms(1-3)] assms(4)
  by (simp add: Cons_nth_drop_Suc [symmetric])

text \<open>The chunked reader finds what the reference finds, whatever the layout of the readable pages.\<close>

lemma read_cstr_from_ref:
  assumes "mem_ok m"
  shows "read_cstr_from (\<lambda>a n. rd a n m) a s = cstr_ref (\<lambda>a n. rd a n m) a s"
proof (induction "\<lambda>a n. rd a n m" a s rule: read_cstr_from.induct)
  case (1 a s)
  let ?rd = "\<lambda>a n. rd a n m"
  have one: "?rd b 1 = Some bs \<Longrightarrow> length bs = 1" for b bs using rd_length [OF assms] by simp
  have want: "chunk_len a < 2 ^ 64" using chunk_len_bounds(2) [of a] by simp
  obtain stop t where step: "(case ?rd a (chunk_len a) of Some chunk \<Rightarrow> push_bytes chunk s
      | None \<Rightarrow> push_single ?rd (chunk_len a) a s) = (stop, t)" by fastforce
  have ref: "cstr_ref ?rd a s = (if stop then t else cstr_ref ?rd (a + of_nat (chunk_len a)) t)"
  proof (cases "?rd a (chunk_len a)")
    case None
    then show ?thesis using step cstr_ref_single [where rd = ?rd and a = a and s = s and n = "chunk_len a", OF one] by simp
  next
    case (Some chunk)
    have "length chunk = chunk_len a" using rd_length [OF assms want Some] .
    moreover have "?rd (a + of_nat i) 1 = Some [chunk ! i]" if "i < length chunk" for i
      using rd_byte [OF assms want Some] that calculation by simp
    ultimately show ?thesis using step Some cstr_ref_bytes [where rd = ?rd and bs = chunk and a = a and s = s] by simp
  qed
  have "stop \<or> length s < length t"
  proof (cases "?rd a (chunk_len a)")
    case None
    then show ?thesis using step push_single_grows [where rd = ?rd and n = "chunk_len a" and a = a and s = s and t = t, OF one] chunk_len_bounds [of a]
      by (cases stop) auto
  next
    case (Some chunk)
    then show ?thesis using step push_bytes_grows [of chunk s t] rd_length [OF assms want Some] chunk_len_bounds [of a]
      by (cases stop) auto
  qed
  with 1 [OF refl] step ref show ?case
    by (subst read_cstr_from.simps) (auto simp: Let_def)
qed

lemma read_cstr_finds:
  assumes "mem_ok m" "rd a (length s + 1) m = Some (map of_char s @ [0])"
    and "CHR 0x00 \<notin> set s" "length s \<le> 4096"
  shows "read_cstr (\<lambda>a n. rd a n m) a = s"
proof -
  let ?rd = "\<lambda>a n. rd a n m"
  have push: "push_bytes (map of_char cs @ [0]) p = (True, p @ cs)"
    if "CHR 0x00 \<notin> set cs" "length p + length cs \<le> 4096" for cs p
    using that by (induction cs arbitrary: p) (auto simp: Let_def byte_zero_iff char_of_byte)
  have "?rd (a + of_nat i) 1 = Some [(map of_char s @ [0]) ! i]" if "i < length (map of_char s @ [0 :: u8])" for i
    using rd_byte [OF assms(1) _ assms(2)] that assms(4) by simp
  from cstr_ref_bytes [where rd = ?rd, OF this] push [of s "[]"] assms(3,4)
  show ?thesis by (simp add: read_cstr_def read_cstr_from_ref [OF assms(1)])
qed

end

section \<open>The address space meets it\<close>

definition region_ok :: "region \<Rightarrow> bool" where
  "region_ok r \<longleftrightarrow> length (rg_host r) = rg_len r \<and> unat (rg_base r) + rg_len r < 2 ^ 64"

text \<open>Ranges of two regions have no byte in common.\<close>

definition apart :: "region \<Rightarrow> region \<Rightarrow> bool" where
  "apart r q \<longleftrightarrow> unat (rg_base r) + rg_len r \<le> unat (rg_base q) \<or> unat (rg_base q) + rg_len q \<le> unat (rg_base r)"

definition regions_ok :: "regions \<Rightarrow> bool" where
  "regions_ok rs \<longleftrightarrow> (\<forall>r \<in> set rs. region_ok r) \<and>
     (\<forall>i < length rs. \<forall>j < length rs. i \<noteq> j \<longrightarrow> apart (rs ! i) (rs ! j))"

lemma rg_contains_iff:
  assumes "region_ok r" "n < 2 ^ 64"
  shows "rg_contains r a n \<longleftrightarrow> unat (rg_base r) \<le> unat a \<and> unat a + n \<le> unat (rg_base r) + rg_len r"
proof -
  have e: "unat (rg_base r + of_nat (rg_len r)) = unat (rg_base r) + rg_len r"
    using assms(1) by (subst unat_plus_no_wrap) (simp_all add: region_ok_def unat_of_nat_small)
  have n: "unat (of_nat n :: u64) = n" using assms(2) by (simp add: unat_of_nat_small)
  show ?thesis
  proof (cases "unat a + n < 2 ^ 64")
    case True
    then have "unat (a + of_nat n) = unat a + n" using n by (subst unat_plus_no_wrap) simp_all
    then show ?thesis by (simp add: rg_contains_def Let_def word_le_nat_alt e)
  next
    case False
    have "unat a < 2 ^ 64" using unat_lt_size [of a] by (simp only: power_numeral) simp
    with assms(2) have lt: "unat a + n - 2 ^ 64 < 2 ^ 64" by linarith
    have "unat (a + of_nat n) = (unat a + n) mod 2 ^ 64"
      by (simp add: unat_word_ariths n)
    also have "\<dots> = unat a + n - 2 ^ 64"
      using False lt by (simp only: le_mod_geq not_less mod_less)
    finally have "unat (a + of_nat n) < unat a" using assms(2) False by simp
    then have "\<not> a \<le> a + of_nat n" by (simp add: word_le_nat_alt)
    then show ?thesis using False assms(1) by (simp add: rg_contains_def Let_def region_ok_def)
  qed
qed

lemma rg_find_Some: "rg_find rs a n = Some i \<Longrightarrow> i < length rs \<and> rg_contains (rs ! i) a n"
  by (induction rs arbitrary: i) (auto split: if_splits)

lemma rg_find_None: "rg_find rs a n = None \<longleftrightarrow> (\<forall>i < length rs. \<not> rg_contains (rs ! i) a n)"
  by (induction rs) (auto simp: All_less_Suc2 split: if_splits)

text \<open>With regions apart, the region of a non-empty range is the only one.\<close>

lemma rg_find_unique:
  assumes "regions_ok rs" "j < length rs" "rg_contains (rs ! j) a n" "0 < n" "n < 2 ^ 64"
  shows "rg_find rs a n = Some j"
proof -
  obtain i where i: "rg_find rs a n = Some i" using assms(2,3) rg_find_None [of rs a n] by auto
  note c = rg_find_Some [OF i]
  have "region_ok (rs ! i)" "region_ok (rs ! j)" using assms(1,2) c by (simp_all add: regions_ok_def)
  then have "\<not> apart (rs ! i) (rs ! j)"
    using c assms(3-5) by (auto simp: rg_contains_iff apart_def)
  with assms(1,2) c i show ?thesis by (auto simp: regions_ok_def)
qed

lemma region_offset:
  assumes "region_ok r" "rg_contains r a n" "n < 2 ^ 64"
  shows "unat (a - rg_base r) = unat a - unat (rg_base r)" "unat (a - rg_base r) + n \<le> length (rg_host r)"
proof -
  have "rg_base r \<le> a" using assms by (simp add: rg_contains_iff word_le_nat_alt)
  then show "unat (a - rg_base r) = unat a - unat (rg_base r)" by (rule unat_sub)
  with assms show "unat (a - rg_base r) + n \<le> length (rg_host r)"
    using rg_contains_iff [OF assms(1,3), of a] by (auto simp: region_ok_def)
qed

lemma regions_ok_nth: "regions_ok rs \<Longrightarrow> i < length rs \<Longrightarrow> region_ok (rs ! i)"
  by (simp add: regions_ok_def)

lemma mm_read_Some:
  assumes "regions_ok rs" "n < 2 ^ 64" "mm_read a n rs = Some bs"
  obtains i where "i < length rs" "rg_contains (rs ! i) a n" "rg_find rs a n = Some i"
    "bs = field_at (unat a - unat (rg_base (rs ! i))) n (rg_host (rs ! i))" "length bs = n"
proof -
  from assms(3) obtain i where i: "rg_find rs a n = Some i"
    and bs: "bs = field_at (unat (a - rg_base (rs ! i))) n (rg_host (rs ! i))"
    by (auto simp: mm_read_def Let_def split: option.splits)
  note c = rg_find_Some [OF i]
  note off = region_offset [OF regions_ok_nth [OF assms(1)] _ assms(2), of i a]
  have "length bs = n" using bs off c by (simp add: field_at_def)
  with that [of i] i c bs off show thesis by simp
qed

lemma mm_read_part:
  assumes ok: "regions_ok rs" and n: "n < 2 ^ 64" and rd: "mm_read a n rs = Some bs" and k: "i + k \<le> n" "0 < k"
  shows "mm_read (a + of_nat i) k rs = Some (take k (drop i bs))"
proof -
  obtain j where j: "j < length rs" "rg_contains (rs ! j) a n"
    and bs: "bs = field_at (unat a - unat (rg_base (rs ! j))) n (rg_host (rs ! j))"
    using mm_read_Some [OF ok n rd] by metis
  let ?r = "rs ! j"
  have r: "region_ok ?r" by (rule regions_ok_nth [OF ok j(1)])
  have range: "unat (rg_base ?r) \<le> unat a" "unat a + n \<le> unat (rg_base ?r) + rg_len ?r"
    using j(2) by (simp_all add: rg_contains_iff [OF r n])
  have ai: "unat (a + of_nat i) = unat a + i"
    using range r n k by (subst unat_plus_no_wrap) (simp_all add: region_ok_def unat_of_nat_small)
  have c: "rg_contains ?r (a + of_nat i) k"
    using range n k by (simp add: rg_contains_iff [OF r] ai)
  have "rg_find rs (a + of_nat i) k = Some j"
    using n k by (intro rg_find_unique [OF ok j(1) c]) simp_all
  moreover have "unat (a + of_nat i - rg_base ?r) = (unat a - unat (rg_base ?r)) + i"
    using region_offset(1) [OF r c] n k range by (simp add: ai)
  ultimately show ?thesis
    using k by (simp add: mm_read_def Let_def bs field_at_def drop_take min_def add.commute)
qed

lemma mm_write_Some:
  assumes "regions_ok rs" "length bs < 2 ^ 64" "mm_write a bs rs = Some rs'"
  obtains i where "i < length rs" "rg_contains (rs ! i) a (length bs)" "rg_find rs a (length bs) = Some i"
    "rs' = rs[i := (rs ! i)\<lparr>rg_host := store_at (unat a - unat (rg_base (rs ! i))) bs (rg_host (rs ! i))\<rparr>]"
    "unat a - unat (rg_base (rs ! i)) + length bs \<le> length (rg_host (rs ! i))"
proof -
  from assms(3) obtain i where i: "rg_find rs a (length bs) = Some i"
    and w: "rs' = rs[i := (rs ! i)\<lparr>rg_host := store_at (unat (a - rg_base (rs ! i))) bs (rg_host (rs ! i))\<rparr>]"
    by (auto simp: mm_write_def Let_def split: option.splits)
  note c = rg_find_Some [OF i]
  have "region_ok (rs ! i)" using c regions_ok_nth [OF assms(1)] by simp
  from region_offset [OF this _ assms(2), of a] c that [of i] i w show thesis by simp
qed

text \<open>Only the bytes of one region change: addresses, lengths and permissions stay.\<close>

definition same_map :: "regions \<Rightarrow> regions \<Rightarrow> bool" where
  "same_map rs rs' \<longleftrightarrow> length rs = length rs' \<and>
     (\<forall>i < length rs. rg_base (rs' ! i) = rg_base (rs ! i) \<and> rg_len (rs' ! i) = rg_len (rs ! i) \<and>
        rg_perm (rs' ! i) = rg_perm (rs ! i) \<and> length (rg_host (rs' ! i)) = length (rg_host (rs ! i)))"

lemma same_map_find: "same_map rs rs' \<Longrightarrow> rg_find rs' a n = rg_find rs a n"
proof (induction rs arbitrary: rs')
  case Nil
  then show ?case by (simp add: same_map_def)
next
  case (Cons r rs)
  then obtain r' qs where rs': "rs' = r' # qs" by (cases rs') (auto simp: same_map_def)
  with Cons.prems have "same_map rs qs" "rg_base r' = rg_base r" "rg_len r' = rg_len r"
    by (auto simp: same_map_def All_less_Suc2)
  with Cons.IH rs' show ?case by (simp add: rg_contains_def)
qed

lemma same_map_ok:
  assumes "same_map rs rs'" "regions_ok rs"
  shows "regions_ok rs'"
proof -
  have len: "length rs' = length rs" using assms(1) by (simp add: same_map_def)
  have ok: "region_ok (rs' ! i)" if "i < length rs" for i
    using assms(1) regions_ok_nth [OF assms(2) that] that by (simp add: same_map_def region_ok_def)
  have eq: "apart (rs' ! i) (rs' ! j) = apart (rs ! i) (rs ! j)" if "i < length rs" "j < length rs" for i j
    using assms(1) that by (simp add: same_map_def apart_def)
  have ap: "apart (rs' ! i) (rs' ! j)" if "i < length rs" "j < length rs" "i \<noteq> j" for i j
    unfolding eq [OF that(1,2)] using assms(2) that unfolding regions_ok_def by blast
  show ?thesis
    unfolding regions_ok_def all_set_conv_all_nth len by (intro conjI allI impI ok ap)
qed

lemma mm_write_same_map:
  assumes "regions_ok rs" "length bs < 2 ^ 64" "mm_write a bs rs = Some rs'"
  shows "same_map rs rs'"
  by (rule mm_write_Some [OF assms]) (simp add: same_map_def nth_list_update)

lemma mm_part_find:
  assumes ok: "regions_ok rs" and n: "n < 2 ^ 64" and f: "rg_find rs a n = Some j" and k: "i + k \<le> n" "0 < k"
  shows "rg_find rs (a + of_nat i) k = Some j \<and> unat (a + of_nat i) = unat a + i"
proof -
  let ?r = "rs ! j"
  have j: "j < length rs" "rg_contains ?r a n" using rg_find_Some [OF f] by simp_all
  have r: "region_ok ?r" by (rule regions_ok_nth [OF ok j(1)])
  have range: "unat (rg_base ?r) \<le> unat a" "unat a + n \<le> unat (rg_base ?r) + rg_len ?r"
    using j(2) by (simp_all add: rg_contains_iff [OF r n])
  have ai: "unat (a + of_nat i) = unat a + i"
    using range r n k by (subst unat_plus_no_wrap) (simp_all add: region_ok_def unat_of_nat_small)
  have c: "rg_contains ?r (a + of_nat i) k"
    using range n k by (simp add: rg_contains_iff [OF r] ai)
  have "rg_find rs (a + of_nat i) k = Some j"
    using n k by (intro rg_find_unique [OF ok j(1) c]) simp_all
  with ai show ?thesis by simp
qed

lemma field_of_store:
  assumes "i + length bs \<le> n" "off + n \<le> length buf"
  shows "field_at off n (store_at (off + i) bs buf) = store_at i bs (field_at off n buf)"
  using assms by (auto simp: field_at_def store_at_def drop_take intro!: nth_equalityI simp: nth_append ac_simps)

lemma mm_read_patch:
  assumes ok: "regions_ok rs" and n: "n < 2 ^ 64" and rd: "mm_read a n rs = Some old"
    and w: "mm_write (a + of_nat i) bs rs = Some rs'" and k: "i + length bs \<le> n" "0 < length bs"
  shows "mm_read a n rs' = Some (store_at i bs old)"
proof -
  obtain j where j: "j < length rs" "rg_contains (rs ! j) a n" "rg_find rs a n = Some j"
    and old: "old = field_at (unat a - unat (rg_base (rs ! j))) n (rg_host (rs ! j))"
    using mm_read_Some [OF ok n rd] by metis
  note f = mm_part_find [OF ok n j(3) k]
  have bs: "length bs < 2 ^ 64" using k n by simp
  have w': "rs' = rs[j := (rs ! j)\<lparr>rg_host := store_at (unat a + i - unat (rg_base (rs ! j))) bs (rg_host (rs ! j))\<rparr>]"
    using mm_write_Some [OF ok bs w] f by (metis option.inject)
  have r: "region_ok (rs ! j)" by (rule regions_ok_nth [OF ok j(1)])
  have le: "unat (rg_base (rs ! j)) \<le> unat a" using j(2) by (simp add: rg_contains_iff [OF r n])
  note off = region_offset [OF r j(2) n]
  have "rg_find rs' a n = Some j"
    using same_map_find [OF mm_write_same_map [OF ok bs w]] j(3) by simp
  then show ?thesis
    using field_of_store [OF k(1), of "unat a - unat (rg_base (rs ! j))" "rg_host (rs ! j)"] off le j(1)
    by (simp add: mm_read_def Let_def w' old)
qed

interpretation mm: guest_memory mm_read mm_write regions_ok
proof
  fix rs a n old and i :: nat and bs :: "u8 list" and rs'
  assume "regions_ok rs" "n < 2 ^ 64" "mm_read a n rs = Some old" "mm_write (a + of_nat i) bs rs = Some rs'"
    "i + length bs \<le> n" "0 < length bs"
  then show "mm_read a n rs' = Some (store_at i bs old)" by (rule mm_read_patch)
next
  fix rs and bs cs :: "u8 list" and a and i :: nat
  assume a: "regions_ok rs" "length bs < 2 ^ 64" "mm_write a bs rs \<noteq> None" "i + length cs \<le> length bs" "0 < length cs"
  then obtain j where "rg_find rs a (length bs) = Some j" by (auto simp: mm_write_def split: option.splits)
  then show "mm_write (a + of_nat i) cs rs \<noteq> None"
    using mm_part_find [OF a(1,2) _ a(4,5)] by (simp add: mm_write_def Let_def)
next
  fix rs and bs cs :: "u8 list" and a b rs'
  assume "regions_ok rs" "length cs < 2 ^ 64" "mm_write b cs rs = Some rs'"
  then show "(mm_write a bs rs' = None) = (mm_write a bs rs = None)"
    using same_map_find [OF mm_write_same_map, of rs cs b rs' a "length bs"]
    by (simp add: mm_write_def Let_def split: option.split)
next
  fix rs a n bs assume "regions_ok rs" "n < 2 ^ 64" "mm_read a n rs = Some bs"
  then show "length bs = n" by (rule mm_read_Some)
next
  fix rs a n bs i k assume "regions_ok rs" "n < 2 ^ 64" "mm_read a n rs = Some bs" "i + k \<le> n" "0 < k"
  then show "mm_read (a + of_nat i) k rs = Some (take k (drop i bs))" by (rule mm_read_part)
next
  fix rs and bs :: "u8 list" and a rs' assume *: "regions_ok rs" "length bs < 2 ^ 64" "mm_write a bs rs = Some rs'"
  show "regions_ok rs'" by (rule same_map_ok [OF mm_write_same_map [OF *] *(1)])
  obtain i where "i < length rs" "rg_find rs a (length bs) = Some i"
    "rs' = rs[i := (rs ! i)\<lparr>rg_host := store_at (unat a - unat (rg_base (rs ! i))) bs (rg_host (rs ! i))\<rparr>]"
    "unat a - unat (rg_base (rs ! i)) + length bs \<le> length (rg_host (rs ! i))" "rg_contains (rs ! i) a (length bs)"
    using mm_write_Some [OF *] by metis
  then show "mm_read a (length bs) rs' = Some bs"
    using same_map_find [OF mm_write_same_map [OF *], of a "length bs"]
      region_offset(1) [OF regions_ok_nth [OF *(1)] _ *(2), of i a]
    by (simp add: mm_read_def Let_def field_store_same)
qed

text \<open>Frame: a write leaves every range it does not overlap as it was.\<close>

lemma mm_read_other:
  assumes ok: "regions_ok rs" "length bs < 2 ^ 64" "mm_write a bs rs = Some rs'"
    and n: "n < 2 ^ 64" and disj: "unat b + n \<le> unat a \<or> unat a + length bs \<le> unat b"
  shows "mm_read b n rs' = mm_read b n rs"
proof -
  obtain i where i: "i < length rs"
    "rs' = rs[i := (rs ! i)\<lparr>rg_host := store_at (unat a - unat (rg_base (rs ! i))) bs (rg_host (rs ! i))\<rparr>]"
    "unat a - unat (rg_base (rs ! i)) + length bs \<le> length (rg_host (rs ! i))" "rg_contains (rs ! i) a (length bs)"
    using mm_write_Some [OF ok] by metis
  have find: "rg_find rs' b n = rg_find rs b n" by (rule same_map_find [OF mm_write_same_map [OF ok]])
  show ?thesis
  proof (cases "rg_find rs b n = Some i")
    case True
    have r: "region_ok (rs ! i)" by (rule regions_ok_nth [OF ok(1) i(1)])
    have c: "rg_contains (rs ! i) b n" using rg_find_Some [OF True] by simp
    have "unat (rg_base (rs ! i)) \<le> unat a" "unat (rg_base (rs ! i)) \<le> unat b"
      using i(4) c by (simp_all add: rg_contains_iff [OF r n] rg_contains_iff [OF r ok(2)])
    with disj have "unat b - unat (rg_base (rs ! i)) + n \<le> unat a - unat (rg_base (rs ! i)) \<or>
      unat a - unat (rg_base (rs ! i)) + length bs \<le> unat b - unat (rg_base (rs ! i))" by linarith
    with find True i region_offset(1) [OF r c n] show ?thesis
      by (simp add: mm_read_def Let_def field_store_other)
  next
    case False
    with find i show ?thesis
      by (cases "rg_find rs b n") (simp_all add: mm_read_def Let_def)
  qed
qed

section \<open>Mapping\<close>

text \<open>A mapping at a range that is free keeps the address space well formed.\<close>

lemma mm_map_fixed_ok:
  assumes "regions_ok rs" "host_map len = Inr mem" "length mem = len" "unat base + len < 2 ^ 64"
    and "\<forall>r \<in> set rs. unat base + len \<le> unat (rg_base r) \<or> unat (rg_base r) + rg_len r \<le> unat base"
  shows "regions_ok (snd (mm_map_fixed host_map base len p rs))"
proof -
  let ?q = "\<lparr>rg_base = base, rg_len = len, rg_perm = p, rg_host = mem\<rparr>"
  have q: "region_ok ?q" using assms(3,4) by (simp add: region_ok_def)
  have ap: "apart r ?q \<and> apart ?q r" if "r \<in> set rs" for r
    using assms(5) that by (auto simp: apart_def)
  have "apart ((rs @ [?q]) ! i) ((rs @ [?q]) ! j)" if "i < Suc (length rs)" "j < Suc (length rs)" "i \<noteq> j" for i j
    using assms(1) ap that by (auto simp: regions_ok_def nth_append less_Suc_eq)
  then show ?thesis
    using q assms(1,2) by (simp add: mm_map_fixed_def regions_ok_def)
qed

text \<open>Neither direction of a copy looks at the permissions; only \<open>translate\<close> does.\<close>

lemma mm_copy_ignores_perm:
  "mm_write a bs (map (\<lambda>r. r\<lparr>rg_perm := perm_none\<rparr>) rs) = None \<longleftrightarrow> mm_write a bs rs = None"
  "mm_read a n (map (\<lambda>r. r\<lparr>rg_perm := perm_none\<rparr>) rs) = mm_read a n rs"
proof -
  have "rg_find (map (\<lambda>r. r\<lparr>rg_perm := perm_none\<rparr>) rs) a n = rg_find rs a n" for n
    by (induction rs) (simp_all add: rg_contains_def)
  then show "mm_write a bs (map (\<lambda>r. r\<lparr>rg_perm := perm_none\<rparr>) rs) = None \<longleftrightarrow> mm_write a bs rs = None"
    "mm_read a n (map (\<lambda>r. r\<lparr>rg_perm := perm_none\<rparr>) rs) = mm_read a n rs"
    using rg_find_Some [of rs a]
    by (auto simp: mm_write_def mm_read_def Let_def split: option.split)
qed

lemma mm_translate_checks:
  assumes "mm_translate a n need rs = Inr (i, off)"
  shows "i < length rs" "allows (rg_perm (rs ! i)) need" "rg_contains (rs ! i) a n"
  using assms rg_find_Some [of rs a n] by (auto simp: mm_translate_def split: option.splits if_splits)

section \<open>Strings\<close>

text \<open>C34: The chunked reader of guest strings is equivalent to reading one byte at a time: on any
  well-formed address space, however the readable regions end inside a chunk or a page, it returns
  the bytes up to the terminator, or up to the first byte that cannot be read, or the first 4097.\<close>

theorem read_cstr_equiv:
  assumes "regions_ok rs"
  shows "read_cstr (\<lambda>a n. mm_read a n rs) a = cstr_ref (\<lambda>a n. mm_read a n rs) a []"
  unfolding read_cstr_def by (rule mm.read_cstr_from_ref [OF assms])

text \<open>A string whose terminator lies beyond the end of the mapped memory.\<close>

definition cut_off :: regions where
  "cut_off = [\<lparr>rg_base = 0x1FFD, rg_len = 3, rg_perm = perm_read, rg_host = [0x2F, 0x61, 0x62]\<rparr>]"

theorem read_cstr_equiv_witness:
  "regions_ok cut_off \<and> read_cstr (\<lambda>a n. mm_read a n cut_off) 0x1FFD = ''/ab''"
proof -
  have ok: "regions_ok cut_off" by (simp add: cut_off_def regions_ok_def region_ok_def)
  have rd: "mm_read 0x1FFD (Suc 0) cut_off = Some [0x2F]" "mm_read 0x1FFE (Suc 0) cut_off = Some [0x61]"
    "mm_read 0x1FFF (Suc 0) cut_off = Some [0x62]" "mm_read 0x2000 (Suc 0) cut_off = None"
    by (simp_all add: mm_read_def cut_off_def rg_contains_def field_at_def)
  have "cstr_ref (\<lambda>a n. mm_read a n cut_off) 0x1FFD [] = ''/ab''"
  proof -
    have "char_of (47 :: nat) = CHR ''/''" "char_of (97 :: nat) = CHR ''a''" "char_of (98 :: nat) = CHR ''b''"
      by (simp_all add: char_of_eq_iff)
    then show ?thesis by (simp add: cstr_ref.simps rd)
  qed
  with ok read_cstr_equiv [OF ok, of "0x1FFD"] show ?thesis by simp
qed

text \<open>What the kernel side copies out as a terminated string is what it reads back.\<close>

lemma write_read_cstr:
  assumes "regions_ok rs" "mm_write a (map of_char s @ [0]) rs = Some rs'"
    and "CHR 0x00 \<notin> set s" "length s \<le> 4096"
  shows "read_cstr (\<lambda>a n. mm_read a n rs') a = s"
proof (rule mm.read_cstr_finds [OF _ _ assms(3,4)])
  have len: "length (map of_char s @ [0 :: u8]) < 2 ^ 64" using assms(4) by simp
  show "regions_ok rs'" by (rule mm.wr_ok [OF assms(1) len assms(2)])
  show "mm_read a (length s + 1) rs' = Some (map of_char s @ [0])"
    using mm.rd_wr [OF assms(1) len assms(2)] by simp
qed

end
