(* ===== verification/Lx_Loader.thy ===== *)
theory Lx_Loader
  imports Lx_Memory
begin

text \<open>
  The ELF loader, \<open>loader/\<close>: the header reader (\<open>elf.hpp\<close>), \<open>Loader::load\<close> over a byte source and
  the address space of \<open>mm/address_space.hpp\<close> (\<open>loader.hpp\<close>), and
  the readers that \<open>execve\<close> uses to see what a file is (\<open>interp.hpp\<close>).  A file is the list of its
  bytes.  The lemmas show that a well-formed image is mapped with its bytes and zeros, and
  how the readers of a header agree.
\<close>

unbundle bit_operations_syntax

section \<open>The code: headers\<close>

text \<open>The fields of \<open>Ehdr\<close> and \<open>Phdr\<close> that are read; both are packed and little-endian.\<close>

record ehdr =
  e_ident :: "u8 list"
  e_type :: u16
  e_machine :: u16
  e_entry :: u64
  e_phoff :: u64
  e_phentsize :: u16
  e_phnum :: u16

record phdr =
  p_type :: u32
  p_flags :: u32
  p_offset :: u64
  p_vaddr :: u64
  p_filesz :: u64
  p_memsz :: u64

definition ehdr_of :: "u8 list \<Rightarrow> ehdr" where
  "ehdr_of bs =
     \<lparr>e_ident = field_at 0 16 bs, e_type = get_le (field_at 16 2 bs), e_machine = get_le (field_at 18 2 bs),
      e_entry = get_le (field_at 24 8 bs), e_phoff = get_le (field_at 32 8 bs),
      e_phentsize = get_le (field_at 54 2 bs), e_phnum = get_le (field_at 56 2 bs)\<rparr>"

definition phdr_of :: "u8 list \<Rightarrow> phdr" where
  "phdr_of bs =
     \<lparr>p_type = get_le (field_at 0 4 bs), p_flags = get_le (field_at 4 4 bs), p_offset = get_le (field_at 8 8 bs),
      p_vaddr = get_le (field_at 16 8 bs), p_filesz = get_le (field_at 32 8 bs), p_memsz = get_le (field_at 40 8 bs)\<rparr>"

definition is_elf_magic :: "u8 list \<Rightarrow> bool" where
  "is_elf_magic b \<longleftrightarrow> b ! 0 = 0x7f \<and> b ! 1 = 0x45 \<and> b ! 2 = 0x4c \<and> b ! 3 = 0x46"

section \<open>The code: loading\<close>

text \<open>\<open>pread\<close> of a byte source gives the bytes it could read; this is \<open>BufferSource\<close>.\<close>

definition buffer_pread :: "u8 list \<Rightarrow> u64 \<Rightarrow> nat \<Rightarrow> u8 list result" where
  "buffer_pread data off n =
     (if unat off \<ge> length data then Inr [] else Inr (take (min n (length data - unat off)) (drop (unat off) data)))"

text \<open>An error of the loader; \<open>Throws\<close> is the \<open>std::length_error\<close> of a buffer of \<open>2 ^ 63\<close> bytes or more.\<close>

datatype load_error = Err errno | Throws

type_synonym 'a load = "load_error + 'a"

definition vector_size_ok :: "u64 \<Rightarrow> bool" where
  "vector_size_ok n \<longleftrightarrow> n < 0x8000000000000000"

definition elf_page_down :: "u64 \<Rightarrow> u64" where
  "elf_page_down a = a AND NOT 4095"

definition elf_page_up :: "u64 \<Rightarrow> u64" where
  "elf_page_up a = (a + 4095) AND NOT 4095"

definition kPieBase :: u64 where "kPieBase = 0x555555000000"

definition read_exact :: "(u64 \<Rightarrow> nat \<Rightarrow> u8 list result) \<Rightarrow> u64 \<Rightarrow> nat \<Rightarrow> u8 list load" where
  "read_exact src off n =
     (case src off n of Inl e \<Rightarrow> Inl (Err e) | Inr got \<Rightarrow> if length got = n then Inr got else Inl (Err ENOEXEC))"

definition validate :: "ehdr \<Rightarrow> bool" where
  "validate eh \<longleftrightarrow>
     is_elf_magic (e_ident eh) \<and> e_ident eh ! 4 = 2 \<and> e_ident eh ! 5 = 1 \<and> (e_type eh = 2 \<or> e_type eh = 3)"

definition pop_nul :: "u8 list \<Rightarrow> u8 list" where
  "pop_nul s = (if s \<noteq> [] \<and> last s = 0 then butlast s else s)"

definition read_interp :: "(u64 \<Rightarrow> nat \<Rightarrow> u8 list result) \<Rightarrow> phdr \<Rightarrow> u8 list load" where
  "read_interp src ph =
     (if \<not> vector_size_ok (p_filesz ph) then Inl Throws
      else case src (p_offset ph) (unat (p_filesz ph)) of
             Inl e \<Rightarrow> Inl (Err e)
           | Inr s \<Rightarrow> Inr (pop_nul s))"

definition seg_perm :: "phdr \<Rightarrow> perm" where
  "seg_perm ph =
     (let p = perm_none;
          p = (if p_flags ph AND 4 \<noteq> 0 then p OR perm_read else p);
          p = (if p_flags ph AND 2 \<noteq> 0 then p OR perm_write else p)
      in if p_flags ph AND 1 \<noteq> 0 then p OR perm_exec else p)"

definition map_segment ::
  "(nat \<Rightarrow> u8 list result) \<Rightarrow> (u64 \<Rightarrow> nat \<Rightarrow> u8 list result) \<Rightarrow> phdr \<Rightarrow> u64 \<Rightarrow> regions \<Rightarrow> unit load \<times> regions" where
  "map_segment host_map src ph base rs =
     (let vaddr = base + p_vaddr ph;
          start = elf_page_down vaddr;
          len = unat (elf_page_up (vaddr + p_memsz ph) - start)
      in case mm_map_fixed host_map start len (seg_perm ph) rs of
           (Inl e, rs) \<Rightarrow> (Inl (Err e), rs)
         | (Inr _, rs) \<Rightarrow>
             if p_filesz ph = 0 then (Inr (), rs)
             else if \<not> vector_size_ok (p_filesz ph) then (Inl Throws, rs)
             else case src (p_offset ph) (unat (p_filesz ph)) of
                    Inl e \<Rightarrow> (Inl (Err e), rs)
                  | Inr tmp \<Rightarrow>
                      if length tmp \<noteq> unat (p_filesz ph) then (Inl (Err ENOEXEC), rs)
                      else case mm_write vaddr tmp rs of
                             None \<Rightarrow> (Inl (Err EFAULT), rs)
                           | Some rs \<Rightarrow> (Inr (), rs))"

record loaded =
  ld_entry :: u64
  ld_phdr :: u64
  ld_phent :: u64
  ld_phnum :: u64
  ld_base :: u64
  ld_machine :: u16
  ld_interp :: "u8 list"

text \<open>The program header table, read entry by entry before anything is mapped.\<close>

primrec read_phdrs :: "(u64 \<Rightarrow> nat \<Rightarrow> u8 list result) \<Rightarrow> u64 \<Rightarrow> u16 \<Rightarrow> nat \<Rightarrow> nat \<Rightarrow> phdr list load" where
  "read_phdrs src phoff entsize i 0 = Inr []"
| "read_phdrs src phoff entsize i (Suc n) =
     (case read_exact src (phoff + of_nat i * ucast entsize) 56 of
        Inl e \<Rightarrow> Inl e
      | Inr bs \<Rightarrow> (case read_phdrs src phoff entsize (Suc i) n of
                     Inl e \<Rightarrow> Inl e
                   | Inr phs \<Rightarrow> Inr (phdr_of bs # phs)))"

primrec map_phdrs ::
  "(nat \<Rightarrow> u8 list result) \<Rightarrow> (u64 \<Rightarrow> nat \<Rightarrow> u8 list result) \<Rightarrow> u64 \<Rightarrow> phdr list \<Rightarrow> loaded \<Rightarrow> regions \<Rightarrow>
   loaded load \<times> regions" where
  "map_phdrs host_map src base [] out rs = (Inr out, rs)"
| "map_phdrs host_map src base (ph # phs) out rs =
     (if p_type ph = 1 then
        (case map_segment host_map src ph base rs of
           (Inl e, rs) \<Rightarrow> (Inl e, rs)
         | (Inr _, rs) \<Rightarrow> map_phdrs host_map src base phs out rs)
      else if p_type ph = 3 then
        (case read_interp src ph of
           Inl e \<Rightarrow> (Inl e, rs)
         | Inr s \<Rightarrow> map_phdrs host_map src base phs (out\<lparr>ld_interp := s\<rparr>) rs)
      else if p_type ph = 6 then map_phdrs host_map src base phs (out\<lparr>ld_phdr := base + p_vaddr ph\<rparr>) rs
      else map_phdrs host_map src base phs out rs)"

definition load_elf ::
  "(nat \<Rightarrow> u8 list result) \<Rightarrow> (u64 \<Rightarrow> nat \<Rightarrow> u8 list result) \<Rightarrow> regions \<Rightarrow> loaded load \<times> regions" where
  "load_elf host_map src rs =
     (case read_exact src 0 64 of
        Inl e \<Rightarrow> (Inl e, rs)
      | Inr hdr \<Rightarrow>
          let eh = ehdr_of hdr in
          if \<not> validate eh then (Inl (Err ENOEXEC), rs)
          else
            let base = (if e_type eh = 3 then kPieBase else 0);
                out = \<lparr>ld_entry = 0, ld_phdr = 0, ld_phent = ucast (e_phentsize eh), ld_phnum = ucast (e_phnum eh),
                       ld_base = base, ld_machine = e_machine eh, ld_interp = []\<rparr>
            in case read_phdrs src (e_phoff eh) (e_phentsize eh) 0 (unat (e_phnum eh)) of
                 Inl e \<Rightarrow> (Inl e, rs)
               | Inr phs \<Rightarrow>
                   (case map_phdrs host_map src base phs out rs of
                      (Inl e, rs) \<Rightarrow> (Inl e, rs)
                    | (Inr out, rs) \<Rightarrow>
                        let out = (if ld_phdr out = 0 then out\<lparr>ld_phdr := base + e_phoff eh\<rparr> else out)
                        in (Inr (out\<lparr>ld_entry := base + e_entry eh\<rparr>), rs)))"

section \<open>The code: what a file is\<close>

text \<open>A file on the host is \<open>None\<close> when it cannot be opened.  \<open>fread\<close> at a position; \<open>fseek\<close>
  refuses a negative one.\<close>

definition fread_at :: "u8 list \<Rightarrow> u64 \<Rightarrow> nat \<Rightarrow> u8 list option" where
  "fread_at data off n =
     (if off \<ge> 0x8000000000000000 then None
      else let got = take n (drop (unat off) data) in if length got = n then Some got else None)"

fun find_interp :: "u8 list \<Rightarrow> u64 \<Rightarrow> nat \<Rightarrow> nat \<Rightarrow> u8 list" where
  "find_interp data phoff i 0 = []"
| "find_interp data phoff i (Suc n) =
     (case fread_at data (phoff + of_nat (i * 56)) 56 of
        None \<Rightarrow> []
      | Some bs \<Rightarrow>
          let ph = phdr_of bs in
          if p_type ph \<noteq> 3 then find_interp data phoff (Suc i) n
          else if p_filesz ph = 0 \<or> p_filesz ph > 4096 then []
          else case fread_at data (p_offset ph) (unat (p_filesz ph)) of
                 None \<Rightarrow> []
               | Some s \<Rightarrow> pop_nul s)"

definition chars :: "u8 list \<Rightarrow> string" where
  "chars bs = map (\<lambda>b. char_of (unat b)) bs"

definition read_elf_interp :: "u8 list option \<Rightarrow> string" where
  "read_elf_interp file =
     (case file of
        None \<Rightarrow> []
      | Some data \<Rightarrow>
          (case fread_at data 0 64 of
             None \<Rightarrow> []
           | Some hdr \<Rightarrow>
               let eh = ehdr_of hdr in
               if \<not> is_elf_magic (e_ident eh) \<or> e_ident eh ! 4 \<noteq> 2 then []
               else if e_phentsize eh \<noteq> 56 \<or> e_phnum eh = 0 \<or> e_phnum eh > 256 then []
               else chars (find_interp data (e_phoff eh) 0 (unat (e_phnum eh)))))"

definition blank :: "u8 \<Rightarrow> bool" where
  "blank b \<longleftrightarrow> b = 32 \<or> b = 9"

text \<open>The interpreter and the argument of a line that starts with \<open>#!\<close>.\<close>

definition split_shebang :: "u8 list \<Rightarrow> u8 list \<times> u8 list" where
  "split_shebang line =
     (let s = dropWhile blank (drop 2 (takeWhile (\<lambda>b. b \<noteq> 10) line));
          rest = dropWhile blank (dropWhile (\<lambda>b. \<not> blank b) s)
      in (takeWhile (\<lambda>b. \<not> blank b) s, rev (dropWhile blank (rev rest))))"

definition is_shebang :: "u8 list \<Rightarrow> bool" where
  "is_shebang line \<longleftrightarrow> length line \<ge> 2 \<and> line ! 0 = 35 \<and> line ! 1 = 33"

definition read_shebang :: "u8 list option \<Rightarrow> string \<times> string" where
  "read_shebang file =
     (case file of
        None \<Rightarrow> ([], [])
      | Some data \<Rightarrow>
          let line = take 255 data in
          if \<not> is_shebang line then ([], [])
          else map_prod chars chars (split_shebang line))"

definition read_elf_machine :: "u16 \<Rightarrow> u8 list option \<Rightarrow> bool" where
  "read_elf_machine host_machine file =
     (case file of
        None \<Rightarrow> False
      | Some data \<Rightarrow>
          let hdr = take 20 data in
          length hdr = 20 \<and> is_elf_magic hdr \<and> (get_le (field_at 18 2 hdr) :: u16) \<noteq> host_machine)"

datatype file_kind = Unreadable | Not_executable | Foreign_elf | Static_elf | Dynamic_elf | Script

record header_info =
  hi_kind :: file_kind
  hi_machine :: u16
  hi_interp :: string
  hi_arg :: string

definition inspect_file_header :: "u16 \<Rightarrow> u8 list option \<Rightarrow> header_info" where
  "inspect_file_header host_machine file =
     (let out = \<lparr>hi_kind = Unreadable, hi_machine = 0, hi_interp = [], hi_arg = []\<rparr> in
      case file of
        None \<Rightarrow> out
      | Some data \<Rightarrow>
          let hdr = take 256 data in
          if length hdr < 4 then out\<lparr>hi_kind := Not_executable\<rparr>
          else if is_elf_magic hdr then
            if length hdr < 20 then out\<lparr>hi_kind := Not_executable\<rparr>
            else let out = out\<lparr>hi_machine := get_le (field_at 18 2 hdr)\<rparr> in
                 if hi_machine out \<noteq> host_machine then out\<lparr>hi_kind := Foreign_elf\<rparr>
                 else let interp = read_elf_interp file
                      in out\<lparr>hi_interp := interp, hi_kind := if interp = [] then Static_elf else Dynamic_elf\<rparr>
          else if is_shebang hdr then
            (let (i, a) = split_shebang hdr in
             if i = [] then out\<lparr>hi_kind := Not_executable\<rparr>
             else out\<lparr>hi_interp := chars i, hi_arg := chars a, hi_kind := Script\<rparr>)
          else out\<lparr>hi_kind := Not_executable\<rparr>)"

section \<open>A byte source\<close>

text \<open>What the loader relies on: a read gives the bytes of the image from the offset, fewer at the end.\<close>

locale byte_source =
  fixes src :: "u64 \<Rightarrow> nat \<Rightarrow> u8 list result" and data :: "u8 list"
  assumes pread: "src off n = Inr (field_at (unat off) n data)"
begin

lemma exact: "read_exact src off n =
    (if unat off + n \<le> length data \<or> n = 0 then Inr (field_at (unat off) n data) else Inl (Err ENOEXEC))"
  by (auto simp: read_exact_def pread field_at_def)

text \<open>The program header table as a function of the image.\<close>

lemma phdrs:
  assumes "\<forall>j < n. unat phoff + (i + j) * unat entsize + 56 \<le> length data" "length data < 2 ^ 64"
  shows "read_phdrs src phoff entsize i n =
    Inr (map (\<lambda>j. phdr_of (field_at (unat phoff + (i + j) * unat entsize) 56 data)) [0..<n])"
  using assms(1)
proof (induction n arbitrary: i)
  case (Suc n)
  have in_file: "unat phoff + i * unat entsize + 56 \<le> length data" using Suc.prems by force
  have "unat (phoff + of_nat i * ucast entsize) = unat phoff + i * unat entsize"
  proof -
    have lt: "unat phoff + i * unat entsize < 2 ^ 64" using in_file assms(2) by linarith
    have "phoff + of_nat i * ucast entsize = of_nat (unat phoff + i * unat entsize)"
      by simp
    then show ?thesis using lt unat_of_nat_small [where 'a = 64, of "unat phoff + i * unat entsize"] by simp
  qed
  moreover have "\<forall>j < n. unat phoff + (Suc i + j) * unat entsize + 56 \<le> length data"
    using Suc.prems by (auto dest: spec [of _ "Suc j" for j])
  ultimately show ?case
    using in_file Suc.IH [of "Suc i"] by (simp add: exact upt_conv_Cons map_Suc_upt [symmetric] o_def del: upt_Suc)
qed simp

end

interpretation buffer: byte_source "buffer_pread data" data for data
  by unfold_locales (simp add: buffer_pread_def field_at_def min_def)

section \<open>Loading an image\<close>

text \<open>The page arithmetic in numbers.\<close>

lemma unat_elf_page_down: "unat (elf_page_down a) = unat a - unat a mod 4096"
  using unat_and_not_mask [of a 12] by (simp add: elf_page_down_def mask_eq_exp_minus_1)

lemma unat_elf_page_up:
  assumes "unat a + 4095 < 2 ^ 64"
  shows "unat (elf_page_up a) = (unat a + 4095) - (unat a + 4095) mod 4096"
proof -
  have "unat (a + 4095) = unat a + 4095" using assms by (subst unat_plus_no_wrap) simp_all
  then show ?thesis using unat_and_not_mask [of "a + 4095" 12] by (simp add: elf_page_up_def mask_eq_exp_minus_1)
qed

definition seg_start :: "u64 \<Rightarrow> phdr \<Rightarrow> u64" where
  "seg_start base ph = elf_page_down (base + p_vaddr ph)"

definition seg_len :: "u64 \<Rightarrow> phdr \<Rightarrow> nat" where
  "seg_len base ph = unat (elf_page_up (base + p_vaddr ph + p_memsz ph) - seg_start base ph)"

text \<open>A segment lies in the file and in the address space, and has room for its bytes.\<close>

definition seg_ok :: "u8 list \<Rightarrow> u64 \<Rightarrow> phdr \<Rightarrow> bool" where
  "seg_ok data base ph \<longleftrightarrow>
     unat (p_filesz ph) \<le> unat (p_memsz ph) \<and> unat (p_offset ph) + unat (p_filesz ph) \<le> length data
     \<and> p_filesz ph < 0x8000000000000000
     \<and> unat (base + p_vaddr ph) + unat (p_memsz ph) + 4095 < 2 ^ 64"

text \<open>The region it becomes: its bytes at its address, zeros around them.\<close>

definition seg_image :: "u8 list \<Rightarrow> u64 \<Rightarrow> phdr \<Rightarrow> region" where
  "seg_image data base ph =
     \<lparr>rg_base = seg_start base ph, rg_len = seg_len base ph, rg_perm = seg_perm ph,
      rg_host = store_at (unat (base + p_vaddr ph) - unat (seg_start base ph))
        (field_at (unat (p_offset ph)) (unat (p_filesz ph)) data) (replicate (seg_len base ph) 0)\<rparr>"

lemma seg_bounds:
  assumes "seg_ok data base ph"
  shows "unat (seg_start base ph) \<le> unat (base + p_vaddr ph)"
    and "unat (base + p_vaddr ph) + unat (p_memsz ph) \<le> unat (seg_start base ph) + seg_len base ph"
    and "unat (seg_start base ph) + seg_len base ph < 2 ^ 64"
proof -
  let ?v = "base + p_vaddr ph"
  let ?e = "?v + p_memsz ph"
  have e: "unat ?e = unat ?v + unat (p_memsz ph)"
    using assms by (subst unat_plus_no_wrap) (simp_all add: seg_ok_def)
  then have up: "unat (elf_page_up ?e) = (unat ?e + 4095) - (unat ?e + 4095) mod 4096"
    using assms by (subst unat_elf_page_up) (simp_all add: seg_ok_def)
  have down: "unat (seg_start base ph) = unat ?v - unat ?v mod 4096"
    by (simp add: seg_start_def unat_elf_page_down)
  have ge: "unat ?e \<le> unat (elf_page_up ?e)" "unat (elf_page_up ?e) \<le> unat ?e + 4095"
    using up mod_less_divisor [of 4096 "unat ?e + 4095"] by (linarith, linarith)
  have le: "unat (seg_start base ph) \<le> unat ?v" using down by simp
  then have "seg_start base ph \<le> elf_page_up ?e" using ge e by (simp add: word_le_nat_alt)
  then have len: "seg_len base ph = unat (elf_page_up ?e) - unat (seg_start base ph)"
    by (simp add: seg_len_def unat_sub)
  show "unat (seg_start base ph) \<le> unat ?v" by (rule le)
  show "unat ?v + unat (p_memsz ph) \<le> unat (seg_start base ph) + seg_len base ph"
    using len ge e le by linarith
  show "unat (seg_start base ph) + seg_len base ph < 2 ^ 64"
    using len ge e le assms unfolding seg_ok_def by linarith
qed

lemma seg_image_ok: "seg_ok data base ph \<Longrightarrow> region_ok (seg_image data base ph)"
  using seg_bounds [of data base ph] by (auto simp: region_ok_def seg_image_def field_at_def seg_ok_def)

lemma regions_ok_append:
  assumes "regions_ok rs" "region_ok r" "\<forall>q \<in> set rs. apart q r"
  shows "regions_ok (rs @ [r])"
  unfolding regions_ok_def
proof (intro conjI allI impI)
  show "\<forall>q \<in> set (rs @ [r]). region_ok q" using assms by (auto simp: regions_ok_def)
  fix i j
  assume "i < length (rs @ [r])" "j < length (rs @ [r])" "i \<noteq> j"
  then consider "i < length rs" "j < length rs" | "i < length rs" "j = length rs" | "j < length rs" "i = length rs"
    by fastforce
  then show "apart ((rs @ [r]) ! i) ((rs @ [r]) ! j)"
    using assms(1,3) \<open>i \<noteq> j\<close> by cases (auto simp: regions_ok_def nth_append apart_def)
qed

text \<open>The host's anonymous mappings are zero-filled.\<close>

definition zero_fill :: "(nat \<Rightarrow> u8 list result) \<Rightarrow> bool" where
  "zero_fill host_map \<longleftrightarrow> (\<forall>n. host_map n = Inr (replicate n 0))"

lemma store_at_Nil: "store_at i [] buf = buf"
  by (simp add: store_at_def)

lemma map_segment_ok:
  assumes "zero_fill hm" "seg_ok data base ph" "regions_ok rs" "\<forall>q \<in> set rs. apart q (seg_image data base ph)"
  shows "map_segment hm (buffer_pread data) ph base rs = (Inr (), rs @ [seg_image data base ph])"
proof -
  let ?v = "base + p_vaddr ph"
  let ?file = "field_at (unat (p_offset ph)) (unat (p_filesz ph)) data"
  let ?blank = "\<lparr>rg_base = seg_start base ph, rg_len = seg_len base ph, rg_perm = seg_perm ph,
      rg_host = replicate (seg_len base ph) 0\<rparr>"
  note b = seg_bounds [OF assms(2)]
  have fl: "length ?file = unat (p_filesz ph)" using assms(2) by (auto simp: seg_ok_def field_at_def)
  have blank: "region_ok ?blank" using b(3) by (simp add: region_ok_def)
  have rs: "regions_ok (rs @ [?blank])"
    using assms(4) by (intro regions_ok_append [OF assms(3) blank]) (simp add: apart_def seg_image_def)
  have mapped: "mm_map_fixed hm (seg_start base ph) (seg_len base ph) (seg_perm ph) rs = (Inr (length rs), rs @ [?blank])"
    using assms(1) by (simp add: mm_map_fixed_def zero_fill_def)
  show ?thesis
  proof (cases "p_filesz ph = 0")
    case True
    then show ?thesis
      using mapped by (simp add: map_segment_def Let_def seg_image_def field_at_def store_at_Nil
          seg_start_def [symmetric] seg_len_def [symmetric])
  next
    case False
    have n: "unat (p_filesz ph) < 2 ^ 64" "0 < unat (p_filesz ph)" using False by (simp_all add: unat_gt_0)
    have "rg_contains ?blank ?v (unat (p_filesz ph))"
      using b assms(2) by (simp add: rg_contains_iff [OF blank n(1)] seg_ok_def)
    then have find: "rg_find (rs @ [?blank]) ?v (length ?file) = Some (length rs)"
      using n unfolding fl by (intro rg_find_unique [OF rs]) simp_all
    have "seg_start base ph \<le> ?v" using b(1) by (simp add: word_le_nat_alt)
    then have "mm_write ?v ?file (rs @ [?blank]) = Some (rs @ [seg_image data base ph])"
      using find by (simp add: mm_write_def seg_image_def unat_sub)
    then show ?thesis
      using mapped False assms(2) fl
      by (simp add: map_segment_def Let_def buffer.pread vector_size_ok_def seg_ok_def
          seg_start_def [symmetric] seg_len_def [symmetric])
  qed
qed

text \<open>The parts of an image, read off its bytes.\<close>

definition elf_header :: "u8 list \<Rightarrow> ehdr" where
  "elf_header data = ehdr_of (field_at 0 64 data)"

definition elf_base :: "u8 list \<Rightarrow> u64" where
  "elf_base data = (if e_type (elf_header data) = 3 then kPieBase else 0)"

definition elf_phdrs :: "u8 list \<Rightarrow> phdr list" where
  "elf_phdrs data =
     (let eh = elf_header data
      in map (\<lambda>j. phdr_of (field_at (unat (e_phoff eh) + j * unat (e_phentsize eh)) 56 data)) [0..<unat (e_phnum eh)])"

definition elf_loads :: "u8 list \<Rightarrow> phdr list" where
  "elf_loads data = filter (\<lambda>ph. p_type ph = 1) (elf_phdrs data)"

text \<open>A well-formed image for an address space: a valid header, a table inside the file, and
  segments that lie in the file, share no page, and meet no page that is mapped already.\<close>

definition elf_ok :: "u8 list \<Rightarrow> regions \<Rightarrow> bool" where
  "elf_ok data rs \<longleftrightarrow>
     64 \<le> length data \<and> length data < 2 ^ 64 \<and> validate (elf_header data)
     \<and> (\<forall>j < unat (e_phnum (elf_header data)).
          unat (e_phoff (elf_header data)) + j * unat (e_phentsize (elf_header data)) + 56 \<le> length data)
     \<and> list_all (\<lambda>ph. p_type ph = 3 \<longrightarrow> p_filesz ph < 0x8000000000000000) (elf_phdrs data)
     \<and> list_all (seg_ok data (elf_base data)) (elf_loads data)
     \<and> sorted_wrt apart (map (seg_image data (elf_base data)) (elf_loads data))
     \<and> list_all (\<lambda>ph. list_all (\<lambda>q. apart q (seg_image data (elf_base data) ph)) rs) (elf_loads data)"

text \<open>What the other headers contribute.\<close>

definition note_phdr :: "u8 list \<Rightarrow> u64 \<Rightarrow> phdr \<Rightarrow> loaded \<Rightarrow> loaded" where
  "note_phdr data base ph out =
     (if p_type ph = 3 then out\<lparr>ld_interp := pop_nul (field_at (unat (p_offset ph)) (unat (p_filesz ph)) data)\<rparr>
      else if p_type ph = 6 then out\<lparr>ld_phdr := base + p_vaddr ph\<rparr> else out)"

lemma map_phdrs_ok:
  assumes "zero_fill hm"
    and "regions_ok rs"
    and "list_all (\<lambda>ph. p_type ph = 3 \<longrightarrow> p_filesz ph < 0x8000000000000000) phs"
    and "list_all (seg_ok data base) (filter (\<lambda>ph. p_type ph = 1) phs)"
    and "sorted_wrt apart (map (seg_image data base) (filter (\<lambda>ph. p_type ph = 1) phs))"
    and "list_all (\<lambda>ph. list_all (\<lambda>q. apart q (seg_image data base ph)) rs) (filter (\<lambda>ph. p_type ph = 1) phs)"
  shows "map_phdrs hm (buffer_pread data) base phs out rs =
      (Inr (fold (note_phdr data base) phs out), rs @ map (seg_image data base) (filter (\<lambda>ph. p_type ph = 1) phs))
    \<and> regions_ok (rs @ map (seg_image data base) (filter (\<lambda>ph. p_type ph = 1) phs))"
  using assms(2-)
proof (induction phs arbitrary: out rs)
  case (Cons ph phs)
  show ?case
  proof (cases "p_type ph = 1")
    case True
    have seg: "seg_ok data base ph" "\<forall>q \<in> set rs. apart q (seg_image data base ph)"
      using Cons.prems True by (simp_all add: list_all_iff)
    have "regions_ok (rs @ [seg_image data base ph])"
      using regions_ok_append [OF Cons.prems(1) seg_image_ok [OF seg(1)] seg(2)] .
    from Cons.IH [OF this] Cons.prems True map_segment_ok [OF assms(1) seg(1) Cons.prems(1) seg(2)]
    show ?thesis by (simp add: list_all_iff note_phdr_def)
  next
    case False
    with Cons.prems Cons.IH [OF Cons.prems(1)] show ?thesis
      by (simp add: read_interp_def vector_size_ok_def buffer.pread note_phdr_def)
  qed
qed simp

lemma note_phdr_keeps [simp]:
  "ld_phent (fold (note_phdr data base) phs out) = ld_phent out"
  "ld_phnum (fold (note_phdr data base) phs out) = ld_phnum out"
  "ld_base (fold (note_phdr data base) phs out) = ld_base out"
  "ld_machine (fold (note_phdr data base) phs out) = ld_machine out"
  by (induction phs arbitrary: out) (simp_all add: note_phdr_def)

lemma load_elf_image:
  assumes "zero_fill hm" "regions_ok rs" "elf_ok data rs"
  obtains out where
    "load_elf hm (buffer_pread data) rs = (Inr out, rs @ map (seg_image data (elf_base data)) (elf_loads data))"
    "regions_ok (rs @ map (seg_image data (elf_base data)) (elf_loads data))"
    "ld_entry out = elf_base data + e_entry (elf_header data)"
    "ld_phnum out = ucast (e_phnum (elf_header data))" "ld_base out = elf_base data"
proof -
  let ?eh = "elf_header data"
  have hdr: "read_exact (buffer_pread data) 0 64 = Inr (field_at 0 64 data)" "validate ?eh"
    using assms(3) by (simp_all add: buffer.exact elf_ok_def)
  have tab: "read_phdrs (buffer_pread data) (e_phoff ?eh) (e_phentsize ?eh) 0 (unat (e_phnum ?eh)) = Inr (elf_phdrs data)"
    using buffer.phdrs [of "unat (e_phnum ?eh)" "e_phoff ?eh" 0 "e_phentsize ?eh" data] assms(3)
    by (simp add: elf_ok_def elf_phdrs_def Let_def)
  note segs = map_phdrs_ok [of hm rs "elf_phdrs data" data "elf_base data", OF assms(1,2)]
  show thesis
    using segs assms(3) hdr tab
    by (intro that) (auto simp: load_elf_def elf_header_def [symmetric] elf_base_def [symmetric] elf_ok_def
        elf_loads_def Let_def)
qed

text \<open>Mapping more keeps what was there.\<close>

lemma rg_find_append: "rg_find rs a n = Some i \<Longrightarrow> rg_find (rs @ qs) a n = Some i"
  by (induction rs arbitrary: i) (auto split: if_splits)

lemma mm_read_append:
  assumes "mm_read a n rs = Some bs"
  shows "mm_read a n (rs @ qs) = Some bs"
proof -
  obtain i where i: "rg_find rs a n = Some i" using assms by (auto simp: mm_read_def split: option.splits)
  then show ?thesis
    using assms rg_find_append [OF i, of qs] rg_find_Some [OF i] by (simp add: mm_read_def nth_append)
qed

lemma store_zeros:
  assumes "off + m \<le> n" "length bs \<le> m"
  shows "field_at off m (store_at off bs (replicate n 0)) = bs @ replicate (m - length bs) 0"
  using assms by (auto simp: field_at_def store_at_def intro!: nth_equalityI simp: nth_append)

lemma read_segment:
  assumes "regions_ok rs" "j < length rs" "rs ! j = seg_image data base ph" "seg_ok data base ph" "0 < unat (p_memsz ph)"
  shows "mm_read (base + p_vaddr ph) (unat (p_memsz ph)) rs =
      Some (field_at (unat (p_offset ph)) (unat (p_filesz ph)) data @ replicate (unat (p_memsz ph) - unat (p_filesz ph)) 0)"
    and "(\<exists>x. mm_translate (base + p_vaddr ph) (unat (p_memsz ph)) need rs = Inr x) = allows (seg_perm ph) need"
proof -
  let ?v = "base + p_vaddr ph" and ?m = "unat (p_memsz ph)"
  let ?file = "field_at (unat (p_offset ph)) (unat (p_filesz ph)) data"
  note b = seg_bounds [OF assms(4)]
  have r: "region_ok (rs ! j)" using assms(3) seg_image_ok [OF assms(4)] by simp
  have c: "rg_contains (rs ! j) ?v ?m"
    using b assms(3) unat_lt_size by (subst rg_contains_iff [OF r]) (simp_all add: seg_image_def)
  have find: "rg_find rs ?v ?m = Some j"
    using rg_find_unique [OF assms(1,2) c assms(5)] unat_lt_size by simp
  have len: "length ?file = unat (p_filesz ph)" using assms(4) by (auto simp: seg_ok_def field_at_def)
  have "unat (?v - rg_base (rs ! j)) = unat ?v - unat (seg_start base ph)"
    using b(1) assms(3) by (simp add: seg_image_def unat_sub word_le_nat_alt)
  then have "mm_read ?v ?m rs =
      Some (field_at (unat ?v - unat (seg_start base ph)) ?m
        (store_at (unat ?v - unat (seg_start base ph)) ?file (replicate (seg_len base ph) 0)))"
    using find assms(3) by (simp add: mm_read_def Let_def) (simp add: seg_image_def)
  also have "\<dots> = Some (?file @ replicate (?m - unat (p_filesz ph)) 0)"
    using b assms(4) len by (subst store_zeros) (auto simp: seg_ok_def)
  finally show "mm_read ?v ?m rs = Some (?file @ replicate (?m - unat (p_filesz ph)) 0)" .
  show "(\<exists>x. mm_translate ?v ?m need rs = Inr x) = allows (seg_perm ph) need"
    using find assms(3) by (simp add: mm_translate_def) (simp add: seg_image_def)
qed


text \<open>A small static executable: one segment of three bytes in the file and five in memory.\<close>

definition demo_elf :: "u8 list" where
  "demo_elf =
     [0x7f, 0x45, 0x4c, 0x46, 2, 1, 1, 0, 0, 0, 0, 0, 0, 0, 0, 0,
      2, 0, 62, 0, 1, 0, 0, 0, 120, 0, 0, 0, 0, 0, 0, 0, 64, 0, 0, 0, 0, 0, 0, 0,
      0, 0, 0, 0, 0, 0, 0, 0, 0, 0, 0, 0, 64, 0, 56, 0, 1, 0, 0, 0, 0, 0, 0, 0,
      1, 0, 0, 0, 5, 0, 0, 0, 120, 0, 0, 0, 0, 0, 0, 0, 120, 0, 0, 0, 0, 0, 0, 0, 120, 0, 0, 0, 0, 0, 0, 0,
      3, 0, 0, 0, 0, 0, 0, 0, 5, 0, 0, 0, 0, 0, 0, 0, 0, 16, 0, 0, 0, 0, 0, 0,
      0xf4, 0x90, 0xc3]"

definition demo_seg :: phdr where
  "demo_seg = \<lparr>p_type = 1, p_flags = 5, p_offset = 120, p_vaddr = 120, p_filesz = 3, p_memsz = 5\<rparr>"

lemma demo_elf_parts:
  "elf_header demo_elf = \<lparr>e_ident = [0x7f, 0x45, 0x4c, 0x46, 2, 1, 1, 0, 0, 0, 0, 0, 0, 0, 0, 0], e_type = 2,
     e_machine = 62, e_entry = 120, e_phoff = 64, e_phentsize = 56, e_phnum = 1\<rparr>"
  "elf_phdrs demo_elf = [demo_seg]"
  "length demo_elf = 123"
proof -
  show h: "elf_header demo_elf = \<lparr>e_ident = [0x7f, 0x45, 0x4c, 0x46, 2, 1, 1, 0, 0, 0, 0, 0, 0, 0, 0, 0], e_type = 2,
     e_machine = 62, e_entry = 120, e_phoff = 64, e_phentsize = 56, e_phnum = 1\<rparr>"
    by (simp add: elf_header_def demo_elf_def ehdr_of_def field_at_def get_le_def)
  show "elf_phdrs demo_elf = [demo_seg]"
    by (simp add: elf_phdrs_def h) (simp add: demo_elf_def demo_seg_def phdr_of_def field_at_def get_le_def)
  show "length demo_elf = 123" by (simp add: demo_elf_def)
qed

lemma demo_elf_ok: "elf_ok demo_elf []"
  using demo_elf_parts
  by (simp add: elf_ok_def elf_loads_def elf_base_def validate_def is_elf_magic_def seg_ok_def demo_seg_def)


text \<open>Without a \<open>PT_PHDR\<close> header, as in this image, the address given to the process for its program
  headers is the file offset of the table and not where the table was mapped.\<close>

lemma phdr_fallback_is_offset:
  "\<exists>out. fst (load_elf (\<lambda>n. Inr (replicate n 0)) (buffer_pread demo_elf) []) = Inr out \<and> ld_phdr out = 64"
proof -
  have z: "zero_fill (\<lambda>n. Inr (replicate n 0))" by (simp add: zero_fill_def)
  have r: "regions_ok []" by (simp add: regions_ok_def)
  note m = map_phdrs_ok [OF z r, of "[demo_seg]" demo_elf 0]
  have e: "read_exact (buffer_pread demo_elf) 0 64 = Inr (field_at 0 64 demo_elf)"
    using demo_elf_parts(3) by (simp add: buffer.exact)
  have t: "read_phdrs (buffer_pread demo_elf) 64 56 0 (Suc 0) = Inr [demo_seg]"
    using buffer.phdrs [of 1 64 0 56 demo_elf] demo_elf_parts by (simp add: elf_phdrs_def)
  have v: "validate (elf_header demo_elf)" "seg_ok demo_elf 0 demo_seg"
    using demo_elf_ok demo_elf_parts by (simp_all add: elf_ok_def elf_loads_def elf_base_def demo_seg_def)
  show ?thesis
    using m e t v demo_elf_parts(1)
    by (simp add: load_elf_def elf_header_def [symmetric] Let_def note_phdr_def) (simp add: demo_seg_def)
qed

section \<open>What a file is\<close>

lemma take_256: "take 256 data = take 255 data @ take 1 (drop 255 data)"
  using take_add [of 255 1 data] by simp

lemma same_line:
  assumes "length data \<le> 255 \<or> 10 \<in> set (take 255 data)"
  shows "split_shebang (take 256 data) = split_shebang (take 255 data)"
proof -
  have "takeWhile (\<lambda>b. b \<noteq> 10) (take 256 data) = takeWhile (\<lambda>b. b \<noteq> 10) (take 255 data)"
    using assms by (cases "length data \<le> 255") (auto simp: take_256)
  then show ?thesis by (simp add: split_shebang_def)
qed

lemma elf_not_shebang: "is_elf_magic data \<Longrightarrow> \<not> is_shebang data"
  by (auto simp: is_elf_magic_def is_shebang_def)

lemma magic_take: "4 \<le> n \<Longrightarrow> is_elf_magic (take n data) = is_elf_magic data"
  by (simp add: is_elf_magic_def)

lemma shebang_take: "2 \<le> n \<Longrightarrow> is_shebang (take n data) = is_shebang data"
  by (auto simp: is_shebang_def)

lemma interp_needs_header: "read_elf_interp (Some data) \<noteq> [] \<Longrightarrow> 64 \<le> length data \<and> is_elf_magic data"
  by (auto simp: read_elf_interp_def fread_at_def Let_def ehdr_of_def field_at_def is_elf_magic_def chars_def
      split: if_splits option.splits)

lemma machine_field: "20 \<le> n \<Longrightarrow> field_at 18 2 (take n data) = field_at 18 2 data"
  by (simp add: field_at_def drop_take min_def)



text \<open>On a longer first line the two differ: the inspection looks at 256 bytes and \<open>read_shebang\<close>, the
  reader that \<open>execve\<close> uses, at 255, and both cut the interpreter where they stop.\<close>

lemma inspect_differs_at_256:
  "let d = [35, 33] @ replicate 300 (97 :: u8)
   in length (hi_interp (inspect_file_header 62 (Some d))) = 254 \<and> length (fst (read_shebang (Some d))) = 253"
proof -
  let ?r = "\<lambda>n. replicate n (97 :: u8)"
  have s: "split_shebang ([35, 33] @ ?r n) = (?r n, [])" for n
    by (simp add: split_shebang_def blank_def)
  have t: "take 256 ([35, 33] @ ?r 300) = [35, 33] @ ?r 254" "take 255 ([35, 33] @ ?r 300) = [35, 33] @ ?r 253" by simp_all
  have m: "\<not> is_elf_magic ([35, 33] @ ?r n)" "is_shebang ([35, 33] @ ?r n)" for n
    by (simp_all add: is_elf_magic_def is_shebang_def)
  show ?thesis
    unfolding Let_def inspect_file_header_def read_shebang_def option.case t using m s by (simp add: chars_def)
qed

end
