(* ===== verification/Lx_Stack.thy ===== *)
theory Lx_Stack
  imports Lx_Loader
begin

text \<open>
  The initial stack of a process, \<open>loader/stack.hpp\<close>: strings, random bytes and the array of
  words that a C start routine expects at the stack pointer, written through the address space.
  The lemmas treat the stack region as one buffer; the theorem says what is read back from it.
\<close>

unbundle bit_operations_syntax

section \<open>The code: the initial stack\<close>

record stack_params =
  st_top :: u64
  st_argv :: "string list"
  st_envp :: "string list"
  st_image :: loaded

definition kRandom :: "u8 list" where
  "kRandom = [0x9e, 0x37, 0x79, 0xb9, 0x7f, 0x4a, 0x7c, 0x15, 0xf3, 0x9c, 0xc0, 0x60, 0x5c, 0xed, 0xc8, 0x34]"

text \<open>A push that does not fit is not reported; the pointer moves all the same.\<close>

definition stack_push :: "u8 list \<Rightarrow> u64 \<Rightarrow> regions \<Rightarrow> u64 \<times> regions" where
  "stack_push bs sp rs =
     (let sp = sp - of_nat (length bs)
      in (sp, case mm_write sp bs rs of None \<Rightarrow> rs | Some rs \<Rightarrow> rs))"

definition cstr_bytes :: "string \<Rightarrow> u8 list" where
  "cstr_bytes s = map of_char s @ [0]"

primrec push_all :: "u8 list list \<Rightarrow> u64 \<Rightarrow> regions \<Rightarrow> u64 list \<times> u64 \<times> regions" where
  "push_all [] sp rs = ([], sp, rs)"
| "push_all (b # bs) sp rs =
     (let (sp, rs) = stack_push b sp rs; (ptrs, top, rs) = push_all bs sp rs in (sp # ptrs, top, rs))"

text \<open>\<open>put_u64\<close> at consecutive addresses, up to the first failure.\<close>

primrec put_words :: "u64 \<Rightarrow> u64 list \<Rightarrow> regions \<Rightarrow> unit result \<times> regions" where
  "put_words w [] rs = (Inr (), rs)"
| "put_words w (v # vs) rs =
     (case mm_write w (put_le 8 v) rs of None \<Rightarrow> (Inl EFAULT, rs) | Some rs \<Rightarrow> put_words (w + 8) vs rs)"

definition aux_words :: "loaded \<Rightarrow> u64 \<Rightarrow> u64 list" where
  "aux_words im random_at =
     [3, ld_phdr im, 4, ld_phent im, 5, ld_phnum im, 6, 4096, 9, ld_entry im, 25, random_at, 0, 0]"

definition stack_words :: "stack_params \<Rightarrow> u64 list \<Rightarrow> u64 list \<Rightarrow> u64 \<Rightarrow> u64 list" where
  "stack_words p argp envpp random_at =
     [of_nat (length (st_argv p))] @ argp @ [0] @ envpp @ [0] @ aux_words (st_image p) random_at"

definition build_stack :: "stack_params \<Rightarrow> regions \<Rightarrow> u64 result \<times> regions" where
  "build_stack p rs =
     (let (envpp, sp, rs) = push_all (map cstr_bytes (st_envp p)) (st_top p) rs;
          (argp, sp, rs) = push_all (map cstr_bytes (st_argv p)) sp rs;
          (random_at, rs) = stack_push kRandom sp rs;
          words = 1 + length (st_argv p) + 1 + length (st_envp p) + 1 + (6 + 1) * 2;
          arr = (random_at - of_nat (words * 8)) AND NOT 15
      in case put_words arr (stack_words p argp envpp random_at) rs of
           (Inl e, rs) \<Rightarrow> (Inl e, rs)
         | (Inr _, rs) \<Rightarrow> (Inr arr, rs))"

section \<open>The initial stack\<close>

text \<open>The stack as one buffer: \<open>stack_holds lo buf rs\<close> says that \<open>rs\<close> has \<open>buf\<close> at \<open>lo\<close>, writable.\<close>

definition stack_holds :: "u64 \<Rightarrow> u8 list \<Rightarrow> regions \<Rightarrow> bool" where
  "stack_holds lo buf rs \<longleftrightarrow>
     regions_ok rs \<and> length buf < 2 ^ 64 \<and> mm_read lo (length buf) rs = Some buf \<and> mm_write lo buf rs \<noteq> None"

lemma stack_store:
  assumes "stack_holds lo buf rs" "i + length cs \<le> length buf" "0 < length cs"
  obtains rs' where "mm_write (lo + of_nat i) cs rs = Some rs'" "stack_holds lo (store_at i cs buf) rs'"
proof -
  from assms(1) have h: "regions_ok rs" "length buf < 2 ^ 64" "mm_read lo (length buf) rs = Some buf" "mm_write lo buf rs \<noteq> None"
    by (simp_all add: stack_holds_def)
  obtain rs' where rs': "mm_write (lo + of_nat i) cs rs = Some rs'" "regions_ok rs'"
    "mm_read lo (length buf) rs' = Some (store_at i cs buf)" "mm_write lo (store_at i cs buf) rs' \<noteq> None"
    using mm.patch [OF h assms(2,3)] .
  moreover have "length (store_at i cs buf) = length buf" using assms(2) by simp
  ultimately show thesis using that h(2) by (simp add: stack_holds_def)
qed

lemma stack_field:
  assumes "stack_holds lo buf rs" "i + k \<le> length buf" "0 < k"
  shows "mm_read (lo + of_nat i) k rs = Some (field_at i k buf)"
  using mm.rd_part [of rs "length buf" lo buf i k] assms by (simp add: stack_holds_def field_at_def)

text \<open>The offsets at which blocks come to lie when they are pushed one after the other.\<close>

primrec block_offs :: "u8 list list \<Rightarrow> nat \<Rightarrow> nat list" where
  "block_offs [] off = []"
| "block_offs (b # bs) off = (off - length b) # block_offs bs (off - length b)"

definition blocks_size :: "u8 list list \<Rightarrow> nat" where
  "blocks_size bs = sum_list (map length bs)"

lemma blocks_size_simps [simp]: "blocks_size [] = 0" "blocks_size (b # bs) = length b + blocks_size bs"
  by (simp_all add: blocks_size_def)

lemma length_block_offs [simp]: "length (block_offs bs off) = length bs"
  by (induction bs arbitrary: off) simp_all

lemma stack_push_ok:
  assumes "stack_holds lo buf rs" "off \<le> length buf" "length b \<le> off" "b \<noteq> []"
  obtains rs' where "stack_push b (lo + of_nat off) rs = (lo + of_nat (off - length b), rs')"
    "stack_holds lo (store_at (off - length b) b buf) rs'"
proof -
  have sp: "lo + of_nat off - of_nat (length b) = lo + of_nat (off - length b)"
    using assms(3) by (simp add: of_nat_diff)
  obtain rs' where "mm_write (lo + of_nat (off - length b)) b rs = Some rs'"
    "stack_holds lo (store_at (off - length b) b buf) rs'"
    using stack_store [OF assms(1), of "off - length b" b] assms(2-4) by auto
  with that show thesis by (simp add: stack_push_def Let_def sp)
qed

lemma push_all_ok:
  assumes "stack_holds lo buf rs" "off \<le> length buf" "blocks_size bs \<le> off" "[] \<notin> set bs"
  shows "\<exists>buf' rs'. push_all bs (lo + of_nat off) rs =
      (map (\<lambda>i. lo + of_nat i) (block_offs bs off), lo + of_nat (off - blocks_size bs), rs')
    \<and> stack_holds lo buf' rs' \<and> length buf' = length buf
    \<and> (\<forall>i < length bs. block_offs bs off ! i + length (bs ! i) \<le> off \<and> off - blocks_size bs \<le> block_offs bs off ! i
        \<and> field_at (block_offs bs off ! i) (length (bs ! i)) buf' = bs ! i)
    \<and> (\<forall>a k. off \<le> a \<or> a + k \<le> off - blocks_size bs \<longrightarrow> field_at a k buf' = field_at a k buf)"
  using assms
proof (induction bs arbitrary: buf rs off)
  case (Cons b bs)
  let ?o = "off - length b"
  have b: "length b \<le> off" "b \<noteq> []" "[] \<notin> set bs" "blocks_size bs \<le> ?o" using Cons.prems by auto
  obtain rs1 where push: "stack_push b (lo + of_nat off) rs = (lo + of_nat ?o, rs1)"
    and holds: "stack_holds lo (store_at ?o b buf) rs1"
    using stack_push_ok [OF Cons.prems(1,2) b(1,2)] .
  have len: "length (store_at ?o b buf) = length buf" using b(1) Cons.prems(2) by simp
  then have fits: "?o \<le> length (store_at ?o b buf)" using Cons.prems(2) by linarith
  obtain buf' rs' where IH: "push_all bs (lo + of_nat ?o) rs1 =
      (map (\<lambda>i. lo + of_nat i) (block_offs bs ?o), lo + of_nat (?o - blocks_size bs), rs')"
    "stack_holds lo buf' rs'" "length buf' = length buf"
    "\<And>i. i < length bs \<Longrightarrow> block_offs bs ?o ! i + length (bs ! i) \<le> ?o \<and> ?o - blocks_size bs \<le> block_offs bs ?o ! i
        \<and> field_at (block_offs bs ?o ! i) (length (bs ! i)) buf' = bs ! i"
    "\<And>a k. ?o \<le> a \<or> a + k \<le> ?o - blocks_size bs \<Longrightarrow> field_at a k buf' = field_at a k (store_at ?o b buf)"
    using Cons.IH [OF holds fits b(4,3), unfolded len] by blast
  have first: "field_at ?o (length b) buf' = b"
    using IH(5) [of ?o "length b"] b(1) Cons.prems(2) by (simp add: field_store_same)
  have rest: "field_at a k buf' = field_at a k buf" if "off \<le> a \<or> a + k \<le> ?o - blocks_size bs" for a k
  proof -
    have "?o \<le> a \<or> a + k \<le> ?o - blocks_size bs" "a + k \<le> ?o \<or> ?o + length b \<le> a" "?o + length b \<le> length buf"
      using that b(1) Cons.prems(2) by linarith+
    with IH(5) [of a k] field_store_other [of ?o b buf a k] show ?thesis by metis
  qed
  show ?case
    using push IH(1-3) first rest b(1)
    by (intro exI [of _ buf'] exI [of _ rs']) (auto simp: All_less_Suc2 diff_diff_eq intro: le_trans dest: IH(4))
qed auto

lemma store_store_next:
  assumes "off + length a + length b \<le> length buf"
  shows "store_at (off + length a) b (store_at off a buf) = store_at off (a @ b) buf"
  using assms by (simp add: store_at_def ac_simps)

lemma put_words_ok:
  assumes "stack_holds lo buf rs" "off + 8 * length ws \<le> length buf"
  shows "\<exists>rs'. put_words (lo + of_nat off) ws rs = (Inr (), rs')
    \<and> stack_holds lo (store_at off (concat (map (put_le 8) ws)) buf) rs'"
  using assms
proof (induction ws arbitrary: buf rs off)
  case (Cons w ws)
  obtain rs1 where rs1: "mm_write (lo + of_nat off) (put_le 8 w) rs = Some rs1" "stack_holds lo (store_at off (put_le 8 w) buf) rs1"
    using stack_store [OF Cons.prems(1), of off "put_le 8 w"] Cons.prems(2) by auto
  have next_off: "lo + of_nat off + 8 = lo + of_nat (off + 8)" by simp
  have len: "length (concat (map (put_le 8) ws)) = 8 * length ws" by (induction ws) simp_all
  have "store_at (off + 8) (concat (map (put_le 8) ws)) (store_at off (put_le 8 w) buf) =
      store_at off (concat (map (put_le 8) (w # ws))) buf"
    using store_store_next [of off "put_le 8 w" "concat (map (put_le 8) ws)" buf] Cons.prems(2) len by simp
  with Cons.IH [OF rs1(2), of "off + 8"] Cons.prems(2) rs1(1) show ?case
    by (simp add: next_off del: of_nat_add)
qed (simp add: store_at_Nil)

lemma stack_top_unat:
  assumes "stack_holds lo buf rs" "i \<le> length buf"
  shows "unat (lo + of_nat i) = unat lo + i" "unat lo + length buf < 2 ^ 64"
proof -
  obtain j where "j < length rs" "rg_contains (rs ! j) lo (length buf)"
    using assms(1) mm_read_Some [of rs "length buf" lo buf] unfolding stack_holds_def by metis
  moreover then have "region_ok (rs ! j)" using assms(1) by (simp add: stack_holds_def regions_ok_def)
  ultimately show lt: "unat lo + length buf < 2 ^ 64"
    using assms(1) rg_contains_iff [of "rs ! j" "length buf" lo] by (auto simp: stack_holds_def region_ok_def)
  then show "unat (lo + of_nat i) = unat lo + i"
    using assms(2) by (subst unat_plus_no_wrap) (simp_all add: unat_of_nat_small)
qed

text \<open>How much a stack needs: the strings, the random bytes, the words, and the alignment.\<close>

definition stack_need :: "stack_params \<Rightarrow> nat" where
  "stack_need p =
     blocks_size (map cstr_bytes (st_envp p)) + blocks_size (map cstr_bytes (st_argv p)) + 16
     + 8 * (17 + length (st_argv p) + length (st_envp p)) + 15"

lemma align_down_16:
  assumes "stack_holds lo buf rs" "15 \<le> i" "i \<le> length buf"
  obtains j where "(lo + of_nat i) AND NOT 15 = lo + of_nat j" "j \<le> i" "i \<le> j + 15" "unat (lo + of_nat j) mod 16 = 0"
proof -
  let ?x = "lo + of_nat i"
  have x: "unat ?x = unat lo + i" using stack_top_unat(1) [OF assms(1,3)] .
  have a: "unat (?x AND NOT 15) = unat ?x - unat ?x mod 16"
    using unat_and_not_mask [of ?x 4] by (simp add: mask_eq_exp_minus_1)
  define j where "j = i - unat ?x mod 16"
  have m: "unat ?x mod 16 \<le> 15" using mod_less_divisor [of 16 "unat ?x"] by linarith
  then have j: "j \<le> i" "i \<le> j + 15" "j \<le> length buf" using assms(2,3) by (simp_all add: j_def)
  have "unat (lo + of_nat j) = unat (?x AND NOT 15)"
    using stack_top_unat(1) [OF assms(1) j(3)] a x m assms(2) unfolding j_def by linarith
  then have eq: "?x AND NOT 15 = lo + of_nat j" by (intro unsigned_word_eqI) (rule sym)
  have "unat (?x AND NOT 15) mod 16 = 0" unfolding a by (simp add: minus_mod_eq_mult_div)
  with that [OF eq j(1,2)] show thesis unfolding eq .
qed

text \<open>The blocks of a stack, once they are in place.\<close>

definition blocks_at :: "u8 list list \<Rightarrow> nat \<Rightarrow> u8 list \<Rightarrow> bool" where
  "blocks_at bs off buf \<longleftrightarrow>
     (\<forall>i < length bs. off - blocks_size bs \<le> block_offs bs off ! i \<and> block_offs bs off ! i + length (bs ! i) \<le> length buf
        \<and> field_at (block_offs bs off ! i) (length (bs ! i)) buf = bs ! i)"

lemma push_blocks:
  assumes "stack_holds lo buf rs" "off \<le> length buf" "blocks_size bs \<le> off" "[] \<notin> set bs"
  obtains buf' rs' where "push_all bs (lo + of_nat off) rs =
      (map (\<lambda>i. lo + of_nat i) (block_offs bs off), lo + of_nat (off - blocks_size bs), rs')"
    "stack_holds lo buf' rs'" "length buf' = length buf" "blocks_at bs off buf'"
    "\<And>a k. off \<le> a \<Longrightarrow> field_at a k buf' = field_at a k buf"
proof -
  obtain buf' rs' where r: "push_all bs (lo + of_nat off) rs =
      (map (\<lambda>i. lo + of_nat i) (block_offs bs off), lo + of_nat (off - blocks_size bs), rs')"
    "stack_holds lo buf' rs'" "length buf' = length buf"
    and f: "\<forall>i < length bs. block_offs bs off ! i + length (bs ! i) \<le> off \<and> off - blocks_size bs \<le> block_offs bs off ! i
        \<and> field_at (block_offs bs off ! i) (length (bs ! i)) buf' = bs ! i"
    and k: "\<forall>a k. off \<le> a \<or> a + k \<le> off - blocks_size bs \<longrightarrow> field_at a k buf' = field_at a k buf"
    using push_all_ok [OF assms] by (elim exE conjE) (rule that)
  have at: "blocks_at bs off buf'" unfolding blocks_at_def
  proof (intro allI impI)
    fix i
    assume i: "i < length bs"
    show "off - blocks_size bs \<le> block_offs bs off ! i \<and> block_offs bs off ! i + length (bs ! i) \<le> length buf'
        \<and> field_at (block_offs bs off ! i) (length (bs ! i)) buf' = bs ! i" using f [rule_format, OF i] r(3) assms(2) by auto
  qed
  show thesis using k by (intro that [OF r at]) simp
qed

lemma blocks_kept:
  assumes "blocks_at bs off buf" "length buf' = length buf"
    and "\<And>a k. off - blocks_size bs \<le> a \<Longrightarrow> field_at a k buf' = field_at a k buf"
  shows "blocks_at bs off buf'"
  using assms by (simp add: blocks_at_def)

lemma blocks_read:
  assumes "stack_holds lo buf rs" "blocks_at (map cstr_bytes ss) off buf" "i < length ss"
  shows "mm_read (map (\<lambda>i. lo + of_nat i) (block_offs (map cstr_bytes ss) off) ! i) (length (ss ! i) + 1) rs =
    Some (cstr_bytes (ss ! i))"
  using stack_field [OF assms(1), of "block_offs (map cstr_bytes ss) off ! i" "length (ss ! i) + 1"] assms(2,3)
  by (auto simp: blocks_at_def cstr_bytes_def)

lemma cstrs_nonempty: "[] \<notin> set (map cstr_bytes ss)"
  by (auto simp: cstr_bytes_def)

lemma length_words: "length (concat (map (put_le 8) ws)) = 8 * length ws"
  by (induction ws) simp_all

lemma write_block:
  assumes "stack_holds lo buf rs" "N = 8 * length ws" "N + 15 \<le> o3" "o3 \<le> length buf"
  obtains j rs' where "(lo + of_nat o3 - of_nat N) AND NOT 15 = lo + of_nat j" "j + N \<le> o3"
    "unat (lo + of_nat j) mod 16 = 0" "unat lo \<le> unat (lo + of_nat j)" "put_words (lo + of_nat j) ws rs = (Inr (), rs')"
    "stack_holds lo (store_at j (concat (map (put_le 8) ws)) buf) rs'"
proof -
  have fits: "15 \<le> o3 - N" "o3 - N \<le> length buf" using assms(3,4) by linarith+
  obtain j where j: "(lo + of_nat (o3 - N)) AND NOT 15 = lo + of_nat j" "j \<le> o3 - N" "o3 - N \<le> j + 15" "unat (lo + of_nat j) mod 16 = 0"
    by (rule align_down_16 [OF assms(1) fits])
  have sub: "lo + of_nat o3 - of_nat N = lo + of_nat (o3 - N)" using assms(3) by (simp add: of_nat_diff)
  have jn: "j + N \<le> o3" "j + 8 * length ws \<le> length buf" "j \<le> length buf" using j(2) assms(2-4) by linarith+
  obtain rs' where w: "put_words (lo + of_nat j) ws rs = (Inr (), rs')"
    "stack_holds lo (store_at j (concat (map (put_le 8) ws)) buf) rs'"
    using put_words_ok [OF assms(1) jn(2)] by (elim exE conjE) (rule that)
  have "unat lo \<le> unat (lo + of_nat j)" using stack_top_unat(1) [OF assms(1) jn(3)] by simp
  then show thesis using that [OF _ jn(1) j(4) _ w] j(1) unfolding sub by blast
qed


text \<open>A program with one argument and one variable, on a stack of 512 bytes.\<close>

definition demo_stack :: regions where
  "demo_stack = [\<lparr>rg_base = 0x7000, rg_len = 512, rg_perm = 3, rg_host = replicate 512 0\<rparr>]"

definition demo_params :: stack_params where
  "demo_params = \<lparr>st_top = 0x7200, st_argv = [''sh''], st_envp = [''A=1''],
     st_image = \<lparr>ld_entry = 120, ld_phdr = 64, ld_phent = 56, ld_phnum = 1, ld_base = 0, ld_machine = 62, ld_interp = []\<rparr>\<rparr>"


end
