(* ===== verification/Lx_Outcome.thy ===== *)
theory Lx_Outcome
  imports Lx_Result
begin

text \<open>
  What the dispatcher answers: \<open>abi/outcome.hpp\<close> and the register file of \<open>abi/syscall.hpp\<close>.  A
  \<open>Fate\<close> is a datatype with one constructor for each alternative of the variant; the small structs
  it carries are records.  Guest memory is a parameter, the two operations of the \<open>GuestMem\<close>
  concept over a memory of any type.
\<close>

record regs =
  reg_arg :: "u64 list"
  reg_nr :: u64

abbreviation arg :: "regs \<Rightarrow> nat \<Rightarrow> u64" where
  "arg r i \<equiv> reg_arg r ! i"

text \<open>The cast of an argument register to \<open>int\<close>.\<close>

definition int_arg :: "regs \<Rightarrow> nat \<Rightarrow> int" where
  "int_arg r i = sint (ucast (arg r i) :: u32)"

datatype scrub_layout = Layout_stat | Layout_statx

record scrub =
  sc_layout :: scrub_layout
  sc_buf :: u64
  sc_guest_path :: string

record path_arg =
  pa_arg :: int
  pa_host_path :: string
  pa_rewrites :: bool

definition PathArg :: "int \<Rightarrow> string \<Rightarrow> path_arg" where
  "PathArg a hp = \<lparr>pa_arg = a, pa_host_path = hp, pa_rewrites = True\<rparr>"

definition PathArg_guest :: "int \<Rightarrow> string \<Rightarrow> string \<Rightarrow> path_arg" where
  "PathArg_guest a hp guest_path = \<lparr>pa_arg = a, pa_host_path = hp, pa_rewrites = (hp \<noteq> guest_path)\<rparr>"

record dup_mirror =
  dm_from :: int
  dm_close_first :: int

record redirect =
  rd_first :: path_arg
  rd_second :: "path_arg option"
  rd_make_parents :: bool
  rd_may_block :: bool
  rd_force_ret :: "int option"
  rd_scrub :: "scrub option"

definition Redirect_to :: "path_arg \<Rightarrow> redirect" where
  "Redirect_to p = \<lparr>rd_first = p, rd_second = None, rd_make_parents = False, rd_may_block = False,
     rd_force_ret = None, rd_scrub = None\<rparr>"

definition target_only :: "path_arg \<Rightarrow> redirect" where
  "target_only p = (Redirect_to (PathArg (- 1) []))\<lparr>rd_second := Some p\<rparr>"

definition with_scrub :: "scrub \<Rightarrow> redirect \<Rightarrow> redirect" where
  "with_scrub s r = r\<lparr>rd_scrub := Some s\<rparr>"

definition with_second :: "path_arg \<Rightarrow> redirect \<Rightarrow> redirect" where
  "with_second p r = r\<lparr>rd_second := Some p\<rparr>"

definition with_parents :: "redirect \<Rightarrow> redirect" where
  "with_parents r = r\<lparr>rd_make_parents := True\<rparr>"

definition is_noop :: "redirect \<Rightarrow> bool" where
  "is_noop r \<longleftrightarrow> rd_second r = None \<and> \<not> rd_make_parents r \<and> rd_scrub r = None \<and> rd_force_ret r = None \<and>
     0 \<le> pa_arg (rd_first r) \<and> \<not> pa_rewrites (rd_first r)"

datatype convert = Convert_none | Termios_to_termios2

datatype fate =
    Virtualize (vz_ret: int) (vz_mirror_host: bool) (vz_retry_ns: int)
  | Forward (fw_mirror: "dup_mirror option")
  | Redirect redirect
  | Inject (in_path_arg: int) (in_content: "u8 list") (in_is_dir: bool)
  | Raise (ra_guest_pid: int) (ra_signum: int) (ra_members: "int list") (ra_grouped: bool)
  | ExecInterp (ei_path_arg: int) (ei_interp_host: string) (ei_prog_guest: string)
      (ei_prefix: "string list") (ei_extra_args: "string list")
  | SockRewrite (sr_path_addr: u64) (sr_host_path: string) (sr_len_arg: int) (sr_new_len: u64)
  | ArgRewrite (ar_arg: int) (ar_to: u64) (ar_convert: convert) (ar_buf: u64)
  | Exited (ex_code: int)

definition val :: "int \<Rightarrow> fate" where "val v = Virtualize v False 0"

definition eno :: "errno \<Rightarrow> fate" where "eno e = Virtualize (- errno_code e) False 0"

definition fwd :: fate where "fwd = Forward None"

definition mirrored :: "int \<Rightarrow> fate" where "mirrored v = Virtualize v True 0"

definition retry_after :: "int \<Rightarrow> fate" where "retry_after ns = Virtualize 0 False ns"

definition raise_at :: "int \<Rightarrow> int \<Rightarrow> fate" where "raise_at pid sg = Raise pid sg [] False"

definition raise_group :: "int \<Rightarrow> int \<Rightarrow> int list \<Rightarrow> fate" where
  "raise_group pid sg members = Raise pid sg members True"

lemmas outcome_defs = val_def eno_def fwd_def mirrored_def retry_after_def raise_at_def raise_group_def

record 'm guest_mem =
  copy_in :: "u64 \<Rightarrow> nat \<Rightarrow> 'm \<Rightarrow> u8 list option"
  copy_out :: "u64 \<Rightarrow> u8 list \<Rightarrow> 'm \<Rightarrow> 'm option"

text \<open>A redirect that only points the call at the path it already names needs nothing done.\<close>

lemma redirect_unchanged_is_noop:
  "0 \<le> a \<Longrightarrow> is_noop (Redirect_to (PathArg_guest a hp gp)) \<longleftrightarrow> hp = gp"
  by (simp add: is_noop_def Redirect_to_def PathArg_guest_def)

lemma redirect_marks_work:
  "\<not> is_noop (with_scrub s r)" "\<not> is_noop (with_second p r)" "\<not> is_noop (with_parents r)"
  "\<not> is_noop (target_only p)" "\<not> is_noop (Redirect_to (PathArg a hp))"
  by (simp_all add: is_noop_def with_scrub_def with_second_def with_parents_def target_only_def
    Redirect_to_def PathArg_def)

lemma errno_codes_positive: "e \<noteq> E_ok \<Longrightarrow> 0 < errno_code e \<and> errno_code e < 4096"
  by (cases e) simp_all

text \<open>An error is told from a value by its sign, in the kernel's own range.\<close>

lemma eno_range: "e \<noteq> E_ok \<Longrightarrow> - 4096 < vz_ret (eno e) \<and> vz_ret (eno e) < 0"
  using errno_codes_positive [of e] by (simp add: eno_def)

end
