(* ===== verification/Lx_Net.thy ===== *)
theory Lx_Net
  imports Lx_Prelude
begin

text \<open>
  Names the guest's network code depends on: \<open>kernel/resolver.hpp\<close> (which nameservers the guest
  gets and the \<open>resolv.conf\<close> rendered for it) and \<open>kernel/socket_ns.hpp\<close> (the abstract name of a
  Unix socket).  Files are a parameter: a path has a content or none.  The lemmas show that the
  parser reads back what is rendered, the order of the sources, and that abstract names have one
  length and keep instances apart.
\<close>

unbundle bit_operations_syntax

section \<open>The resolver\<close>

type_synonym nameservers = "string list"

abbreviation tab :: char where "tab \<equiv> CHR 0x09"
abbreviation carriage_return :: char where "carriage_return \<equiv> CHR 0x0D"

definition is_blank :: "char \<Rightarrow> bool" where
  "is_blank c \<longleftrightarrow> c = CHR '' '' \<or> c = tab"

text \<open>One line of the file; a zero byte ends the C string.\<close>

definition nameserver_line :: "string \<Rightarrow> string option" where
  "nameserver_line line =
     (let p = dropWhile is_blank (takeWhile (\<lambda>c. c \<noteq> CHR 0x00) line)
      in if p \<noteq> [] \<and> (hd p = CHR ''#'' \<or> hd p = CHR '';'') then None
         else if \<not> starts_with p ''nameserver'' then None
         else let p = drop 10 p
              in if p = [] \<or> \<not> is_blank (hd p) then None
                 else let p = dropWhile is_blank p;
                          addr = takeWhile (\<lambda>c. c \<noteq> newline \<and> c \<noteq> carriage_return \<and> \<not> is_blank c) p
                      in if addr = [] then None else Some addr)"

definition nameservers_from_file :: "(string \<Rightarrow> string option) \<Rightarrow> string \<Rightarrow> nameservers" where
  "nameservers_from_file files path =
     (case files path of
        None \<Rightarrow> []
      | Some content \<Rightarrow> List.map_filter nameserver_line (fgets_lines 511 content))"

definition nameservers_public :: nameservers where
  "nameservers_public = [''1.1.1.1'', ''8.8.8.8'']"

definition trim_spaces :: "string \<Rightarrow> string" where
  "trim_spaces s = rev (dropWhile (\<lambda>c. c = CHR '' '') (rev (dropWhile (\<lambda>c. c = CHR '' '') s)))"

function env_servers :: "string \<Rightarrow> nameservers" where
  "env_servers s =
     (if s = [] then []
      else let comma = str_find (CHR '','') s;
               one = trim_spaces (case comma of None \<Rightarrow> s | Some i \<Rightarrow> take i s);
               more = (case comma of None \<Rightarrow> [] | Some i \<Rightarrow> env_servers (drop (Suc i) s))
           in if one \<noteq> [] then one # more else more)"
  by pat_completeness auto
termination
  by (relation "measure length") auto

declare env_servers.simps [simp del]

definition nameservers_from_env :: "string option \<Rightarrow> nameservers" where
  "nameservers_from_env spec =
     (case spec of None \<Rightarrow> [] | Some s \<Rightarrow> env_servers (takeWhile (\<lambda>c. c \<noteq> CHR 0x00) s))"

datatype resolver_origin = Origin_none | Origin_env | Origin_host_file | Origin_guest_file | Origin_fallback

record resolver_choice =
  servers :: nameservers
  origin :: resolver_origin

definition origin_name :: "resolver_origin \<Rightarrow> string" where
  "origin_name ro =
     (case ro of
        Origin_none \<Rightarrow> ''none''
      | Origin_env \<Rightarrow> ''LINUXITY_DNS''
      | Origin_host_file \<Rightarrow> ''host /etc/resolv.conf''
      | Origin_guest_file \<Rightarrow> ''rootfs /etc/resolv.conf''
      | Origin_fallback \<Rightarrow> ''public resolvers'')"

definition choose_nameservers ::
  "(string \<Rightarrow> string option) \<Rightarrow> string option \<Rightarrow> string option \<Rightarrow> string \<Rightarrow> resolver_choice" where
  "choose_nameservers files env_spec host_resolv guest_resolv =
     (let v = nameservers_from_env env_spec
      in if v \<noteq> [] then \<lparr>servers = v, origin = Origin_env\<rparr>
         else let v = (if guest_resolv \<noteq> [] then nameservers_from_file files guest_resolv else [])
         in if v \<noteq> [] then \<lparr>servers = v, origin = Origin_guest_file\<rparr>
         else let v = (case host_resolv of
                         None \<Rightarrow> []
                       | Some p \<Rightarrow> if p \<noteq> [] then nameservers_from_file files p else [])
         in if v \<noteq> [] then \<lparr>servers = v, origin = Origin_host_file\<rparr>
         else \<lparr>servers = nameservers_public, origin = Origin_fallback\<rparr>)"

definition render_resolv_conf :: "nameservers \<Rightarrow> string" where
  "render_resolv_conf ns =
     ''# Generated by linuxity. The host'' @ [CHR 0x27] @ ''s resolver, as the guest sees it.'' @ [newline]
     @ concat (map (\<lambda>a. ''nameserver '' @ a @ [newline]) ns)
     @ ''options edns0'' @ [newline]"

section \<open>Socket names\<close>

datatype socket_ns = Ns_filesystem | Ns_abstract

definition fnv_step :: "u64 \<Rightarrow> char \<Rightarrow> u64" where
  "fnv_step h c = (h XOR of_char c) * 1099511628211"

definition fnv1a :: "string \<Rightarrow> u64" where
  "fnv1a s = foldl fnv_step 1469598103934665603 s"

definition kHex :: string where "kHex = ''0123456789abcdef''"

definition hex16 :: "u64 \<Rightarrow> string" where
  "hex16 w = map (\<lambda>shift. kHex ! unat (drop_bit shift w AND 0xF))
     [60, 56, 52, 48, 44, 40, 36, 32, 28, 24, 20, 16, 12, 8, 4, 0]"

definition abstract_name_for :: "string \<Rightarrow> u64 \<Rightarrow> string" where
  "abstract_name_for guest_path inst =
     ''linuxity/'' @ hex16 inst @ [CHR ''/''] @ hex16 (fnv1a guest_path)"

section \<open>Reading back what is rendered\<close>

text \<open>A nameserver as a resolver file can carry it: one word, within a line of the reader's
  buffer.\<close>

definition server_ok :: "string \<Rightarrow> bool" where
  "server_ok a \<longleftrightarrow> a \<noteq> [] \<and> length a < 500 \<and>
     (\<forall>c \<in> set a. c \<notin> {CHR 0x00, CHR '' '', tab, newline, carriage_return})"

lemma nameserver_line_rendered:
  assumes "server_ok a"
  shows "nameserver_line (''nameserver '' @ a @ [newline]) = Some a"
proof -
  have nul: "takeWhile (\<lambda>c. c \<noteq> CHR 0x00) (a @ [newline]) = a @ [newline]"
    using assms by (simp add: server_ok_def takeWhile_append2 takeWhile_eq_all_conv)
  have word: "takeWhile (\<lambda>c. c \<noteq> newline \<and> c \<noteq> carriage_return \<and> \<not> is_blank c) (a @ [newline]) = a"
    using assms by (subst takeWhile_append2) (auto simp: server_ok_def is_blank_def)
  obtain x xs where a: "a = x # xs" "\<not> is_blank x"
    using assms by (cases a) (auto simp: server_ok_def is_blank_def)
  show ?thesis
    using nul word a assms
    by (simp add: nameserver_line_def is_blank_def starts_with_def Let_def server_ok_def)
qed

lemma fgets_rendered:
  assumes "\<forall>a \<in> set ns. server_ok a"
  shows "List.map_filter nameserver_line
    (fgets_lines 511 (concat (map (\<lambda>a. ''nameserver '' @ a @ [newline]) ns) @ rest)) =
    ns @ List.map_filter nameserver_line (fgets_lines 511 rest)"
  using assms
proof (induction ns)
  case (Cons a ns)
  have "newline \<notin> set (''nameserver '' @ a)" "length (''nameserver '' @ a) < 511"
    using Cons.prems by (auto simp: server_ok_def)
  from fgets_lines_line [OF this] Cons show ?case
    by (simp add: nameserver_line_rendered [simplified] List.map_filter_simps)
qed simp

text \<open>The resolver file that is rendered for the guest names exactly the chosen servers: read
  back by the same parser, whatever else the renderer puts into the file is skipped and every
  address comes back once, in order.\<close>

theorem resolv_conf_roundtrip:
  assumes "files path = Some (render_resolv_conf ns)" "\<forall>a \<in> set ns. server_ok a"
  shows "nameservers_from_file files path = ns"
proof -
  let ?h = "''# Generated by linuxity. The host'' @ [CHR 0x27] @ ''s resolver, as the guest sees it.''"
  have head: "fgets_lines 511 (?h @ newline # rest) = (?h @ [newline]) # fgets_lines 511 rest" for rest
    by (rule fgets_lines_line) simp_all
  have last: "fgets_lines 511 (''options edns0'' @ newline # []) = [''options edns0'' @ [newline]]"
    by (subst fgets_lines_line) simp_all
  have "nameserver_line (?h @ [newline]) = None" "nameserver_line (''options edns0'' @ [newline]) = None"
    by (simp_all add: nameserver_line_def is_blank_def starts_with_def Let_def)
  with head [simplified] last [simplified] fgets_rendered [OF assms(2), of "''options edns0'' @ [newline]"] show ?thesis
    by (simp add: nameservers_from_file_def assms(1) render_resolv_conf_def List.map_filter_simps)
qed

theorem resolv_conf_roundtrip_witness:
  "nameservers_from_file [''/etc/resolv.conf'' \<mapsto> render_resolv_conf [''10.0.0.1'', ''fe80::1'']] ''/etc/resolv.conf''
   = [''10.0.0.1'', ''fe80::1'']"
  by (rule resolv_conf_roundtrip) (simp_all add: server_ok_def)

section \<open>The order of the sources\<close>

text \<open>The guest never starts without a resolver.\<close>

lemma choose_nameservers_nonempty: "servers (choose_nameservers files env_spec host guest) \<noteq> []"
  by (simp add: choose_nameservers_def Let_def nameservers_public_def)

lemma choose_nameservers_order:
  "origin (choose_nameservers files env_spec host guest) =
     (if nameservers_from_env env_spec \<noteq> [] then Origin_env
      else if guest \<noteq> [] \<and> nameservers_from_file files guest \<noteq> [] then Origin_guest_file
      else if (\<exists>p. host = Some p \<and> p \<noteq> [] \<and> nameservers_from_file files p \<noteq> []) then Origin_host_file
      else Origin_fallback)"
  by (cases host) (auto simp: choose_nameservers_def Let_def)

lemma trim_spaces_id:
  assumes "CHR '' '' \<notin> set s"
  shows "trim_spaces s = s"
proof -
  have "dropWhile (\<lambda>c. c = CHR '' '') t = t" if "CHR '' '' \<notin> set t" for t
    using that by (cases t) auto
  from this [of s] this [of "rev s"] assms show ?thesis by (simp add: trim_spaces_def)
qed

lemma env_servers_one:
  "s \<noteq> [] \<Longrightarrow> CHR '' '' \<notin> set s \<Longrightarrow> CHR '','' \<notin> set s \<Longrightarrow> env_servers s = [s]"
  by (subst env_servers.simps) (simp add: Let_def trim_spaces_id)

lemma env_servers_more:
  "s \<noteq> [] \<Longrightarrow> CHR '' '' \<notin> set s \<Longrightarrow> CHR '','' \<notin> set s \<Longrightarrow>
   env_servers (s @ CHR '','' # rest) = s # env_servers rest"
  by (subst env_servers.simps) (simp add: Let_def trim_spaces_id)

lemma env_servers_list:
  "\<forall>s \<in> set ns. s \<noteq> [] \<and> CHR '' '' \<notin> set s \<and> CHR '','' \<notin> set s \<Longrightarrow> ns \<noteq> [] \<Longrightarrow>
   env_servers (concat (map (\<lambda>s. s @ [CHR '','']) (butlast ns)) @ last ns) = ns"
proof (induction ns)
  case (Cons s ns)
  then show ?case
    by (cases "ns = []") (simp_all add: env_servers_one env_servers_more)
qed simp

section \<open>Abstract names\<close>

lemma length_hex16 [simp]: "length (hex16 w) = 16"
  by (simp add: hex16_def)

lemma kHex_inj: "i < 16 \<Longrightarrow> j < 16 \<Longrightarrow> kHex ! i = kHex ! j \<Longrightarrow> i = j"
proof -
  have "distinct kHex" "length kHex = 16" by (simp_all add: kHex_def)
  then show "i < 16 \<Longrightarrow> j < 16 \<Longrightarrow> kHex ! i = kHex ! j \<Longrightarrow> i = j"
    by (simp add: nth_eq_iff_index_eq)
qed

lemma nibble: "unat (drop_bit k (w :: u64) AND 0xF) = unat w div 2 ^ k mod 16"
proof -
  have "drop_bit k w AND 0xF = take_bit 4 (drop_bit k w)"
    by (simp add: take_bit_eq_mask mask_eq_exp_minus_1)
  then show ?thesis
    by (simp add: unsigned_take_bit_eq unsigned_drop_bit_eq take_bit_nat_def drop_bit_nat_def)
qed

lemma nibbles_determine:
  fixes m n :: nat
  assumes "\<And>k. k < l \<Longrightarrow> m div 16 ^ k mod 16 = n div 16 ^ k mod 16" "m < 16 ^ l" "n < 16 ^ l"
  shows "m = n"
  using assms
proof (induction l arbitrary: m n)
  case (Suc l)
  have "m div 16 = n div 16"
  proof (rule Suc.IH)
    fix k assume "k < l"
    then show "m div 16 div 16 ^ k mod 16 = n div 16 div 16 ^ k mod 16"
      using Suc.prems(1) [of "Suc k"] by (simp add: div_mult2_eq)
  qed (use Suc.prems(2,3) in \<open>simp_all add: less_mult_imp_div_less mult.commute\<close>)
  moreover have "m mod 16 = n mod 16" using Suc.prems(1) [of 0] by simp
  ultimately show ?case by (metis div_mult_mod_eq)
qed simp

lemma hex16_nth:
  assumes "k < 16"
  shows "hex16 w ! (15 - k) = kHex ! (unat w div 16 ^ k mod 16)"
proof -
  have "hex16 w = map (\<lambda>i. kHex ! (unat w div 16 ^ (15 - i) mod 16)) [0..<16]"
    by (simp add: hex16_def nibble upt_rec)
  moreover have "[0..<16] ! (15 - k) = 15 - k" using nth_upt [of 0 "15 - k" 16] by simp
  ultimately show ?thesis using assms by simp
qed

lemma hex16_inj: "hex16 v = hex16 w \<longleftrightarrow> v = w"
proof
  assume eq: "hex16 v = hex16 w"
  have "unat v = unat w"
  proof (rule nibbles_determine [of 16])
    fix k :: nat assume "k < 16"
    then have "kHex ! (unat v div 16 ^ k mod 16) = kHex ! (unat w div 16 ^ k mod 16)"
      using hex16_nth [of k v] hex16_nth [of k w] eq by simp
    then show "unat v div 16 ^ k mod 16 = unat w div 16 ^ k mod 16" by (intro kHex_inj) simp_all
  qed simp_all
  then show "v = w" by (simp add: word_unat_eq_iff)
qed simp

text \<open>An abstract socket name always fits the 107 bytes that \<open>sun_path\<close> leaves after the leading
  zero byte, holds no zero byte, and two names are equal exactly when they come from the same
  instance and the guest paths have the same hash: concurrent guests never meet on a socket.\<close>

theorem abstract_names_apart:
  "length (abstract_name_for p i) = 42 \<and> CHR 0x00 \<notin> set (abstract_name_for p i) \<and>
   (abstract_name_for p i = abstract_name_for q j \<longleftrightarrow> i = j \<and> fnv1a p = fnv1a q)"
proof -
  have digit: "kHex ! (n mod 16) \<in> set kHex" for n
    by (rule nth_mem) (simp add: kHex_def)
  have "set (hex16 w) \<subseteq> set kHex" for w
    by (auto simp: hex16_def nibble digit)
  moreover have "CHR 0x00 \<notin> set kHex" by (simp add: kHex_def)
  ultimately have "CHR 0x00 \<notin> set (hex16 w)" for w by blast
  then show ?thesis by (auto simp: abstract_name_for_def hex16_inj)
qed

end
