(* ===== verification/Lx_PathArg.thy ===== *)
theory Lx_PathArg
  imports Lx_Namespace Lx_ProcTable Lx_Outcome Lx_Memory Lx_Sysno Lx_Scan Lx_Net "HOL-Library.Monad_Syntax"
begin

text \<open>
  The dispatcher of \<open>abi/syscall.hpp\<close>, first part: its state and the helpers every path handler is
  made of.  A \<open>kst\<close> holds what the kernel object and the dispatcher keep between calls; a
  \<open>backend\<close> is what the trap supplies: the host, \<open>access\<close>, guest memory, the identity of the
  trapped task, and one option for each facility the dispatcher asks for with \<open>requires\<close>.  An
  operation is a function of the state that returns its result with the new state; \<open>None\<close> stands
  for the uncaught \<open>std::length_error\<close> of \<open>resolve_dotdot\<close> and for an ancestry walk longer than
  the bound \<open>be_depth\<close>.  The lemmas show that an argument resolves to a canonical guest path.
\<close>

unbundle bit_operations_syntax

section \<open>State\<close>

record ids =
  id_pid :: int
  id_tid :: int
  id_ppid :: int

text \<open>\<open>StatFields\<close> of \<open>abi/wire/stat.hpp\<close>, the part of \<open>MachineSpec\<close> (\<open>kernel/machine.hpp\<close>)
  that system calls report, and an open waiting for its descriptor.\<close>

record stat_fields =
  sf_mode :: u32
  sf_dev :: u64
  sf_ino :: u64
  sf_nlink :: u64
  sf_rdev :: u64
  sf_size :: u64
  sf_blksize :: u64
  sf_blocks :: u64
  sf_atime_ns :: u64
  sf_mtime_ns :: u64
  sf_ctime_ns :: u64

record machine =
  mc_ncpu :: int
  mc_mem_total :: u64
  mc_swap_total :: u64
  mc_release :: string
  mc_nodename :: string
  mc_machine_arch :: string

record pending =
  pd_open :: string
  pd_flags :: u64
  pd_dir :: bool
  pd_lazy :: string
  pd_entries :: "virtual_dirent list"

text \<open>\<open>be_uptime\<close> and \<open>be_mem_available\<close> are readings of the host; \<open>be_getaffinity\<close> is the host's
  call, on a host task.  \<open>be_file\<close> is the content of a file that can be opened, \<open>be_open_ro\<close> whether
  a name can be opened for reading; the calls that change the host return its \<open>errno\<close>, if any, and
  \<open>be_errno\<close> is what the last of them that failed left behind.\<close>

record ('h, 'd, 'm) backend =
  be_host :: "('h, 'd) host_ops"
  be_access :: "'h \<Rightarrow> string \<Rightarrow> nat \<Rightarrow> errno option"
  be_mem :: "'m guest_mem"
  be_arch :: arch
  be_depth :: nat
  be_ids :: "ids option"
  be_groups :: bool
  be_exe_of_pid :: "(int \<Rightarrow> string) option"
  be_cwd_of_pid :: "(int \<Rightarrow> string) option"
  be_host_tid :: "int option"
  be_host_tid_of :: "(int \<Rightarrow> int) option"
  be_stat_host_path :: "('h \<Rightarrow> string \<Rightarrow> stat_fields option) option"
  be_host_maps :: "string option option"
  be_machine :: machine
  be_uptime :: u64
  be_mem_available :: u64
  be_getaffinity :: "int \<Rightarrow> (nat \<Rightarrow> bool) result"
  be_getuid :: u32
  be_file :: "'h \<Rightarrow> string \<Rightarrow> u8 list option"
  be_open_ro :: "'h \<Rightarrow> string \<Rightarrow> bool"
  be_chmod :: "string \<Rightarrow> u32 \<Rightarrow> 'h \<Rightarrow> errno option \<times> 'h"
  be_unlink :: "string \<Rightarrow> 'h \<Rightarrow> errno option \<times> 'h"
  be_rename :: "string \<Rightarrow> string \<Rightarrow> u32 \<Rightarrow> 'h \<Rightarrow> errno option \<times> 'h"
  be_create :: "string \<Rightarrow> bool \<Rightarrow> u32 \<Rightarrow> 'h \<Rightarrow> errno option \<times> 'h"
  be_link :: "string \<Rightarrow> string \<Rightarrow> 'h \<Rightarrow> errno option \<times> 'h"
  be_errno :: "'h \<Rightarrow> errno"
  be_host_machine :: u16
  be_socket_ns :: socket_ns
  be_instance :: u64
  be_force_link_emulation :: bool
  be_pacman_overwrite :: bool

record ('h, 'm) kst =
  ks_files :: "'h file_ns"
  ks_ps :: proc_state
  ks_procs :: proc_table
  ks_mem :: 'm
  ks_self :: int
  ks_guest_mounts :: "string list"
  ks_fg_pgrp :: "(int \<times> int) list"
  ks_pending :: pending
  ks_socks :: "string list"
  ks_links_work :: "(u64 \<times> bool) list"

abbreviation ks_host :: "('h, 'm) kst \<Rightarrow> 'h" where
  "ks_host k \<equiv> ns_host (fn_ns (ks_files k))"

abbreviation ks_mounts :: "('h, 'm) kst \<Rightarrow> mount list" where
  "ks_mounts k \<equiv> fn_mounts (ks_files k)"

abbreviation ks_links :: "('h, 'm) kst \<Rightarrow> link_table" where
  "ks_links k \<equiv> fn_links (ks_files k)"

text \<open>What a handler gives: the fate of the call and the new state.\<close>

type_synonym ('h, 'm) handled = "(fate \<times> ('h, 'm) kst) option"

definition ids_of :: "('h, 'd, 'm) backend \<Rightarrow> ('h, 'm) kst \<Rightarrow> ids" where
  "ids_of E k = (case be_ids E of Some i \<Rightarrow> i | None \<Rightarrow> \<lparr>id_pid = ks_self k, id_tid = ks_self k, id_ppid = 0\<rparr>)"

section \<open>The namespace, as the dispatcher calls it\<close>

definition k_classify ::
  "('h, 'd, 'm) backend \<Rightarrow> string \<Rightarrow> bool \<Rightarrow> bool \<Rightarrow> write_intent \<Rightarrow> ('h, 'm) kst \<Rightarrow> path_class \<times> ('h, 'm) kst" where
  "k_classify E ap for_write follow wi k =
     (let fn = ks_files k;
          (pc, st) = classify (be_host E) (fn_mounts fn) (fn_links fn) ap for_write follow wi (fn_ns fn)
      in (pc, k\<lparr>ks_files := fn\<lparr>fn_ns := st\<rparr>\<rparr>))"

text \<open>A classification without write intent; it changes nothing.\<close>

definition k_lookup :: "('h, 'd, 'm) backend \<Rightarrow> string \<Rightarrow> bool \<Rightarrow> ('h, 'm) kst \<Rightarrow> path_class" where
  "k_lookup E ap follow k = fst (k_classify E ap False follow Copy_leaf k)"

definition k_absolutize :: "('h, 'd, 'm) backend \<Rightarrow> string \<Rightarrow> string \<Rightarrow> ('h, 'm) kst \<Rightarrow> string option" where
  "k_absolutize E path dir k =
     absolutize (be_host E) (ks_mounts k) (ks_links k) (fn_ns (ks_files k)) (cwd (ks_ps k)) path dir"

definition k_cstr :: "('h, 'd, 'm) backend \<Rightarrow> u64 \<Rightarrow> ('h, 'm) kst \<Rightarrow> string" where
  "k_cstr E a k = read_cstr (\<lambda>a n. copy_in (be_mem E) a n (ks_mem k)) a"

abbreviation arg_cstr :: "('h, 'd, 'm) backend \<Rightarrow> regs \<Rightarrow> nat \<Rightarrow> ('h, 'm) kst \<Rightarrow> string" where
  "arg_cstr E r i k \<equiv> k_cstr E (arg r i) k"

definition k_path_of_fd :: "int \<Rightarrow> ('h, 'm) kst \<Rightarrow> string \<times> ('h, 'm) kst" where
  "k_path_of_fd fd k = (let (p, ps) = path_of_fd fd (ks_ps k) in (p, k\<lparr>ks_ps := ps\<rparr>))"

section \<open>Path arguments\<close>

definition kAtFdCwd :: int where "kAtFdCwd = - 100"

definition at_symlink_nofollow :: u64 where "at_symlink_nofollow = 0x100"
definition at_removedir :: u64 where "at_removedir = 0x200"
definition at_symlink_follow :: u64 where "at_symlink_follow = 0x400"
definition at_empty_path :: u64 where "at_empty_path = 0x1000"

definition has_at :: "u64 \<Rightarrow> u64 \<Rightarrow> bool" where
  "has_at flags f \<longleftrightarrow> flags AND f \<noteq> 0"

definition dir_of :: "int \<Rightarrow> ('h, 'm) kst \<Rightarrow> string \<times> ('h, 'm) kst" where
  "dir_of fd k = (if fd = kAtFdCwd then ([], k) else k_path_of_fd fd k)"

definition at_dirfd_unresolvable :: "regs \<Rightarrow> string \<Rightarrow> ('h, 'm) kst \<Rightarrow> bool \<times> ('h, 'm) kst" where
  "at_dirfd_unresolvable r raw k =
     (let fd = int_arg r 0
      in if fd = kAtFdCwd then (False, k)
         else if raw = [] \<or> hd raw = slash then (False, k)
         else let (d, k) = dir_of fd k in (d = [], k))"

datatype path_syntax = Syntax_ok | Syntax_empty | Syntax_needs_dir

definition path_syntax :: "string \<Rightarrow> path_syntax" where
  "path_syntax raw =
     (if raw = [] then Syntax_empty
      else if length raw > 1 \<and> last raw = slash then Syntax_needs_dir
      else Syntax_ok)"

definition ends_with :: "string \<Rightarrow> string \<Rightarrow> bool" where
  "ends_with s suf \<longleftrightarrow> length suf \<le> length s \<and> drop (length s - length suf) s = suf"

definition virtual_is_writable :: "string \<Rightarrow> bool" where
  "virtual_is_writable p = ends_with p ''/comm''"

datatype vmut = VMut_create | VMut_exists | VMut_remove | VMut_meta

definition virtual_mut_errno :: "string \<Rightarrow> vmut \<Rightarrow> errno" where
  "virtual_mut_errno ap op =
     (if op = VMut_create then ENOENT
      else if op = VMut_exists then EEXIST
      else if op = VMut_meta then EPERM
      else let body = dropWhile (\<lambda>c. c = slash) ap;
               at_root = (case str_find slash body of
                            None \<Rightarrow> True
                          | Some i \<Rightarrow> str_find slash (drop (i + 1) body) = None)
           in if at_root then EACCES else EPERM)"

definition null_path_arg :: "regs \<Rightarrow> nat \<Rightarrow> bool" where
  "null_path_arg r path_arg \<longleftrightarrow> arg r path_arg = 0"

text \<open>The index of the flags word is \<open>None\<close> where the source passes \<open>-1\<close>.\<close>

definition empty_path_arg :: "('h, 'd, 'm) backend \<Rightarrow> regs \<Rightarrow> nat \<Rightarrow> nat option \<Rightarrow> ('h, 'm) kst \<Rightarrow> bool" where
  "empty_path_arg E r path_arg flags_arg k =
     (if null_path_arg r path_arg then False
      else if arg_cstr E r path_arg k \<noteq> [] then False
      else (case flags_arg of
              Some f \<Rightarrow> \<not> has_at (arg r f) at_empty_path
            | None \<Rightarrow> True))"

definition empty_cstr_arg :: "('h, 'd, 'm) backend \<Rightarrow> regs \<Rightarrow> nat \<Rightarrow> ('h, 'm) kst \<Rightarrow> bool" where
  "empty_cstr_arg E r path_arg k \<longleftrightarrow> \<not> null_path_arg r path_arg \<and> arg_cstr E r path_arg k = []"

definition removedir_flag :: "regs \<Rightarrow> nat \<Rightarrow> bool \<Rightarrow> bool \<Rightarrow> bool" where
  "removedir_flag r path_arg at rmdir_syscall =
     (if \<not> at then rmdir_syscall else has_at (arg r (path_arg + 1)) at_removedir)"

datatype dot_tail = Tail_none | Tail_dot | Tail_dotdot

fun strip_tail :: "string \<Rightarrow> string" where
  "strip_tail p = (if length p > 1 \<and> last p = slash then strip_tail (butlast p) else p)"

declare strip_tail.simps [simp del]

definition dot_tail :: "string \<Rightarrow> dot_tail" where
  "dot_tail p0 =
     (let p = strip_tail p0
      in if p = ''.'' \<or> ends_with p ''/.'' then Tail_dot
         else if p = ''..'' \<or> ends_with p ''/..'' then Tail_dotdot
         else Tail_none)"

definition dir_base :: "regs \<Rightarrow> bool \<Rightarrow> ('h, 'm) kst \<Rightarrow> string \<times> ('h, 'm) kst" where
  "dir_base r at k =
     (let (d, k) = (if at then dir_of (int_arg r 0) k else ([], k))
      in if d \<noteq> [] then (d, k)
         else (if cwd (ks_ps k) = [] then ''/'' else cwd (ks_ps k), k))"

section \<open>Questions to the host\<close>

abbreviation (input) F_OK :: nat where "F_OK \<equiv> 0"
abbreviation (input) X_OK :: nat where "X_OK \<equiv> 1"

definition access_errno :: "errno \<Rightarrow> errno" where
  "access_errno e = (if e \<in> {EACCES, ELOOP, ENOTDIR, ENAMETOOLONG} then e else ENOENT)"

definition s_isreg :: "u32 \<Rightarrow> bool" where
  "s_isreg m \<longleftrightarrow> m AND 0xF000 = 0x8000"

definition access_ok :: "('h, 'd, 'm) backend \<Rightarrow> 'h \<Rightarrow> string \<Rightarrow> nat \<Rightarrow> bool" where
  "access_ok E h p mode \<longleftrightarrow> be_access E h p mode = None"

text \<open>\<open>access(p, X_OK) != 0 && errno == EACCES\<close>.\<close>

definition search_denied :: "('h, 'd, 'm) backend \<Rightarrow> 'h \<Rightarrow> string \<Rightarrow> bool" where
  "search_denied E h p \<longleftrightarrow> be_access E h p X_OK = Some EACCES"

definition dot_traversal_denied :: "('h, 'd, 'm) backend \<Rightarrow> 'h \<Rightarrow> string \<Rightarrow> string \<Rightarrow> bool" where
  "dot_traversal_denied E h raw host_path =
     (if dot_tail raw = Tail_none then False
      else if host_path = [] then False
      else search_denied E h host_path)"

text \<open>The directory part of a host path; \<open>None\<close> where the source returns before looking at it.\<close>

definition host_parent :: "string \<Rightarrow> string option" where
  "host_parent p =
     (if p = [] then None
      else case str_rfind slash p of
             None \<Rightarrow> None
           | Some i \<Rightarrow> if i = 0 then None else Some (take i p))"

definition host_dir_searchable :: "('h, 'd, 'm) backend \<Rightarrow> 'h \<Rightarrow> string \<Rightarrow> bool" where
  "host_dir_searchable E h p =
     (case host_parent p of
        None \<Rightarrow> True
      | Some parent \<Rightarrow>
          (case h_stat (be_host E) h parent of
             Inl _ \<Rightarrow> True
           | Inr st \<Rightarrow> if \<not> s_isdir (hst_mode st) then True else access_ok E h parent X_OK))"

text \<open>The answer with the reason that \<open>why\<close> receives when it is negative.\<close>

definition host_lexists :: "('h, 'd, 'm) backend \<Rightarrow> 'h \<Rightarrow> string \<Rightarrow> errno option" where
  "host_lexists E h p =
     (if p = [] then Some ENOENT
      else case h_lstat (be_host E) h p of Inr _ \<Rightarrow> None | Inl e \<Rightarrow> Some (access_errno e))"

definition host_path_is_symlink :: "('h, 'd, 'm) backend \<Rightarrow> 'h \<Rightarrow> string \<Rightarrow> bool" where
  "host_path_is_symlink E h p =
     (if p = [] then False
      else case h_lstat (be_host E) h p of Inl _ \<Rightarrow> False | Inr st \<Rightarrow> s_islnk (hst_mode st))"

definition parent_resolves :: "('h, 'd, 'm) backend \<Rightarrow> 'h \<Rightarrow> string \<Rightarrow> errno option" where
  "parent_resolves E h p =
     (case host_parent p of
        None \<Rightarrow> None
      | Some parent \<Rightarrow> map_option access_errno (be_access E h parent F_OK))"

definition path_is_ancestor :: "string \<Rightarrow> string \<Rightarrow> bool" where
  "path_is_ancestor anc p =
     (if anc = [] \<or> p = [] then False
      else if length p \<le> length anc then False
      else if take (length anc) p \<noteq> anc then False
      else p ! length anc = slash \<or> last anc = slash)"

definition host_path_is_dir_nofollow :: "('h, 'd, 'm) backend \<Rightarrow> 'h \<Rightarrow> string \<Rightarrow> bool" where
  "host_path_is_dir_nofollow E h p =
     (if p = [] then False
      else case h_lstat (be_host E) h p of Inl _ \<Rightarrow> False | Inr st \<Rightarrow> s_isdir (hst_mode st))"

definition host_path_is_regular :: "('h, 'd, 'm) backend \<Rightarrow> 'h \<Rightarrow> string \<Rightarrow> bool" where
  "host_path_is_regular E h p =
     (if p = [] then False
      else case h_stat (be_host E) h p of Inl _ \<Rightarrow> False | Inr st \<Rightarrow> s_isreg (hst_mode st))"

definition host_path_is_dir :: "('h, 'd, 'm) backend \<Rightarrow> 'h \<Rightarrow> string \<Rightarrow> bool" where
  "host_path_is_dir E h p =
     (if p = [] then False
      else case h_stat (be_host E) h p of Inl _ \<Rightarrow> False | Inr st \<Rightarrow> s_isdir (hst_mode st))"

definition parent_is_dir :: "('h, 'd, 'm) backend \<Rightarrow> 'h \<Rightarrow> string \<Rightarrow> bool" where
  "parent_is_dir E h p =
     (case host_parent p of
        None \<Rightarrow> True
      | Some parent \<Rightarrow>
          (case h_stat (be_host E) h parent of Inl _ \<Rightarrow> True | Inr st \<Rightarrow> s_isdir (hst_mode st)))"

definition resolve_failure_errno :: "('h, 'd, 'm) backend \<Rightarrow> string \<Rightarrow> errno \<Rightarrow> ('h, 'm) kst \<Rightarrow> errno" where
  "resolve_failure_errno E guest_abs fallback k =
     (let mapped = k_lookup E guest_abs False k
      in if pc_host mapped = [] then fallback
         else case be_access E (ks_host k) (pc_host mapped) F_OK of
                None \<Rightarrow> fallback
              | Some e \<Rightarrow> if access_errno e = ENOENT then fallback else access_errno e)"

definition guest_prefix_loop :: "('h, 'd, 'm) backend \<Rightarrow> string \<Rightarrow> ('h, 'm) kst \<Rightarrow> errno" where
  "guest_prefix_loop E guest_abs k =
     (case str_rfind slash guest_abs of
        None \<Rightarrow> E_ok
      | Some i \<Rightarrow>
          if i = 0 then E_ok
          else if pc_error (k_lookup E (take i guest_abs) True k) = ELOOP then ELOOP else E_ok)"

section \<open>Dots\<close>

text \<open>The walk over the components before the first dot; \<open>cur\<close> is the guest path built so far.\<close>

primrec dot_prefix_walk :: "('h, 'd, 'm) backend \<Rightarrow> ('h, 'm) kst \<Rightarrow> string \<Rightarrow> string list \<Rightarrow> errno" where
  "dot_prefix_walk E k cur [] = E_ok"
| "dot_prefix_walk E k cur (c # cs) =
     (let cur = (if cur = [] \<or> last cur \<noteq> slash then cur @ ''/'' else cur) @ c;
          pc = k_lookup E (normalize_path cur) True k
      in if pc_realm pc \<noteq> Rhost then dot_prefix_walk E k cur cs
         else if pc_host pc = [] then dot_prefix_walk E k cur cs
         else case h_stat (be_host E) (ks_host k) (pc_host pc) of
                Inl e \<Rightarrow> access_errno e
              | Inr st \<Rightarrow>
                  if \<not> s_isdir (hst_mode st) then ENOTDIR
                  else if search_denied E (ks_host k) (pc_host pc) then EACCES
                  else dot_prefix_walk E k cur cs)"

definition is_dots :: "string \<Rightarrow> bool" where
  "is_dots c \<longleftrightarrow> c = ''.'' \<or> c = ''..''"

definition dot_prefix_error :: "('h, 'd, 'm) backend \<Rightarrow> regs \<Rightarrow> nat \<Rightarrow> bool \<Rightarrow> ('h, 'm) kst \<Rightarrow> errno \<times> ('h, 'm) kst" where
  "dot_prefix_error E r path_arg at k =
     (let raw = arg_cstr E r path_arg k;
          cs = comps_of raw;
          before = takeWhile (\<lambda>c. \<not> is_dots c) cs
      in if CHR ''.'' \<notin> set raw then (E_ok, k)
         else if before = cs then (E_ok, k)
         else if before = [] \<and> length cs > 1 then (E_ok, k)
         else let (base, k) = (if raw \<noteq> [] \<and> hd raw = slash then (''/'', k) else dir_base r at k)
              in if before = [] then
                   let pc = k_lookup E base True k
                   in (if pc_realm pc = Rhost \<and> pc_host pc \<noteq> [] \<and> search_denied E (ks_host k) (pc_host pc)
                       then EACCES else E_ok, k)
                 else (dot_prefix_walk E k base before, k))"

section \<open>The links of /proc\<close>

definition show_int :: "int \<Rightarrow> string" where
  "show_int i = (if i < 0 then ''-'' @ show_num 10 (nat (- i)) else show_num 10 (nat i))"

text \<open>\<open>atoi_safe\<close>, with the accumulator wrapping at 32 bits.\<close>

primrec atoi_from :: "string \<Rightarrow> u32 \<Rightarrow> int" where
  "atoi_from [] v = sint v"
| "atoi_from (c # cs) v =
     (if \<not> is_digit 10 c then - 1
      else atoi_from cs (v * 10 + of_nat (digit_val c)))"

definition atoi_safe :: "string \<Rightarrow> int" where
  "atoi_safe s = (if s = [] then - 1 else atoi_from s 0)"

definition proc_is_link :: "string \<Rightarrow> bool" where
  "proc_is_link p =
     (if \<not> starts_with p ''/proc/'' then False
      else case str_rfind slash p of
             None \<Rightarrow> False
           | Some i \<Rightarrow>
               let leaf = drop (i + 1) p;
                   who = (if i < 6 then drop 6 p else take (i - 6) (drop 6 p))
               in if leaf \<noteq> ''exe'' \<and> leaf \<noteq> ''cwd'' \<and> leaf \<noteq> ''root'' then False
                  else if who = ''self'' \<or> who = ''thread-self'' then True
                  else who \<noteq> [] \<and> list_all (\<lambda>c. c \<in> set ''0123456789'') who)"

definition host_fd_deleted :: "('h, 'd, 'm) backend \<Rightarrow> int \<Rightarrow> ('h, 'm) kst \<Rightarrow> bool" where
  "host_fd_deleted E fd k =
     (case be_host_tid E of
        None \<Rightarrow> False
      | Some tid \<Rightarrow>
          (case h_readlink (be_host E) (ks_host k) (''/proc/'' @ show_int tid @ ''/fd/'' @ show_int fd) of
             Inl _ \<Rightarrow> False
           | Inr tgt \<Rightarrow> ends_with (take 4096 tgt) '' (deleted)''))"

definition exe_of :: "('h, 'd, 'm) backend \<Rightarrow> int \<Rightarrow> ('h, 'm) kst \<Rightarrow> string option" where
  "exe_of E pid k =
     (let e = (case be_exe_of_pid E of None \<Rightarrow> [] | Some f \<Rightarrow> f pid)
      in if e \<noteq> [] then Some e
         else case pt_find (be_depth E) (ks_procs k) pid of
                None \<Rightarrow> None
              | Some None \<Rightarrow> Some []
              | Some (Some q) \<Rightarrow>
                  let c = pi_cmdline q;
                      a0 = (case str_find (CHR 0x00) c of None \<Rightarrow> c | Some i \<Rightarrow> take i c)
                  in Some (if a0 \<noteq> [] \<and> hd a0 = slash \<and> a0 \<noteq> ''(spawning)'' then a0 else []))"

definition proc_cwd :: "('h, 'd, 'm) backend \<Rightarrow> int \<Rightarrow> ('h, 'm) kst \<Rightarrow> string" where
  "proc_cwd E pid k =
     (case be_cwd_of_pid E of
        None \<Rightarrow> cwd (ks_ps k)
      | Some f \<Rightarrow> if pid \<noteq> id_pid (ids_of E k) \<and> f pid \<noteq> [] then f pid else cwd (ks_ps k))"

definition proc_fd_target :: "('h, 'd, 'm) backend \<Rightarrow> string \<Rightarrow> ('h, 'm) kst \<Rightarrow> string \<times> ('h, 'm) kst" where
  "proc_fd_target E num k =
     (let fd = atoi_safe num
      in if fd \<ge> 0 then
           let (gp, k) = k_path_of_fd fd k
           in (if gp \<noteq> [] then gp @ (if host_fd_deleted E fd k then '' (deleted)'' else []) else [], k)
         else ([], k))"

definition proc_symlink_target ::
  "('h, 'd, 'm) backend \<Rightarrow> string \<Rightarrow> ('h, 'm) kst \<Rightarrow> (string \<times> ('h, 'm) kst) option" where
  "proc_symlink_target E ap k =
     (let me = ids_of E k;
          rest = drop 6 ap
      in if ap = ''/proc/self/exe'' then map_option (\<lambda>e. (e, k)) (exe_of E (id_pid me) k)
         else if \<not> starts_with ap ''/proc/'' then Some ([], k)
         else case str_find slash rest of
                None \<Rightarrow> Some ([], k)
              | Some i \<Rightarrow>
                  let who = take i rest;
                      tail = drop (i + 1) rest;
                      pid = (if who = ''self'' \<or> who = ''thread-self'' then id_pid me else atoi_safe who)
                  in if pid \<le> 0 then Some ([], k)
                     else if tail = ''exe'' then map_option (\<lambda>e. (e, k)) (exe_of E pid k)
                     else if tail = ''cwd'' then Some (proc_cwd E pid k, k)
                     else if tail = ''root'' then Some (''/'', k)
                     else if starts_with tail ''fd/'' \<and> pid = id_pid me
                          then Some (proc_fd_target E (drop 3 tail) k)
                     else Some ([], k))"

text \<open>\<open>p\<close> itself or a path below it.\<close>

definition at_or_below :: "string \<Rightarrow> string \<Rightarrow> bool" where
  "at_or_below p q \<longleftrightarrow> q = p \<or> starts_with q (p @ ''/'')"

definition bind_proc_self :: "ids \<Rightarrow> string \<Rightarrow> string" where
  "bind_proc_self me ap =
     (let own = ''/proc/'' @ show_int (id_pid me)
      in if \<not> starts_with ap ''/proc/'' then ap
         else if at_or_below ''/proc/self/fd'' ap then ap
         else if at_or_below ''/proc/self/fdinfo'' ap then ap
         else if at_or_below (own @ ''/fd'') ap then ''/proc/self/fd'' @ drop (length own + 3) ap
         else if at_or_below (own @ ''/fdinfo'') ap then ''/proc/self/fdinfo'' @ drop (length own + 7) ap
         else if at_or_below ''/proc/self'' ap then own @ drop 10 ap
         else if at_or_below ''/proc/thread-self'' ap then
           own @ ''/task/'' @ show_int (id_tid me) @ drop 17 ap
         else ap)"

definition expand_proc_links ::
  "('h, 'd, 'm) backend \<Rightarrow> string \<Rightarrow> bool \<Rightarrow> ('h, 'm) kst \<Rightarrow> (string \<times> ('h, 'm) kst) option" where
  "expand_proc_links E ap follow_leaf k =
     (if \<not> starts_with ap ''/proc/'' then Some (ap, k)
      else case str_find slash (drop 6 ap) of
             None \<Rightarrow> Some (ap, k)
           | Some i \<Rightarrow>
               let s1 = 6 + i;
                   s2 = map_option (\<lambda>j. s1 + 1 + j) (str_find slash (drop (s1 + 1) ap));
                   link = (case s2 of None \<Rightarrow> ap | Some j \<Rightarrow> take j ap)
               in if \<not> proc_is_link link then Some (ap, k)
                  else if s2 = None \<and> \<not> follow_leaf then Some (ap, k)
                  else do {
                    (tgt, k) \<leftarrow> proc_symlink_target E link k;
                    if tgt = [] \<or> hd tgt \<noteq> slash then Some (ap, k)
                    else Some (normalize_path (tgt @ (case s2 of None \<Rightarrow> [] | Some j \<Rightarrow> drop j ap)), k)
                  })"

definition resolve_raw ::
  "('h, 'd, 'm) backend \<Rightarrow> regs \<Rightarrow> string \<Rightarrow> bool \<Rightarrow> bool \<Rightarrow> ('h, 'm) kst \<Rightarrow> (string \<times> ('h, 'm) kst) option" where
  "resolve_raw E r raw at follow_leaf k =
     (let (dir, k) = (if at then dir_of (int_arg r 0) k else ([], k))
      in do {
           ap \<leftarrow> k_absolutize E raw dir k;
           expand_proc_links E (bind_proc_self (ids_of E k) ap) follow_leaf k
         })"

definition resolve_arg ::
  "('h, 'd, 'm) backend \<Rightarrow> regs \<Rightarrow> nat \<Rightarrow> bool \<Rightarrow> bool \<Rightarrow> ('h, 'm) kst \<Rightarrow> (string \<times> ('h, 'm) kst) option" where
  "resolve_arg E r path_arg at follow_leaf k = resolve_raw E r (arg_cstr E r path_arg k) at follow_leaf k"

section \<open>Arguments resolve to canonical paths\<close>

text \<open>A path in the making: empty, or rendered from ordinary components.\<close>

definition partial_path :: "string \<Rightarrow> bool" where
  "partial_path p \<longleftrightarrow> (\<exists>cs. list_all valid_comp cs \<and> p = (if cs = [] then [] else render_path cs))"

definition answers_canonical :: "(string \<Rightarrow> string option) \<Rightarrow> bool" where
  "answers_canonical phys \<longleftrightarrow> (\<forall>p q. phys p = Some q \<longrightarrow> q = [] \<or> canonical_path q)"

lemma partial_path_Nil [simp]: "partial_path []"
  by (auto simp: partial_path_def)

lemma partial_path_snoc: "partial_path p \<Longrightarrow> valid_comp c \<Longrightarrow> partial_path (p @ ''/'' @ c)"
proof -
  assume "partial_path p" and c: "valid_comp c"
  then obtain cs where "list_all valid_comp cs" "p = (if cs = [] then [] else render_path cs)"
    by (auto simp: partial_path_def)
  then show ?thesis
    using c render_snoc [of cs c] unfolding partial_path_def by (intro exI [of _ "cs @ [c]"]) auto
qed

lemma partial_path_canonical: "partial_path p \<Longrightarrow> canonical_path (if p = [] then ''/'' else p)"
proof -
  assume "partial_path p"
  then obtain cs where cs: "list_all valid_comp cs" "p = (if cs = [] then [] else render_path cs)"
    by (auto simp: partial_path_def)
  then have "(if p = [] then ''/'' else p) = render_path cs"
    using render_Cons [of cs] by (auto simp: render_path_def)
  then show ?thesis using canonical_render [OF cs(1)] by simp
qed

lemma canonical_partial: "canonical_path p \<Longrightarrow> partial_path (if p = ''/'' then [] else p)"
proof (elim canonical_pathE)
  fix cs assume "p = render_path cs" "list_all valid_comp cs"
  moreover have "p \<noteq> ''/'' \<Longrightarrow> cs \<noteq> []" using calculation(1) by (auto simp: render_path_def)
  ultimately show ?thesis
    by (cases "p = ''/''") (simp, auto simp: partial_path_def intro: exI [of _ cs])
qed

lemma partial_path_take:
  assumes "partial_path p" "str_rfind slash p = Some k"
  shows "partial_path (take k p)"
proof -
  obtain cs where cs: "list_all valid_comp cs" "p = (if cs = [] then [] else render_path cs)"
    using assms(1) by (auto simp: partial_path_def)
  with assms(2) obtain bs b where b: "cs = bs @ [b]" by (cases cs rule: rev_cases) auto
  then have "slash \<notin> set b" using cs(1) by (simp add: valid_comp_def plain_comp_def)
  then have "take k p = (if bs = [] then [] else render_path bs)"
    using assms(2) str_rfind_append [of slash b "if bs = [] then [] else render_path bs"] cs(2)
    by (cases "bs = []") (auto simp: b render_snoc render_path_def)
  then show ?thesis using cs(1) unfolding partial_path_def b by (intro exI [of _ bs]) auto
qed

lemma pop_physical_partial:
  "answers_canonical phys \<Longrightarrow> partial_path p \<Longrightarrow> pop_physical phys p = Some q \<Longrightarrow> partial_path q"
proof -
  assume a: "answers_canonical phys" "partial_path p" and q: "pop_physical phys p = Some q"
  let ?cur = "\<lambda>x. if x \<noteq> [] then (if x = ''/'' then [] else x) else p"
  from q obtain x k where x: "phys p = Some x" and k: "str_rfind slash (?cur x) = Some k" "q = take k (?cur x)"
    by (auto simp: pop_physical_def Let_def split: option.splits)
  have "x = [] \<or> canonical_path x" using a(1) x by (simp add: answers_canonical_def)
  then have "partial_path (?cur x)" using a(2) canonical_partial [of x] by auto
  then show ?thesis unfolding k(2) by (rule partial_path_take [OF _ k(1)])
qed

lemma dotdot_loop_canonical:
  assumes "answers_canonical phys" "list_all plain_comp cs"
  shows "partial_path cur \<Longrightarrow> dotdot_loop phys cur cs = Some q \<Longrightarrow> canonical_path q"
  using assms(2)
proof (induction cs arbitrary: cur)
  case Nil
  then show ?case using partial_path_canonical [of cur] by (simp split: if_splits)
next
  case (Cons c cs)
  show ?case
  proof (cases "c = ''.'' \<or> c = ''..''")
    case True
    then have "\<exists>cur2. partial_path cur2 \<and> dotdot_loop phys cur2 cs = Some q"
      using Cons.prems pop_physical_partial [OF assms(1) Cons.prems(1)] partial_path_Nil
      by (cases "cur = []") (auto simp: bind_eq_Some_conv simp del: partial_path_Nil split: if_splits)
    then show ?thesis using Cons.IH Cons.prems(3) by auto
  next
    case False
    then have "partial_path (cur @ ''/'' @ c)"
      using Cons.prems by (intro partial_path_snoc) (auto simp: valid_comp_def)
    with Cons False show ?thesis by simp
  qed
qed

lemma resolve_with_canonical:
  "answers_canonical phys \<Longrightarrow> resolve_with phys p = Some q \<Longrightarrow> canonical_path q"
  using dotdot_loop_canonical [of phys "comps_of p" "[]" q] comps_of_plain [of p]
  by (auto simp: resolve_with_def normalize_path_canonical split: if_splits)

lemma physical_canonical: "answers_canonical (physical_if_symlink cls rl n)"
proof (induction n)
  case (Suc n)
  then have "resolve_with (physical_if_symlink cls rl n) p = Some q \<Longrightarrow> canonical_path q" for p q
    by (rule resolve_with_canonical)
  with Suc show ?case
    by (fastforce simp: answers_canonical_def Let_def bind_eq_Some_conv split: sum.splits if_splits)
qed (simp add: answers_canonical_def)

lemma absolutize_canonical: "absolutize H ms lt st c path dir = Some q \<Longrightarrow> canonical_path q"
  unfolding absolutize_def resolve_dotdot_def Let_def
  by (auto intro: resolve_with_canonical [OF physical_canonical] split: if_splits)

lemma canonical_ne: "canonical_path p \<Longrightarrow> p \<noteq> ''/'' \<Longrightarrow> comps_of p \<noteq> []"
  by (auto simp: canonical_path_def render_path_def)

lemma canonical_swap_prefix:
  assumes p: "canonical_path p" "p \<noteq> ''/''" and q: "canonical_path q" "q \<noteq> ''/''"
    and c: "canonical_path (p @ rest)" "rest = [] \<or> hd rest = slash"
  shows "canonical_path (q @ rest)"
proof (cases rest)
  case (Cons a r)
  with c(2) have r: "rest = slash # r" by simp
  have pr: "p @ rest = render_path (comps_of p @ comps_of r)" "list_all valid_comp (comps_of r)"
    using c(1) by (auto simp: canonical_path_def r comps_of_append_slash)
  have "comps_of r \<noteq> []"
    using pr(1) p(1) r by (metis append_Nil2 canonical_path_def list.distinct(1) self_append_conv)
  moreover have "rest = render_path (comps_of r)"
    using pr(1) p(1) render_append [OF canonical_ne [OF p] calculation] by (metis canonical_path_def same_append_eq)
  ultimately have "q @ rest = render_path (comps_of q @ comps_of r)"
    using render_append [OF canonical_ne [OF q]] q(1) by (metis canonical_path_def)
  moreover have "list_all valid_comp (comps_of q @ comps_of r)"
    using pr(2) q(1) by (simp add: canonical_path_def)
  ultimately show ?thesis using canonical_render by metis
qed (use q in simp)

lemma show_int_valid: "valid_comp (show_int i)"
proof -
  have d: "c \<in> set (show_num 10 n) \<Longrightarrow> is_digit 10 c" for c n
    using show_num_digits [of 10 n] by auto
  have "c \<in> set (show_int i) \<Longrightarrow> c \<noteq> slash \<and> c \<noteq> CHR ''.''" for c
    using d [of c] by (auto simp: show_int_def is_digit_def split: if_splits)
  then have "slash \<notin> set (show_int i)" "CHR ''.'' \<notin> set (show_int i)" by blast+
  moreover have "show_int i \<noteq> []" by (simp add: show_int_def)
  ultimately show ?thesis by (auto simp: valid_comp_def plain_comp_def)
qed

lemma at_or_belowE:
  assumes "at_or_below p ap"
  obtains rest where "ap = p @ rest" "rest = [] \<or> hd rest = slash"
proof (cases "ap = p")
  case False
  with assms obtain r where "ap = p @ ''/'' @ r"
    by (auto simp: at_or_below_def starts_with_iff)
  then show ?thesis using that [of "''/'' @ r"] by simp
qed (use that [of "[]"] in simp)

lemma own_canonical: "canonical_path (''/proc/'' @ show_int i)"
  using canonical_render [of "[''proc'', show_int i]"] show_int_valid [of i]
  by (simp add: render_path_def valid_comp_def plain_comp_def)

lemma own_below_canonical:
  "list_all valid_comp cs \<Longrightarrow> canonical_path (''/proc/'' @ show_int i @ concat (map (\<lambda>c. slash # c) cs))"
  using canonical_render [of "''proc'' # show_int i # cs"] show_int_valid [of i]
  by (simp add: render_path_def valid_comp_def plain_comp_def)

lemma bind_proc_self_canonical:
  assumes "canonical_path ap"
  shows "canonical_path (bind_proc_self me ap)"
proof -
  let ?own = "''/proc/'' @ show_int (id_pid me)"
  have swap: "canonical_path (q @ drop n ap)"
    if "at_or_below p ap" "canonical_path p" "p \<noteq> ''/''" "n = length p" "canonical_path q" "q \<noteq> ''/''" for p q n
    using that assms by (elim at_or_belowE) (auto intro: canonical_swap_prefix)
  have fd: "canonical_path (?own @ ''/fd'')" "canonical_path (?own @ ''/fdinfo'')"
    using own_below_canonical [of "[''fd'']" "id_pid me"] own_below_canonical [of "[''fdinfo'']" "id_pid me"]
    by (simp_all add: valid_comp_def plain_comp_def)
  have task: "canonical_path (?own @ ''/task/'' @ show_int (id_tid me))"
    using own_below_canonical [of "[''task'', show_int (id_tid me)]" "id_pid me"] show_int_valid [of "id_tid me"]
    by (simp add: valid_comp_def plain_comp_def)
  have self: "canonical_path ''/proc/self/fd''" "canonical_path ''/proc/self/fdinfo''"
      "canonical_path ''/proc/self''" "canonical_path ''/proc/thread-self''" by code_simp+
  have "canonical_path (''/proc/self/fd'' @ drop (length ?own + 3) ap)" if "at_or_below (?own @ ''/fd'') ap"
    by (rule swap [OF that fd(1) _ _ self(1)]) simp_all
  moreover have "canonical_path (''/proc/self/fdinfo'' @ drop (length ?own + 7) ap)" if "at_or_below (?own @ ''/fdinfo'') ap"
    by (rule swap [OF that fd(2) _ _ self(2)]) simp_all
  moreover have "canonical_path (?own @ drop 10 ap)" if "at_or_below ''/proc/self'' ap"
    by (rule swap [OF that self(3) _ _ own_canonical]) simp_all
  moreover have "canonical_path ((?own @ ''/task/'' @ show_int (id_tid me)) @ drop 17 ap)" if "at_or_below ''/proc/thread-self'' ap"
    by (rule swap [OF that self(4) _ _ task]) simp_all
  ultimately show ?thesis
    using assms unfolding bind_proc_self_def Let_def by (simp only: append_assoc split: if_split) blast
qed

lemma expand_proc_links_canonical:
  "expand_proc_links E ap fl k = Some (q, k2) \<Longrightarrow> canonical_path ap \<Longrightarrow> canonical_path q"
  by (auto simp: expand_proc_links_def Let_def bind_eq_Some_conv normalize_path_canonical
      split: if_splits option.splits)

lemma resolve_raw_canonical: "resolve_raw E r raw at fl k = Some (q, k2) \<Longrightarrow> canonical_path q"
  unfolding resolve_raw_def k_absolutize_def
  by (auto simp: bind_eq_Some_conv split_def Let_def
      dest!: absolutize_canonical intro: expand_proc_links_canonical bind_proc_self_canonical)

lemma resolve_arg_canonical: "resolve_arg E r i at fl k = Some (q, k2) \<Longrightarrow> canonical_path q"
  unfolding resolve_arg_def by (rule resolve_raw_canonical)

section \<open>A small backend\<close>

text \<open>For the examples: the small host, an address space of two pages' first bytes, and the task
  with number 5; \<open>demo_text\<close> puts a string at the start of the first page.\<close>

definition demo_text :: "string \<Rightarrow> regions" where
  "demo_text s =
     [\<lparr>rg_base = 0x1000, rg_len = 64, rg_perm = 3,
       rg_host = map of_char s @ replicate (64 - length s) 0\<rparr>,
      \<lparr>rg_base = 0x2000, rg_len = 160, rg_perm = 3, rg_host = replicate 160 0\<rparr>]"

definition demo_machine :: machine where
  "demo_machine = \<lparr>mc_ncpu = 2, mc_mem_total = 0x80000000, mc_swap_total = 0, mc_release = ''6.6.0-linuxity'',
     mc_nodename = ''linuxity'', mc_machine_arch = ''x86_64''\<rparr>"

definition demo_file_bytes :: "demo_fs \<Rightarrow> string \<Rightarrow> u8 list option" where
  "demo_file_bytes h p = (case demo_follow h p of Some (Hfile _ b) \<Rightarrow> Some b | _ \<Rightarrow> None)"

definition demo_rename :: "string \<Rightarrow> string \<Rightarrow> u32 \<Rightarrow> demo_fs \<Rightarrow> errno option \<times> demo_fs" where
  "demo_rename p q f h =
     (case map_of h p of None \<Rightarrow> (Some ENOENT, h) | Some n \<Rightarrow> (None, AList.update q n (AList.delete p h)))"

definition demo_create :: "string \<Rightarrow> bool \<Rightarrow> u32 \<Rightarrow> demo_fs \<Rightarrow> errno option \<times> demo_fs" where
  "demo_create p excl m h =
     (if map_of h p \<noteq> None then (if excl then Some EEXIST else None, h) else (None, AList.update p (Hfile m []) h))"

definition demo_backend :: "(demo_fs, string, regions) backend" where
  "demo_backend =
     \<lparr>be_host = demo_host,
      be_access = (\<lambda>h p m. case h_stat demo_host h p of Inl e \<Rightarrow> Some e | Inr _ \<Rightarrow> None),
      be_mem = \<lparr>copy_in = mm_read, copy_out = mm_write\<rparr>, be_arch = X86_64, be_depth = 20,
      be_ids = Some \<lparr>id_pid = 5, id_tid = 5, id_ppid = 1\<rparr>, be_groups = False, be_exe_of_pid = None,
      be_cwd_of_pid = None, be_host_tid = None, be_host_tid_of = None, be_stat_host_path = None,
      be_host_maps = None, be_machine = demo_machine, be_uptime = 100, be_mem_available = 0x40000000,
      be_getaffinity = (\<lambda>_. Inl ESRCH), be_getuid = 0, be_file = demo_file_bytes, be_open_ro = (\<lambda>h p. demo_file_bytes h p \<noteq> None),
      be_chmod = (\<lambda>p m h. (if map_of h p = None then Some ENOENT else None, h)),
      be_unlink = (\<lambda>p h. if map_of h p = None then (Some ENOENT, h) else (None, AList.delete p h)),
      be_rename = demo_rename, be_create = demo_create, be_link = (\<lambda>a b h. (None, h)),
      be_errno = (\<lambda>_. ENOSPC), be_host_machine = 62, be_socket_ns = Ns_filesystem, be_instance = 1,
      be_force_link_emulation = False, be_pacman_overwrite = False\<rparr>"

definition demo_kst :: "regions \<Rightarrow> (demo_fs, regions) kst" where
  "demo_kst m =
     \<lparr>ks_files = \<lparr>fn_mounts = link_mounts, fn_ns = link_ns, fn_links = lt_empty_table None, fn_host_cwd = ''/'',
        fn_attached = True, fn_is_root = True\<rparr>,
      ks_ps = set_current_pid 5 1 ps_init, ks_procs = pt_init, ks_mem = m, ks_self = 1, ks_guest_mounts = [],
      ks_fg_pgrp = [], ks_pending = \<lparr>pd_open = [], pd_flags = 0, pd_dir = False, pd_lazy = [], pd_entries = []\<rparr>,
      ks_socks = [], ks_links_work = []\<rparr>"

definition demo_regs :: "u64 list \<Rightarrow> regs" where
  "demo_regs xs = \<lparr>reg_arg = xs, reg_nr = 0\<rparr>"

lemmas demo_simps = demo_backend_def demo_kst_def demo_regs_def

end
