(* ===== verification/Lx_Tasks.thy ===== *)
theory Lx_Tasks
  imports Lx_PathArg
begin

text \<open>
  The calls of \<open>abi/syscall.hpp\<close> about tasks: identity (\<open>abi/identity.hpp\<close>), signals, process groups
  and sessions, supplementary groups, the terminal (\<open>do_ioctl\<close>, with \<open>vfs/pty_names.hpp\<close> as on
  Linux), and what describes the machine.  The lemmas show that a group signal reaches exactly the
  members of the group, that group and terminal calls agree with each other, and that what one
  call stores another returns.
\<close>

unbundle bit_operations_syntax

section \<open>Small guest-memory accesses\<close>

definition put_u64 :: "('h, 'd, 'm) backend \<Rightarrow> u64 \<Rightarrow> u64 \<Rightarrow> ('h, 'm) kst \<Rightarrow> ('h, 'm) kst option" where
  "put_u64 E a v k = map_option (\<lambda>m. k\<lparr>ks_mem := m\<rparr>) (copy_out (be_mem E) a (put_le 8 v) (ks_mem k))"

definition put_u32 :: "('h, 'd, 'm) backend \<Rightarrow> u64 \<Rightarrow> u32 \<Rightarrow> ('h, 'm) kst \<Rightarrow> ('h, 'm) kst option" where
  "put_u32 E a v k = map_option (\<lambda>m. k\<lparr>ks_mem := m\<rparr>) (copy_out (be_mem E) a (put_le 4 v) (ks_mem k))"

definition put_u16 :: "('h, 'd, 'm) backend \<Rightarrow> u64 \<Rightarrow> u16 \<Rightarrow> ('h, 'm) kst \<Rightarrow> ('h, 'm) kst option" where
  "put_u16 E a v k = map_option (\<lambda>m. k\<lparr>ks_mem := m\<rparr>) (copy_out (be_mem E) a (put_le 2 v) (ks_mem k))"

definition get_u32 :: "('h, 'd, 'm) backend \<Rightarrow> u64 \<Rightarrow> ('h, 'm) kst \<Rightarrow> u32" where
  "get_u32 E a k = (case copy_in (be_mem E) a 4 (ks_mem k) of None \<Rightarrow> 0 | Some b \<Rightarrow> get_le b)"

definition get_u16 :: "('h, 'd, 'm) backend \<Rightarrow> u64 \<Rightarrow> ('h, 'm) kst \<Rightarrow> u16" where
  "get_u16 E a k = (case copy_in (be_mem E) a 2 (ks_mem k) of None \<Rightarrow> 0 | Some b \<Rightarrow> get_le b)"

text \<open>Writing a buffer the handler built: \<open>EFAULT\<close> or the value.\<close>

definition write_out :: "('h, 'd, 'm) backend \<Rightarrow> u64 \<Rightarrow> u8 list \<Rightarrow> int \<Rightarrow> ('h, 'm) kst \<Rightarrow> fate \<times> ('h, 'm) kst" where
  "write_out E a bs v k =
     (case copy_out (be_mem E) a bs (ks_mem k) of
        None \<Rightarrow> (eno EFAULT, k)
      | Some m \<Rightarrow> (val v, k\<lparr>ks_mem := m\<rparr>))"

section \<open>Identity\<close>

definition identity_answer :: "sysno \<Rightarrow> ids \<Rightarrow> int option" where
  "identity_answer sc me =
     (if sc = SYS_getpid then Some (id_pid me)
      else if sc = SYS_gettid then Some (id_tid me)
      else if sc = SYS_getppid then Some (id_ppid me)
      else if sc \<in> {SYS_getuid, SYS_geteuid, SYS_getgid, SYS_getegid} then Some 0
      else None)"

definition do_identity :: "('h, 'd, 'm) backend \<Rightarrow> sysno \<Rightarrow> ('h, 'm) kst \<Rightarrow> fate" where
  "do_identity E sc k = (case identity_answer sc (ids_of E k) of Some a \<Rightarrow> val a | None \<Rightarrow> fwd)"

definition do_getres :: "('h, 'd, 'm) backend \<Rightarrow> regs \<Rightarrow> ('h, 'm) kst \<Rightarrow> fate \<times> ('h, 'm) kst" where
  "do_getres E r k =
     (if arg r 0 = 0 \<or> arg r 1 = 0 \<or> arg r 2 = 0 then (eno EFAULT, k)
      else case put_u32 E (arg r 0) 0 k of
             None \<Rightarrow> (eno EFAULT, k)
           | Some k \<Rightarrow>
               (case put_u32 E (arg r 1) 0 k of
                  None \<Rightarrow> (eno EFAULT, k)
                | Some k \<Rightarrow>
                    (case put_u32 E (arg r 2) 0 k of
                       None \<Rightarrow> (eno EFAULT, k)
                     | Some k \<Rightarrow> (val 0, k))))"

section \<open>Groups, sessions, signals\<close>

definition flat_pid_exists :: "('h, 'd, 'm) backend \<Rightarrow> u64 \<Rightarrow> ('h, 'm) kst \<Rightarrow> bool option" where
  "flat_pid_exists E pid k =
     (let p = sint (ucast pid :: u32)
      in if pid = 0 then Some True
         else if p < 0 then Some False
         else if p = id_pid (ids_of E k) then Some True
         else pt_has (be_depth E) (ks_procs k) p)"

definition flat_pgrp :: "('h, 'd, 'm) backend \<Rightarrow> ('h, 'm) kst \<Rightarrow> int option" where
  "flat_pgrp E k = pgid_of (be_depth E) (ks_procs k) (id_pid (ids_of E k))"

definition do_kill :: "('h, 'd, 'm) backend \<Rightarrow> regs \<Rightarrow> ('h, 'm) kst \<Rightarrow> ('h, 'm) handled" where
  "do_kill E r k =
     (let pid = int_arg r 0; signum = int_arg r 1
      in if \<not> be_groups E \<and> (pid = 0 \<or> pid < - 1) then do {
           g \<leftarrow> (if pid = 0 then flat_pgrp E k else Some (sint (- (of_int pid :: u32))));
           let ms = members_of (be_depth E) (ks_procs k) g;
           Some (if ms = [] then eno ESRCH else raise_group pid signum ms, k)
         }
         else Some (raise_at pid signum, k))"

definition do_tkill :: "regs \<Rightarrow> fate" where
  "do_tkill r = (if int_arg r 0 \<le> 0 then eno EINVAL else raise_at (int_arg r 0) (int_arg r 1))"

definition do_tgkill :: "regs \<Rightarrow> fate" where
  "do_tgkill r =
     (if int_arg r 0 \<le> 0 \<or> int_arg r 1 \<le> 0 then eno EINVAL else raise_at (int_arg r 1) (int_arg r 2))"

definition do_getpgrp :: "('h, 'd, 'm) backend \<Rightarrow> ('h, 'm) kst \<Rightarrow> ('h, 'm) handled" where
  "do_getpgrp E k = (if be_groups E then Some (fwd, k) else do { g \<leftarrow> flat_pgrp E k; Some (val g, k) })"

definition do_getpgid :: "('h, 'd, 'm) backend \<Rightarrow> regs \<Rightarrow> ('h, 'm) kst \<Rightarrow> ('h, 'm) handled" where
  "do_getpgid E r k =
     (if be_groups E then Some (fwd, k)
      else do {
        there \<leftarrow> flat_pid_exists E (arg r 0) k;
        if \<not> there then Some (eno ESRCH, k)
        else do {
          g \<leftarrow> (if arg r 0 \<noteq> 0 then pgid_of (be_depth E) (ks_procs k) (int_arg r 0) else flat_pgrp E k);
          Some (val g, k)
        }
      })"

definition do_getsid :: "('h, 'd, 'm) backend \<Rightarrow> regs \<Rightarrow> ('h, 'm) kst \<Rightarrow> ('h, 'm) handled" where
  "do_getsid E r k =
     (if be_groups E then Some (fwd, k)
      else do {
        there \<leftarrow> flat_pid_exists E (arg r 0) k;
        if \<not> there then Some (eno ESRCH, k)
        else do {
          s \<leftarrow> sid_of (be_depth E) (ks_procs k) (if arg r 0 \<noteq> 0 then int_arg r 0 else id_pid (ids_of E k));
          Some (val s, k)
        }
      })"

definition do_setpgid :: "('h, 'd, 'm) backend \<Rightarrow> regs \<Rightarrow> ('h, 'm) kst \<Rightarrow> ('h, 'm) handled" where
  "do_setpgid E r k =
     (if be_groups E then Some (fwd, k)
      else do {
        there \<leftarrow> flat_pid_exists E (arg r 0) k;
        if \<not> there then Some (eno ESRCH, k)
        else let who = int_arg r 0;
                 target = (if who \<noteq> 0 then who else id_pid (ids_of E k));
                 grp = int_arg r 1
             in Some (val 0, k\<lparr>ks_procs := set_pgid target (if grp \<noteq> 0 then grp else target) (ks_procs k)\<rparr>)
      })"

definition do_setsid :: "('h, 'd, 'm) backend \<Rightarrow> ('h, 'm) kst \<Rightarrow> ('h, 'm) handled" where
  "do_setsid E k =
     (if be_groups E then Some (fwd, k)
      else let me = id_pid (ids_of E k)
           in do {
                g \<leftarrow> pgid_of (be_depth E) (ks_procs k) me;
                if g = me then Some (eno EPERM, k)
                else Some (mirrored me, k\<lparr>ks_procs := set_sid me (ks_procs k)\<rparr>)
              })"

definition do_priority :: "regs \<Rightarrow> fate" where
  "do_priority r = (if arg r 0 > 2 then eno EINVAL else val 0)"

section \<open>Supplementary groups\<close>

text \<open>An array of \<open>std::uint32_t\<close> in memory.\<close>

fun words_of :: "u8 list \<Rightarrow> u32 list" where
  "words_of (a # b # c # d # bs) = get_le [a, b, c, d] # words_of bs"
| "words_of _ = []"

definition bytes_of :: "u32 list \<Rightarrow> u8 list" where
  "bytes_of ws = concat (map (put_le 4) ws)"

definition do_setgroups :: "('h, 'd, 'm) backend \<Rightarrow> regs \<Rightarrow> ('h, 'm) kst \<Rightarrow> fate \<times> ('h, 'm) kst" where
  "do_setgroups E r k =
     (let n = unat (arg r 0); me = id_pid (ids_of E k)
      in if n > 65536 then (eno EINVAL, k)
         else if n = 0 then (val 0, k\<lparr>ks_procs := set_groups me [] (ks_procs k)\<rparr>)
         else case copy_in (be_mem E) (arg r 1) (4 * n) (ks_mem k) of
                None \<Rightarrow> (eno EFAULT, k)
              | Some bs \<Rightarrow> (val 0, k\<lparr>ks_procs := set_groups me (words_of bs) (ks_procs k)\<rparr>))"

definition do_getgroups :: "('h, 'd, 'm) backend \<Rightarrow> regs \<Rightarrow> ('h, 'm) kst \<Rightarrow> ('h, 'm) handled" where
  "do_getgroups E r k = do {
     g \<leftarrow> groups_of (be_depth E) (ks_procs k) (id_pid (ids_of E k));
     let size = int_arg r 0;
     Some (if size < 0 then (eno EINVAL, k)
           else if size = 0 then (val (int (length g)), k)
           else if size < int (length g) then (eno EINVAL, k)
           else if g = [] then (val 0, k)
           else write_out E (arg r 1) (bytes_of g) (int (length g)) k)
   }"

section \<open>The terminal\<close>

definition all_digits :: "string \<Rightarrow> bool" where
  "all_digits n \<longleftrightarrow> n \<noteq> [] \<and> list_all (is_digit 10) n"

text \<open>\<open>std::atoi\<close>: \<open>strtol\<close>, which stops at the largest \<open>long\<close>, cut to an \<open>int\<close>.\<close>

definition c_atoi :: "string \<Rightarrow> int" where
  "c_atoi n = sint (of_int (min (int (read_digits 10 n)) (2 ^ 63 - 1)) :: u32)"

definition pty_slave_of_fd :: "int \<Rightarrow> ('h, 'm) kst \<Rightarrow> int \<times> ('h, 'm) kst" where
  "pty_slave_of_fd fd k =
     (let (gp, k) = k_path_of_fd fd k; n = drop 9 gp
      in (if \<not> starts_with gp ''/dev/pts/'' then - 1
          else if \<not> all_digits n then - 1
          else c_atoi n, k))"

definition pty_slave_number :: "string \<Rightarrow> int" where
  "pty_slave_number host_path =
     (let n = drop 9 host_path
      in if \<not> starts_with host_path ''/dev/pts/'' then - 1
         else if \<not> all_digits n then - 1
         else atoi_from n 0)"

definition host_fd_slave_no :: "('h, 'd, 'm) backend \<Rightarrow> int \<Rightarrow> ('h, 'm) kst \<Rightarrow> int" where
  "host_fd_slave_no E fd k =
     (case be_host_tid E of
        None \<Rightarrow> - 1
      | Some tid \<Rightarrow>
          (case h_readlink (be_host E) (ks_host k) (''/proc/'' @ show_int tid @ ''/fd/'' @ show_int fd) of
             Inl _ \<Rightarrow> - 1
           | Inr tgt \<Rightarrow> if tgt = [] then - 1 else pty_slave_number (take 127 tgt)))"

definition fd_is_our_ctty :: "('h, 'd, 'm) backend \<Rightarrow> int \<Rightarrow> ('h, 'm) kst \<Rightarrow> (bool \<times> ('h, 'm) kst) option" where
  "fd_is_our_ctty E fd k = do {
     have \<leftarrow> ctty_of (be_depth E) (ks_procs k) (id_pid (ids_of E k));
     let (n, k) = pty_slave_of_fd fd k;
     Some (if n \<ge> 0 then have = n else have \<ge> 0 \<and> host_fd_slave_no E fd k = have, k)
   }"

definition ctty_refusal :: "('h, 'd, 'm) backend \<Rightarrow> regs \<Rightarrow> ('h, 'm) kst \<Rightarrow> fate \<times> ('h, 'm) kst" where
  "ctty_refusal E r k =
     (let (n, k) = pty_slave_of_fd (int_arg r 0) k
      in (if n \<ge> 0 \<or> host_fd_slave_no E (int_arg r 0) k \<ge> 0 then fwd else eno ENOTTY, k))"

abbreviation (input) TIOCSCTTY :: u64 where "TIOCSCTTY \<equiv> 0x540E"
abbreviation (input) TIOCNOTTY :: u64 where "TIOCNOTTY \<equiv> 0x5422"
abbreviation (input) TIOCGPGRP :: u64 where "TIOCGPGRP \<equiv> 0x540F"
abbreviation (input) TIOCSPGRP :: u64 where "TIOCSPGRP \<equiv> 0x5410"
abbreviation (input) TIOCGSID :: u64 where "TIOCGSID \<equiv> 0x5429"

definition classic_termios :: "u64 \<Rightarrow> u64" where
  "classic_termios request =
     (if request = 0x802c542a then 0x5401
      else if request = 0x402c542b then 0x5402
      else if request = 0x402c542c then 0x5403
      else if request = 0x402c542d then 0x5404
      else 0)"

definition tty_claim :: "('h, 'd, 'm) backend \<Rightarrow> regs \<Rightarrow> ('h, 'm) kst \<Rightarrow> ('h, 'm) handled" where
  "tty_claim E r k =
     (let (n0, k) = pty_slave_of_fd (int_arg r 0) k;
          n = (if n0 < 0 then host_fd_slave_no E (int_arg r 0) k else n0);
          me = id_pid (ids_of E k)
      in if n < 0 then Some (eno ENOTTY, k)
         else do {
           sid \<leftarrow> sid_of (be_depth E) (ks_procs k) me;
           if sid \<noteq> me then Some (eno EPERM, k)
           else do {
             have \<leftarrow> ctty_of (be_depth E) (ks_procs k) me;
             if have \<ge> 0 \<and> have \<noteq> n \<and> arg r 2 \<noteq> 1 then Some (eno EPERM, k)
             else do {
               procs \<leftarrow> set_ctty (be_depth E) me n (ks_procs k);
               Some (mirrored 0, k\<lparr>ks_procs := procs, ks_fg_pgrp := AList.delete n (ks_fg_pgrp k)\<rparr>)
             }
           }
         })"

definition tty_give_up :: "('h, 'd, 'm) backend \<Rightarrow> regs \<Rightarrow> ('h, 'm) kst \<Rightarrow> ('h, 'm) handled" where
  "tty_give_up E r k =
     (let me = id_pid (ids_of E k)
      in do {
           have \<leftarrow> ctty_of (be_depth E) (ks_procs k) me;
           Some (if have < 0 then ctty_refusal E r k
                 else (mirrored 0, k\<lparr>ks_procs := clear_ctty (be_depth E) me (ks_procs k)\<rparr>))
         })"

definition tty_get_fg :: "('h, 'd, 'm) backend \<Rightarrow> regs \<Rightarrow> ('h, 'm) kst \<Rightarrow> ('h, 'm) handled" where
  "tty_get_fg E r k = do {
     (ours, k) \<leftarrow> fd_is_our_ctty E (int_arg r 0) k;
     if \<not> ours then Some (ctty_refusal E r k)
     else do {
       tty \<leftarrow> ctty_of (be_depth E) (ks_procs k) (id_pid (ids_of E k));
       fg \<leftarrow> (case map_of (ks_fg_pgrp k) tty of Some g \<Rightarrow> Some g | None \<Rightarrow> flat_pgrp E k);
       Some (case put_u32 E (arg r 2) (of_int fg) k of None \<Rightarrow> (eno EFAULT, k) | Some k \<Rightarrow> (val 0, k))
     }
   }"

definition tty_get_sid :: "('h, 'd, 'm) backend \<Rightarrow> regs \<Rightarrow> ('h, 'm) kst \<Rightarrow> ('h, 'm) handled" where
  "tty_get_sid E r k = do {
     (ours, k) \<leftarrow> fd_is_our_ctty E (int_arg r 0) k;
     if \<not> ours then Some (ctty_refusal E r k)
     else do {
       sid \<leftarrow> sid_of (be_depth E) (ks_procs k) (id_pid (ids_of E k));
       Some (case put_u32 E (arg r 2) (of_int sid) k of None \<Rightarrow> (eno EFAULT, k) | Some k \<Rightarrow> (val 0, k))
     }
   }"

definition fg_recorded :: "u32 \<Rightarrow> int \<Rightarrow> ('h, 'm) kst \<Rightarrow> ('h, 'm) kst" where
  "fg_recorded want tty k =
     (if want = of_int kInheritedPgid then k\<lparr>ks_fg_pgrp := AList.delete tty (ks_fg_pgrp k)\<rparr>
      else if want \<noteq> 0 then k\<lparr>ks_fg_pgrp := AList.update tty (sint want) (ks_fg_pgrp k)\<rparr>
      else k)"

definition tty_set_fg :: "('h, 'd, 'm) backend \<Rightarrow> regs \<Rightarrow> ('h, 'm) kst \<Rightarrow> ('h, 'm) handled" where
  "tty_set_fg E r k = do {
     (ours, k) \<leftarrow> fd_is_our_ctty E (int_arg r 0) k;
     if \<not> ours then Some (ctty_refusal E r k)
     else do {
       let want = get_u32 E (arg r 2) k;
       tty \<leftarrow> ctty_of (be_depth E) (ks_procs k) (id_pid (ids_of E k));
       Some (val 0, fg_recorded want tty k)
     }
   }"

definition do_ioctl :: "('h, 'd, 'm) backend \<Rightarrow> regs \<Rightarrow> ('h, 'm) kst \<Rightarrow> ('h, 'm) handled" where
  "do_ioctl E r k =
     (let request = arg r 1 AND 0xffffffff;
          classic = classic_termios request
      in if classic \<noteq> 0 then
           Some (ArgRewrite 1 classic (if request = 0x802c542a then Termios_to_termios2 else Convert_none) (arg r 2), k)
         else if be_groups E \<and> request \<in> {TIOCGPGRP, TIOCSPGRP, TIOCGSID} then Some (fwd, k)
         else if request = TIOCSCTTY then tty_claim E r k
         else if request = TIOCNOTTY then tty_give_up E r k
         else if request = TIOCGPGRP then tty_get_fg E r k
         else if request = TIOCGSID then tty_get_sid E r k
         else if request = TIOCSPGRP then tty_set_fg E r k
         else Some (fwd, k))"

section \<open>The machine\<close>

definition mem_free :: "('h, 'd, 'm) backend \<Rightarrow> u64" where
  "mem_free E = be_mem_available E * 2 div 3"

definition mem_buffers :: "machine \<Rightarrow> u64" where
  "mem_buffers m = mc_mem_total m div 128"

definition do_sysinfo :: "('h, 'd, 'm) backend \<Rightarrow> u64 \<Rightarrow> ('h, 'm) kst \<Rightarrow> fate \<times> ('h, 'm) kst" where
  "do_sysinfo E buf k =
     (let m = be_machine E;
          z = (0 :: u64);
          procs = (of_nat (pt_count (ks_procs k)) :: u16);
          si = put_le 8 (be_uptime E) @ put_le 8 z @ put_le 8 z @ put_le 8 z @
               put_le 8 (mc_mem_total m) @ put_le 8 (mem_free E) @ put_le 8 z @ put_le 8 (mem_buffers m) @
               put_le 8 (mc_swap_total m) @ put_le 8 (mc_swap_total m) @
               put_le 2 procs @ replicate 6 0 @ put_le 8 z @ put_le 8 z @
               put_le 4 (1 :: u32) @ put_le 4 (0 :: u32)
      in write_out E buf si 0 k)"

text \<open>The mask whose bits are the CPUs below \<open>ncpu\<close> that satisfy \<open>on\<close>.\<close>

definition cpu_mask :: "nat \<Rightarrow> nat \<Rightarrow> (nat \<Rightarrow> bool) \<Rightarrow> u8 list" where
  "cpu_mask bytes ncpu on =
     map (\<lambda>i. foldl (\<lambda>b j. if 8 * i + j < ncpu \<and> on (8 * i + j) then b OR push_bit j 1 else b) 0 [0..<8])
       [0..<bytes]"

definition affinity_bytes :: "int \<Rightarrow> nat" where
  "affinity_bytes ncpu =
     (let bytes = unat ((of_int ncpu + 63) div 64 * 8 :: u64) in if bytes < 8 then 8 else bytes)"

definition do_sched_getaffinity :: "('h, 'd, 'm) backend \<Rightarrow> regs \<Rightarrow> ('h, 'm) kst \<Rightarrow> fate \<times> ('h, 'm) kst" where
  "do_sched_getaffinity E r k =
     (let cap = unat (arg r 1); ncpu = nat (mc_ncpu (be_machine E)); bytes = affinity_bytes (mc_ncpu (be_machine E));
          every = cpu_mask bytes ncpu (\<lambda>_. True)
      in if cap < bytes \<or> cap mod 8 \<noteq> 0 then (eno EINVAL, k)
         else case (be_host_tid E, be_host_tid_of E) of
                (Some tid, Some tid_of) \<Rightarrow>
                  (let pid = int_arg r 0; host = (if pid = 0 then tid else tid_of pid)
                   in if pid < 0 \<or> host \<le> 0 then (eno ESRCH, k)
                      else case be_getaffinity E host of
                             Inr real \<Rightarrow>
                               if list_ex real [0..<min ncpu 1024]
                               then write_out E (arg r 2) (cpu_mask bytes (min ncpu 1024) real) (int bytes) k
                               else write_out E (arg r 2) every (int bytes) k
                           | Inl e \<Rightarrow>
                               if e = ESRCH then (eno ESRCH, k)
                               else write_out E (arg r 2) every (int bytes) k)
              | _ \<Rightarrow> write_out E (arg r 2) every (int bytes) k)"

text \<open>One field of \<open>struct utsname\<close>: at most 64 characters and the terminator, in 65 bytes.\<close>

definition uts_field :: "string \<Rightarrow> u8 list" where
  "uts_field s = (let cs = take 64 (takeWhile (\<lambda>c. c \<noteq> CHR 0x00) s)
                  in map of_char cs @ replicate (65 - length cs) 0)"

definition do_uname :: "('h, 'd, 'm) backend \<Rightarrow> u64 \<Rightarrow> ('h, 'm) kst \<Rightarrow> fate \<times> ('h, 'm) kst" where
  "do_uname E buf k =
     (let m = be_machine E
      in write_out E buf
           (uts_field ''Linux'' @ uts_field (mc_nodename m) @ uts_field (mc_release m) @
            uts_field ''#1 linuxity portable Linux ABI'' @ uts_field (mc_machine_arch m) @ uts_field ''(none)'') 0 k)"

definition do_prctl :: "('h, 'd, 'm) backend \<Rightarrow> regs \<Rightarrow> ('h, 'm) kst \<Rightarrow> fate \<times> ('h, 'm) kst" where
  "do_prctl E r k =
     (let op = int_arg r 0
      in if op = 4 then (val 0, k)
         else if op = 15 then
           (case copy_in (be_mem E) (arg r 1) 16 (ks_mem k) of
              None \<Rightarrow> (fwd, k)
            | Some raw \<Rightarrow>
                let nm = map (\<lambda>b. char_of (unat b)) (takeWhile (\<lambda>b. b \<noteq> 0) raw)
                in (fwd, if nm \<noteq> [] then k\<lparr>ks_procs := set_comm (id_pid (ids_of E k)) nm (ks_procs k)\<rparr> else k))
         else (fwd, k))"

section \<open>Groups\<close>

lemma int_arg_ne_0: "int_arg r i \<noteq> 0 \<Longrightarrow> arg r i \<noteq> 0"
  by (auto simp: int_arg_def)

lemma set_pgid_recorded:
  "0 < pid \<Longrightarrow> 2 \<le> n \<Longrightarrow> pgid_of n (set_pgid pid g t) pid = Some (if g \<noteq> 0 then g else pid)"
  by (auto simp: set_pgid_def intro!: pgid_recorded [THEN trans])

lemma set_pgid_has: "0 < n \<Longrightarrow> pt_has n (set_pgid pid g t) pid = Some True"
proof -
  assume "0 < n"
  then obtain m where "n = Suc m" by (auto simp: gr0_conv_Suc)
  then show ?thesis using find_known [of "set_pgid pid g t" pid _ m] by (fastforce simp: pt_has_def set_pgid_def)
qed

lemma recorded_listed: "map_of (pt_procs t) pid = Some p \<Longrightarrow> pid \<in> set (pt_pids t)"
  by (drule map_of_SomeD) (force simp: pt_pids_def split: option.split)

lemma set_pgid_listed: "pid \<in> set (pt_pids (set_pgid pid g t))"
  by (rule recorded_listed) (simp add: set_pgid_def)

lemma set_pgid_live [simp]: "pt_live (set_pgid pid g t) = pt_live t"
  by (simp add: set_pgid_def)

lemma sint_u32_pos: "0 < x \<Longrightarrow> x < 2 ^ 31 \<Longrightarrow> sint (of_int x :: u32) = x"
  by (simp add: sint_sbintrunc' signed_take_bit_int_eq_self)

definition alive_in :: "proc_table \<Rightarrow> int \<Rightarrow> bool" where
  "alive_in t pid \<longleftrightarrow> (case pt_live t of Some l \<Rightarrow> ls_alive l pid | None \<Rightarrow> True)"

lemma members_of_iff:
  "p \<in> set (members_of n t g) \<longleftrightarrow> p \<in> set (pt_pids t) \<and> alive_in t p \<and> pgid_of n t p = Some g"
  by (auto simp: members_of_def alive_in_def split: option.splits)

lemma kill_group:
  assumes "\<not> be_groups E" "int_arg s 0 = - g" "1 < g" "g < 2 ^ 31"
  shows "do_kill E s k =
    (let ms = members_of (be_depth E) (ks_procs k) g
     in Some (if ms = [] then eno ESRCH else raise_group (- g) (int_arg s 1) ms, k))"
  using assms sint_u32_pos [of g] by (simp add: do_kill_def Let_def)

text \<open>C35: Process-group calls agree.  After a successful \<open>setpgid\<close> of a positive target, \<open>getpgid\<close>
  of the target returns the group that was set (the target's own number for 0); a signal sent to
  that group is raised for a list of live tasks that contains the target and nobody outside the
  group; and a task that made itself a leader is refused a new session with \<open>EPERM\<close>.\<close>

theorem group_calls_agree:
  assumes "\<not> be_groups E" and "2 \<le> be_depth E"
    and "do_setpgid E r k = Some (val 0, k')"
    and "target = (if int_arg r 0 \<noteq> 0 then int_arg r 0 else id_pid (ids_of E k))" and "0 < target"
    and "g = (if int_arg r 1 \<noteq> 0 then int_arg r 1 else target)"
  shows "(\<forall>q. int_arg q 0 = target \<longrightarrow> do_getpgid E q k' = Some (val g, k'))
    \<and> (\<forall>s. int_arg s 0 = - g \<and> 1 < g \<and> g < 2 ^ 31 \<and> alive_in (ks_procs k) target \<longrightarrow>
         (\<exists>ms. do_kill E s k' = Some (raise_group (- g) (int_arg s 1) ms, k') \<and> target \<in> set ms
            \<and> (\<forall>p\<in>set ms. alive_in (ks_procs k) p \<and> pgid_of (be_depth E) (ks_procs k') p = Some g)))
    \<and> (target = id_pid (ids_of E k) \<and> g = target \<longrightarrow> do_setsid E k' = Some (eno EPERM, k'))"
proof -
  have k': "k' = k\<lparr>ks_procs := set_pgid target g (ks_procs k)\<rparr>"
    using assms(1,3,4,6) by (auto simp: do_setpgid_def bind_eq_Some_conv Let_def outcome_defs split: if_splits)
  have ids: "ids_of E k' = ids_of E k" by (simp add: k' ids_of_def split: option.split)
  have g: "pgid_of (be_depth E) (ks_procs k') target = Some g"
    using set_pgid_recorded [OF assms(5,2), of g "ks_procs k"] assms(5,6) by (auto simp: k')
  have has: "pt_has (be_depth E) (ks_procs k') target = Some True"
    using set_pgid_has [of "be_depth E" target g "ks_procs k"] assms(2) by (simp add: k')
  have mem: "target \<in> set (members_of (be_depth E) (ks_procs k') g)" if "alive_in (ks_procs k) target"
    using that g set_pgid_listed [of target g "ks_procs k"] by (simp add: members_of_iff k' alive_in_def)
  have "do_getpgid E q k' = Some (val g, k')" if "int_arg q 0 = target" for q
    using that assms(1,5) g has int_arg_ne_0 [of q 0]
    by (auto simp: do_getpgid_def flat_pid_exists_def int_arg_def)
  moreover have "\<exists>ms. do_kill E s k' = Some (raise_group (- g) (int_arg s 1) ms, k') \<and> target \<in> set ms
      \<and> (\<forall>p\<in>set ms. alive_in (ks_procs k) p \<and> pgid_of (be_depth E) (ks_procs k') p = Some g)"
    if "int_arg s 0 = - g \<and> 1 < g \<and> g < 2 ^ 31 \<and> alive_in (ks_procs k) target" for s
  proof -
    let ?ms = "members_of (be_depth E) (ks_procs k') g"
    have "target \<in> set ?ms" using that mem by blast
    moreover have "do_kill E s k' = Some (raise_group (- g) (int_arg s 1) ?ms, k')"
      using that calculation kill_group [OF assms(1), of s g k'] by (auto simp: Let_def)
    moreover have "alive_in (ks_procs k) p \<and> pgid_of (be_depth E) (ks_procs k') p = Some g" if "p \<in> set ?ms" for p
      using that by (simp add: members_of_iff alive_in_def k')
    ultimately show ?thesis by blast
  qed
  moreover have "do_setsid E k' = Some (eno EPERM, k')" if "target = id_pid (ids_of E k) \<and> g = target"
    using that g assms(1) by (simp add: do_setsid_def ids)
  ultimately show ?thesis by blast
qed

theorem group_calls_agree_witness:
  "\<exists>k'. do_setpgid demo_backend (demo_regs [0, 0]) (demo_kst []) = Some (val 0, k')
     \<and> do_getpgid demo_backend (demo_regs [5]) k' = Some (val 5, k')
     \<and> (\<exists>ms. do_kill demo_backend (demo_regs [0xFFFFFFFB, 15]) k' = Some (raise_group (- 5) 15 ms, k') \<and> 5 \<in> set ms)
     \<and> do_setsid demo_backend k' = Some (eno EPERM, k')"
proof -
  have E: "\<not> be_groups demo_backend" "2 \<le> be_depth demo_backend" "id_pid (ids_of demo_backend (demo_kst [])) = 5"
    by (simp_all add: demo_simps ids_of_def)
  have i: "int_arg (demo_regs [0, 0]) 0 = 0" "int_arg (demo_regs [0, 0]) 1 = 0" "int_arg (demo_regs [5]) 0 = 5"
    "int_arg (demo_regs [0xFFFFFFFB, 15]) 0 = - 5" "int_arg (demo_regs [0xFFFFFFFB, 15]) 1 = 15"
    by (simp_all add: int_arg_def demo_regs_def)
  obtain k' where k': "do_setpgid demo_backend (demo_regs [0, 0]) (demo_kst []) = Some (val 0, k')"
    using E i by (simp add: do_setpgid_def flat_pid_exists_def demo_regs_def)
  have "alive_in (ks_procs (demo_kst [])) 5" by (simp add: alive_in_def demo_kst_def pt_init_def)
  with group_calls_agree [OF E(1,2) k', of 5 5] k' E i show ?thesis by fastforce
qed

section \<open>The foreground group\<close>

lemma refusal_not_val: "ctty_refusal E r k \<noteq> (val v, k')" if "0 \<le> v"
  using that by (auto simp: ctty_refusal_def outcome_defs split_def Let_def)

definition same_tables :: "('h, 'm) kst \<Rightarrow> ('h, 'm) kst \<Rightarrow> bool" where
  "same_tables k k' \<longleftrightarrow> ks_procs k' = ks_procs k \<and> ks_fg_pgrp k' = ks_fg_pgrp k \<and> ks_mem k' = ks_mem k
     \<and> ks_self k' = ks_self k"

lemma pty_slave_of_fd_state: "snd (pty_slave_of_fd fd k) = k\<lparr>ks_ps := snd (path_of_fd fd (ks_ps k))\<rparr>"
  by (simp add: pty_slave_of_fd_def k_path_of_fd_def split_def Let_def)

lemma ours_frame:
  assumes "fd_is_our_ctty E fd k = Some (b, k')"
  shows "same_tables k k'"
proof -
  have "k' = snd (pty_slave_of_fd fd k)"
    using assms by (auto simp: fd_is_our_ctty_def bind_eq_Some_conv split_def Let_def)
  then show ?thesis by (simp add: pty_slave_of_fd_state same_tables_def)
qed

lemma set_fg_cases:
  assumes "tty_set_fg E r k = Some (val 0, k')"
  shows "\<exists>k0 tty. fd_is_our_ctty E (int_arg r 0) k = Some (True, k0)
    \<and> ctty_of (be_depth E) (ks_procs k0) (id_pid (ids_of E k0)) = Some tty
    \<and> k' = fg_recorded (get_u32 E (arg r 2) k0) tty k0"
proof -
  from assms obtain ours k0 where o: "fd_is_our_ctty E (int_arg r 0) k = Some (ours, k0)"
    by (auto simp: tty_set_fg_def bind_eq_Some_conv)
  have ours
  proof (rule ccontr)
    assume "\<not> ours"
    with assms o have "ctty_refusal E r k0 = (val 0, k')" by (simp add: tty_set_fg_def)
    then show False using refusal_not_val [of 0 E r k0 k'] by simp
  qed
  with assms o show ?thesis by (auto simp: tty_set_fg_def bind_eq_Some_conv Let_def)
qed

text \<open>C36: The foreground group belongs to the terminal.  When a task hands its terminal to the
  group \<open>w\<close> (not 0, not the inherited group) and \<open>TIOCSPGRP\<close> succeeds, a task whose controlling
  terminal is the same one is told \<open>w\<close> by \<open>TIOCGPGRP\<close>, whoever it is, or gets \<open>EFAULT\<close> for a bad
  pointer; the answer for every other terminal is what it was.\<close>

theorem foreground_group_shared:
  assumes "\<not> be_groups E" and "arg r 1 AND 0xffffffff = TIOCSPGRP" and "do_ioctl E r k = Some (val 0, k1)"
    and "get_u32 E (arg r 2) k = w" and "w \<noteq> 0" and "w \<noteq> of_int kInheritedPgid"
    and "ctty_of (be_depth E) (ks_procs k) (id_pid (ids_of E k)) = Some tty"
    and "E2 = E\<lparr>be_ids := Some other\<rparr>" and "fd_is_our_ctty E2 (int_arg q 0) k1 = Some (True, k2)"
    and "ctty_of (be_depth E) (ks_procs k) (id_pid other) = Some tty" and "arg q 1 AND 0xffffffff = TIOCGPGRP"
  shows "do_ioctl E2 q k1 =
      Some (case copy_out (be_mem E) (arg q 2) (put_le 4 w) (ks_mem k) of
              None \<Rightarrow> (eno EFAULT, k2) | Some m \<Rightarrow> (val 0, k2\<lparr>ks_mem := m\<rparr>))
    \<and> (\<forall>t. t \<noteq> tty \<longrightarrow> map_of (ks_fg_pgrp k1) t = map_of (ks_fg_pgrp k) t)"
proof -
  have "tty_set_fg E r k = Some (val 0, k1)"
    using assms(1-3) by (simp add: do_ioctl_def Let_def classic_termios_def)
  then obtain k0 tty' where k0: "fd_is_our_ctty E (int_arg r 0) k = Some (True, k0)"
    and tty': "ctty_of (be_depth E) (ks_procs k0) (id_pid (ids_of E k0)) = Some tty'"
    and k1': "k1 = fg_recorded (get_u32 E (arg r 2) k0) tty' k0"
    using set_fg_cases by blast
  have "ids_of E k0 = ids_of E k" "get_u32 E (arg r 2) k0 = w" "ks_procs k0 = ks_procs k"
    using ours_frame [OF k0] assms(4) by (simp_all add: same_tables_def ids_of_def get_u32_def split: option.split)
  with tty' k1' assms(5-7) have k1: "k1 = k0\<lparr>ks_fg_pgrp := AList.update tty (sint w) (ks_fg_pgrp k0)\<rparr>"
    by (simp add: fg_recorded_def)
  note f0 = ours_frame [OF k0, unfolded same_tables_def] and f2 = ours_frame [OF assms(9), unfolded same_tables_def]
  have same: "ids_of E2 k2 = other" "be_depth E2 = be_depth E" "be_mem E2 = be_mem E" "be_groups E2 = be_groups E"
    by (simp_all add: assms(8) ids_of_def)
  have "do_ioctl E2 q k1 = tty_get_fg E2 q k1"
    using assms(1,11) by (simp add: do_ioctl_def Let_def classic_termios_def same)
  also have "\<dots> = Some (case put_u32 E2 (arg q 2) (of_int (sint w)) k2 of None \<Rightarrow> (eno EFAULT, k2) | Some k \<Rightarrow> (val 0, k))"
    using assms(9,10) f0 f2 by (simp add: tty_get_fg_def same k1 update_conv')
  finally show ?thesis
    using f0 f2 by (simp add: put_u32_def same k1 update_conv' split: option.split)
qed

text \<open>Tasks 5, a session leader with terminal 0, and its child 6.\<close>

definition demo_session :: proc_table where
  "demo_session =
     \<lparr>pt_procs = [(5, proc_default\<lparr>pi_pid := 5, pi_ppid := 1, pi_pgid := 5, pi_sid := 5, pi_ctty := 0\<rparr>),
                 (6, proc_default\<lparr>pi_pid := 6, pi_ppid := 5, pi_pgid := 6, pi_sid := 5\<rparr>)],
      pt_live = None\<rparr>"

definition demo_tty :: "(demo_fs, regions) kst" where
  "demo_tty = (demo_kst (demo_text [CHR 0x07]))\<lparr>ks_procs := demo_session, ks_ps := bind_fd 0 ''/dev/pts/0'' ps_init\<rparr>"

lemma demo_slave:
  assumes "ks_ps k = bind_fd 0 ''/dev/pts/0'' ps_init"
  shows "pty_slave_of_fd 0 k = (0, k)"
proof -
  have "path_of_fd 0 (bind_fd 0 ''/dev/pts/0'' ps_init) = (''/dev/pts/0'', bind_fd 0 ''/dev/pts/0'' ps_init)"
    "starts_with ''/dev/pts/0'' ''/dev/pts/''" "all_digits ''0''" "c_atoi ''0'' = 0" by code_simp+
  then show ?thesis using assms by (simp add: pty_slave_of_fd_def k_path_of_fd_def)
qed

lemma demo_ctty: "ctty_of 20 demo_session 5 = Some 0" "ctty_of 20 demo_session 6 = Some 0"
  by code_simp+

theorem foreground_group_shared_witness:
  "let E2 = demo_backend\<lparr>be_ids := Some \<lparr>id_pid = 6, id_tid = 6, id_ppid = 5\<rparr>\<rparr>
   in \<exists>k1 k2. do_ioctl demo_backend (demo_regs [0, TIOCSPGRP, 0x1000]) demo_tty = Some (val 0, k1)
        \<and> do_ioctl E2 (demo_regs [0, TIOCGPGRP, 0x2000]) k1 = Some (val 0, k2)"
proof -
  let ?E = demo_backend and ?b = "\<lparr>id_pid = 6, id_tid = 6, id_ppid = 5\<rparr>"
  let ?E2 = "?E\<lparr>be_ids := Some ?b\<rparr>" and ?r = "demo_regs [0, TIOCSPGRP, 0x1000]" and ?q = "demo_regs [0, TIOCGPGRP, 0x2000]"
  have d: "be_depth ?E = 20" "\<not> be_groups ?E" "ids_of ?E k = \<lparr>id_pid = 5, id_tid = 5, id_ppid = 1\<rparr>" "ids_of ?E2 k = ?b" for k
    by (simp_all add: demo_backend_def ids_of_def)
  have r: "arg ?r 1 AND 0xffffffff = TIOCSPGRP" "arg ?q 1 AND 0xffffffff = TIOCGPGRP" "int_arg ?r 0 = 0" "int_arg ?q 0 = 0"
    "arg ?r 2 = 0x1000" "arg ?q 2 = 0x2000" by (simp_all add: demo_regs_def int_arg_def)
  have t: "ks_procs demo_tty = demo_session" "ks_ps demo_tty = bind_fd 0 ''/dev/pts/0'' ps_init"
    "ks_mem demo_tty = demo_text [CHR 0x07]" by (simp_all add: demo_tty_def demo_kst_def)
  have w: "get_u32 ?E (arg ?r 2) demo_tty = 7"
  proof -
    have "mm_read 0x1000 4 (demo_text [CHR 0x07]) = Some [7, 0, 0, 0]" "(get_le [7, 0, 0, 0 :: u8] :: u32) = 7" by code_simp+
    then show ?thesis by (simp add: get_u32_def r t demo_backend_def)
  qed
  let ?k1 = "fg_recorded 7 0 demo_tty"
  have k1: "ks_procs ?k1 = demo_session" "ks_ps ?k1 = bind_fd 0 ''/dev/pts/0'' ps_init"
    by (simp_all add: fg_recorded_def t)
  have ours: "fd_is_our_ctty ?E 0 demo_tty = Some (True, demo_tty)" "fd_is_our_ctty ?E2 0 ?k1 = Some (True, ?k1)"
    using demo_slave [OF t(2)] demo_slave [OF k1(2)] demo_ctty by (simp_all add: fd_is_our_ctty_def d t k1)
  have set: "do_ioctl ?E ?r demo_tty = Some (val 0, ?k1)"
    using d r ours(1) demo_ctty w by (simp add: do_ioctl_def classic_termios_def tty_set_fg_def t)
  have out: "copy_out (be_mem ?E) (arg ?q 2) (put_le 4 (7 :: u32)) (ks_mem demo_tty) \<noteq> None"
  proof -
    have "mm_write 0x2000 (put_le 4 (7 :: u32)) (demo_text [CHR 0x07]) \<noteq> None" by code_simp
    then show ?thesis by (simp add: r t demo_backend_def)
  qed
  have "ctty_of (be_depth ?E) (ks_procs demo_tty) (id_pid (ids_of ?E demo_tty)) = Some 0"
    "ctty_of (be_depth ?E) (ks_procs demo_tty) (id_pid ?b) = Some 0" using demo_ctty by (simp_all add: d t)
  then have "do_ioctl ?E2 ?q ?k1 =
      Some (case copy_out (be_mem ?E) (arg ?q 2) (put_le 4 (7 :: u32)) (ks_mem demo_tty) of
              None \<Rightarrow> (eno EFAULT, ?k1) | Some m \<Rightarrow> (val 0, ?k1\<lparr>ks_mem := m\<rparr>))"
    using foreground_group_shared [OF d(2) r(1) set w _ _ _ refl, of 0 ?b ?q ?k1] ours(2) r by simp
  with set out show ?thesis by auto
qed

section \<open>Supplementary groups\<close>

lemma words_of_append4: "length a = 4 \<Longrightarrow> words_of (a @ bs) = get_le a # words_of bs"
  by (auto simp: length_Suc_conv numeral_eq_Suc)

lemma words_of_bytes_of: "words_of (bytes_of ws) = ws"
  by (induction ws) (simp_all add: bytes_of_def words_of_append4 get_put_le)

lemma bytes_of_words_of: "length bs = 4 * n \<Longrightarrow> bytes_of (words_of bs) = bs \<and> length (words_of bs) = n"
proof (induction n arbitrary: bs)
  case (Suc n)
  then obtain a c where bs: "bs = a @ c" "length a = 4" "length c = 4 * n"
    by (metis (no_types, lifting) append_take_drop_id diff_add_inverse2 length_drop length_take
        mult_Suc_right add.commute le_add1 min.absorb2)
  then show ?case using Suc.IH [of c] put_get_le [where 'a = 32, of a 4]
    by (simp add: words_of_append4 bytes_of_def)
qed (simp add: bytes_of_def)

lemma groups_of_set: "0 < n \<Longrightarrow> groups_of n (set_groups pid g t) pid = Some g"
  by (cases n) (auto simp: groups_of_def set_groups_def pt_find.simps pt_refresh_def Let_def split: option.splits)

text \<open>Supplementary groups round-trip: when \<open>setgroups\<close> succeeds on an array of \<open>n > 0\<close> entries,
  \<open>getgroups\<close> with room for them writes exactly the bytes of that array and returns \<open>n\<close>; with size 0 it
  returns \<open>n\<close> and writes nothing, and with too little room it is \<open>EINVAL\<close>.\<close>

theorem groups_roundtrip:
  assumes "do_setgroups E r k = (val 0, k')" and "0 < unat (arg r 0)" and "0 < be_depth E"
    and "copy_in (be_mem E) (arg r 1) (4 * unat (arg r 0)) (ks_mem k) = Some bs" and "length bs = 4 * unat (arg r 0)"
  shows "do_getgroups E q k' =
    Some (if int_arg q 0 < 0 then (eno EINVAL, k')
          else if int_arg q 0 = 0 then (val (int (unat (arg r 0))), k')
          else if int_arg q 0 < int (unat (arg r 0)) then (eno EINVAL, k')
          else write_out E (arg q 1) bs (int (unat (arg r 0))) k')"
proof -
  have "unat (arg r 0) \<le> 65536" using assms(1) by (auto simp: do_setgroups_def outcome_defs Let_def split: if_splits)
  with assms(1,2,4) have k': "k' = k\<lparr>ks_procs := set_groups (id_pid (ids_of E k)) (words_of bs) (ks_procs k)\<rparr>"
    by (simp add: do_setgroups_def Let_def)
  then have "ids_of E k' = ids_of E k" by (simp add: ids_of_def split: option.split)
  then have "groups_of (be_depth E) (ks_procs k') (id_pid (ids_of E k')) = Some (words_of bs)"
    using groups_of_set [OF assms(3)] by (simp add: k')
  moreover have "words_of bs \<noteq> []" "bytes_of (words_of bs) = bs" "length (words_of bs) = unat (arg r 0)"
    using bytes_of_words_of [OF assms(5)] assms(2) by auto
  ultimately show ?thesis by (simp add: do_getgroups_def Let_def)
qed

theorem groups_roundtrip_witness:
  "let bs = map of_char ''abcdefgh''
   in \<exists>k'. do_setgroups demo_backend (demo_regs [2, 0x1000]) (demo_kst (demo_text ''abcdefgh'')) = (val 0, k')
        \<and> do_getgroups demo_backend (demo_regs [4, 0x2000]) k' = Some (write_out demo_backend 0x2000 bs 2 k')"
proof -
  let ?r = "demo_regs [2, 0x1000]" and ?q = "demo_regs [4, 0x2000]" and ?k = "demo_kst (demo_text ''abcdefgh'')"
    and ?bs = "map of_char ''abcdefgh'' :: u8 list"
  have "mm_read 0x1000 8 (demo_text ''abcdefgh'') = Some ?bs" by code_simp
  then have rd: "copy_in (be_mem demo_backend) (arg ?r 1) (4 * unat (arg ?r 0)) (ks_mem ?k) = Some ?bs"
    by (simp add: demo_simps)
  obtain k' where k': "do_setgroups demo_backend ?r ?k = (val 0, k')"
    using rd by (simp add: do_setgroups_def Let_def) (simp add: demo_regs_def)
  have "int_arg ?q 0 = 4" "unat (arg ?r 0) = 2" "arg ?q 1 = 0x2000" by (simp_all add: int_arg_def demo_regs_def)
  moreover have "0 < be_depth demo_backend" "length ?bs = 4 * unat (arg ?r 0)" by (simp_all add: demo_simps)
  ultimately show ?thesis using k' groups_roundtrip [OF k' _ _ rd, of ?q] by simp
qed

end
