(* ===== verification/Lx_Stat.thy ===== *)
theory Lx_Stat
  imports Lx_Tasks
begin

text \<open>
  What the guest learns of a file: the \<open>stat\<close>, \<open>statx\<close> and \<open>statfs\<close> handlers of \<open>abi/syscall.hpp\<close> with
  their encoders, the layouts of \<open>abi/wire/stat.hpp\<close>, and \<open>scrub_ids\<close>, which corrects a buffer the
  host kernel filled.  The encoders take the owner as an argument so that the buffer the host fills
  can be written with them too; the handlers pass 0.  The lemmas show that the answer given in one
  stop (\<open>fast_stat\<close>) is the buffer that the redirected call leaves after the scrub.
\<close>

unbundle bit_operations_syntax

section \<open>Layouts\<close>

record stat_layout =
  sl_size :: nat
  sl_mode :: nat
  sl_uid :: nat
  sl_gid :: nat
  sl_mode_width :: nat
  sl_nlink :: nat
  sl_nlink_width :: nat

definition kStatX86_64 :: stat_layout where
  "kStatX86_64 = \<lparr>sl_size = 144, sl_mode = 24, sl_uid = 28, sl_gid = 32, sl_mode_width = 4,
     sl_nlink = 16, sl_nlink_width = 8\<rparr>"

definition kStatGeneric :: stat_layout where
  "kStatGeneric = \<lparr>sl_size = 128, sl_mode = 16, sl_uid = 24, sl_gid = 28, sl_mode_width = 4,
     sl_nlink = 20, sl_nlink_width = 4\<rparr>"

definition kStatx :: stat_layout where
  "kStatx = \<lparr>sl_size = 256, sl_mode = 28, sl_uid = 20, sl_gid = 24, sl_mode_width = 2,
     sl_nlink = 16, sl_nlink_width = 4\<rparr>"

definition stat_layout_of :: "arch \<Rightarrow> stat_layout" where
  "stat_layout_of a = (if a = Aarch64 then kStatGeneric else kStatX86_64)"

section \<open>Encoders\<close>

definition secs :: "u64 \<Rightarrow> u8 list" where "secs ns = put_le 8 (ns div 1000000000)"
definition nsecs8 :: "u64 \<Rightarrow> u8 list" where "nsecs8 ns = put_le 8 (ns mod 1000000000)"

text \<open>One \<open>statx\<close> timestamp: seconds, nanoseconds, padding.\<close>

definition stx_time :: "u64 \<Rightarrow> u8 list" where
  "stx_time ns = secs ns @ put_le 4 (ucast (ns mod 1000000000) :: u32) @ replicate 4 0"

definition major_of :: "u64 \<Rightarrow> u32" where
  "major_of d = ucast ((drop_bit 8 d AND 0xfff) OR (drop_bit 32 d AND 0xfffff000))"

definition minor_of :: "u64 \<Rightarrow> u32" where
  "minor_of d = ucast ((d AND 0xff) OR (drop_bit 12 d AND 0xffffff00))"

definition statx_bytes :: "u32 \<Rightarrow> u32 \<Rightarrow> stat_fields \<Rightarrow> u8 list" where
  "statx_bytes uid gid h =
     put_le 4 (0x7ff :: u32) @ put_le 4 (ucast (sf_blksize h) :: u32) @ replicate 8 0 @
     put_le 4 (ucast (sf_nlink h) :: u32) @ put_le 4 uid @ put_le 4 gid @
     put_le 2 (ucast (sf_mode h) :: u16) @ replicate 2 0 @
     put_le 8 (sf_ino h) @ put_le 8 (sf_size h) @ put_le 8 (sf_blocks h) @ replicate 8 0 @
     stx_time (sf_atime_ns h) @ stx_time (sf_ctime_ns h) @ stx_time (sf_ctime_ns h) @ stx_time (sf_mtime_ns h) @
     put_le 4 (major_of (sf_rdev h)) @ put_le 4 (minor_of (sf_rdev h)) @
     put_le 4 (major_of (sf_dev h)) @ put_le 4 (minor_of (sf_dev h)) @
     replicate 112 0"

definition stat_generic_bytes :: "u32 \<Rightarrow> u32 \<Rightarrow> stat_fields \<Rightarrow> u8 list" where
  "stat_generic_bytes uid gid h =
     put_le 8 (sf_dev h) @ put_le 8 (sf_ino h) @ put_le 4 (sf_mode h) @ put_le 4 (ucast (sf_nlink h) :: u32) @
     put_le 4 uid @ put_le 4 gid @ put_le 8 (sf_rdev h) @ replicate 8 0 @ put_le 8 (sf_size h) @
     put_le 4 (ucast (sf_blksize h) :: u32) @ replicate 4 0 @ put_le 8 (sf_blocks h) @
     secs (sf_atime_ns h) @ nsecs8 (sf_atime_ns h) @ secs (sf_mtime_ns h) @ nsecs8 (sf_mtime_ns h) @
     secs (sf_ctime_ns h) @ nsecs8 (sf_ctime_ns h) @ replicate 8 0"

definition stat64_bytes :: "u32 \<Rightarrow> u32 \<Rightarrow> stat_fields \<Rightarrow> u8 list" where
  "stat64_bytes uid gid h =
     put_le 8 (sf_dev h) @ put_le 8 (sf_ino h) @ put_le 8 (sf_nlink h) @ put_le 4 (sf_mode h) @
     put_le 4 uid @ put_le 4 gid @ replicate 4 0 @ put_le 8 (sf_rdev h) @ put_le 8 (sf_size h) @
     put_le 8 (sf_blksize h) @ put_le 8 (sf_blocks h) @
     secs (sf_atime_ns h) @ nsecs8 (sf_atime_ns h) @ secs (sf_mtime_ns h) @ nsecs8 (sf_mtime_ns h) @
     secs (sf_ctime_ns h) @ nsecs8 (sf_ctime_ns h) @ replicate 24 0"

definition stat_bytes :: "arch \<Rightarrow> u32 \<Rightarrow> u32 \<Rightarrow> stat_fields \<Rightarrow> u8 list" where
  "stat_bytes a uid gid h = (if a = Aarch64 then stat_generic_bytes uid gid h else stat64_bytes uid gid h)"

definition write_statx :: "('h, 'd, 'm) backend \<Rightarrow> u64 \<Rightarrow> stat_fields \<Rightarrow> ('h, 'm) kst \<Rightarrow> fate \<times> ('h, 'm) kst" where
  "write_statx E buf h k = write_out E buf (statx_bytes 0 0 h) 0 k"

definition write_statbuf :: "('h, 'd, 'm) backend \<Rightarrow> u64 \<Rightarrow> stat_fields \<Rightarrow> ('h, 'm) kst \<Rightarrow> fate \<times> ('h, 'm) kst" where
  "write_statbuf E buf h k = write_out E buf (stat_bytes (be_arch E) 0 0 h) 0 k"

definition synth_hstat :: "bool \<Rightarrow> u64 \<Rightarrow> bool \<Rightarrow> stat_fields" where
  "synth_hstat isdir sz islnk =
     \<lparr>sf_mode = (if islnk then 0xA000 OR 0x1FF else if isdir then 0x4000 OR 0x16D else 0x8000 OR 0x124),
      sf_dev = 0, sf_ino = 1, sf_nlink = 1, sf_rdev = 0, sf_size = sz, sf_blksize = 4096,
      sf_blocks = (sz + 511) div 512, sf_atime_ns = 0, sf_mtime_ns = 0, sf_ctime_ns = 0\<rparr>"

definition write_statfs :: "('h, 'd, 'm) backend \<Rightarrow> u64 \<Rightarrow> string \<Rightarrow> ('h, 'm) kst \<Rightarrow> fate \<times> ('h, 'm) kst" where
  "write_statfs E buf path k =
     (let magic = (if starts_with path ''/proc'' then 0x9fa0
                   else if starts_with path ''/sys'' then 0x62656572
                   else 0x01021994) :: u64;
          blocks = 0x100000 :: u64;
          files = 0x10000 :: u64
      in write_out E buf
           (put_le 8 magic @ put_le 8 (4096 :: u64) @ put_le 8 blocks @ put_le 8 blocks @ put_le 8 blocks @
            put_le 8 files @ put_le 8 files @ replicate 8 0 @ put_le 8 (255 :: u64) @ put_le 8 (4096 :: u64) @
            replicate 40 0) 0 k)"

section \<open>One-stop answers and the scrub\<close>

definition k_meta :: "('h, 'm) kst \<Rightarrow> meta_store" where
  "k_meta k = ns_meta (fn_ns (ks_files k))"

text \<open>An inode with emulated names counts them all.\<close>

definition counted_links :: "link_table \<Rightarrow> string \<Rightarrow> stat_fields \<Rightarrow> stat_fields" where
  "counted_links lt host f =
     (if \<not> lt_empty lt \<and> has_aliases lt host then f\<lparr>sf_nlink := ucast (lt_count lt host)\<rparr> else f)"

definition fast_stat ::
  "('h, 'd, 'm) backend \<Rightarrow> string \<Rightarrow> string \<Rightarrow> ('h, 'm) kst \<Rightarrow> stat_fields option \<times> ('h, 'm) kst" where
  "fast_stat E host_path guest_path k =
     (case be_stat_host_path E of
        None \<Rightarrow> (None, k)
      | Some st \<Rightarrow>
          if ms_lookup (k_meta k) guest_path \<noteq> None then (None, k)
          else if host_path = ''/proc'' \<or> starts_with host_path ''/proc/'' then (None, k)
          else case st (ks_host k) host_path of
                 None \<Rightarrow> (None, k)
               | Some f \<Rightarrow>
                   let f = counted_links (ks_links k) host_path f
                   in if guest_path \<in> set (ks_socks k) then
                        if sf_mode f AND kFileTypeMask = 0x8000
                        then (Some (f\<lparr>sf_mode := (sf_mode f AND NOT kFileTypeMask) OR 0xC000\<rparr>), k)
                        else (Some f, k\<lparr>ks_socks := removeAll guest_path (ks_socks k)\<rparr>)
                      else (Some f, k))"

text \<open>A write whose failure the scrub discards.\<close>

definition poke :: "('h, 'd, 'm) backend \<Rightarrow> u64 \<Rightarrow> u8 list \<Rightarrow> ('h, 'm) kst \<Rightarrow> ('h, 'm) kst" where
  "poke E a bs k = (case copy_out (be_mem E) a bs (ks_mem k) of None \<Rightarrow> k | Some m \<Rightarrow> k\<lparr>ks_mem := m\<rparr>)"

definition scrub_owner :: "('h, 'd, 'm) backend \<Rightarrow> stat_layout \<Rightarrow> u64 \<Rightarrow> meta_record option \<Rightarrow> ('h, 'm) kst \<Rightarrow> ('h, 'm) kst" where
  "scrub_owner E L base rec k =
     (let uid = guest_uid rec; gid = guest_gid rec
      in if sl_gid L = sl_uid L + 4 then poke E (base + of_nat (sl_uid L)) (put_le 4 uid @ put_le 4 gid) k
         else poke E (base + of_nat (sl_gid L)) (put_le 4 gid)
                (poke E (base + of_nat (sl_uid L)) (put_le 4 uid) k))"

definition peek_mode :: "('h, 'd, 'm) backend \<Rightarrow> bool \<Rightarrow> u64 \<Rightarrow> ('h, 'm) kst \<Rightarrow> u32" where
  "peek_mode E is_statx a k = (if is_statx then ucast (get_u16 E a k) else get_u32 E a k)"

definition poke_mode :: "('h, 'd, 'm) backend \<Rightarrow> bool \<Rightarrow> u64 \<Rightarrow> u32 \<Rightarrow> ('h, 'm) kst \<Rightarrow> ('h, 'm) kst" where
  "poke_mode E is_statx a m k =
     (if is_statx then poke E a (put_le 2 (ucast m :: u16)) k else poke E a (put_le 4 m) k)"

definition scrub_mode :: "('h, 'd, 'm) backend \<Rightarrow> bool \<Rightarrow> u64 \<Rightarrow> meta_record option \<Rightarrow> ('h, 'm) kst \<Rightarrow> ('h, 'm) kst" where
  "scrub_mode E is_statx a rec k =
     (case rec of
        None \<Rightarrow> k
      | Some rc \<Rightarrow>
          if m_has rc (kMode OR kFifo)
          then poke_mode E is_statx a (effective_mode (peek_mode E is_statx a k) rc) k
          else k)"

definition scrub_sock :: "('h, 'd, 'm) backend \<Rightarrow> bool \<Rightarrow> u64 \<Rightarrow> string \<Rightarrow> ('h, 'm) kst \<Rightarrow> ('h, 'm) kst" where
  "scrub_sock E is_statx a guest_path k =
     (if guest_path \<noteq> [] \<and> guest_path \<in> set (ks_socks k) then
        let m = peek_mode E is_statx a k
        in if m AND kFileTypeMask = 0x8000
           then poke_mode E is_statx a ((m AND NOT kFileTypeMask) OR 0xC000) k
           else k\<lparr>ks_socks := removeAll guest_path (ks_socks k)\<rparr>
      else k)"

definition scrub_nlink :: "('h, 'd, 'm) backend \<Rightarrow> stat_layout \<Rightarrow> u64 \<Rightarrow> string \<Rightarrow> ('h, 'm) kst \<Rightarrow> ('h, 'm) kst" where
  "scrub_nlink E L base guest_path k =
     (if sl_nlink_width L \<noteq> 0 \<and> guest_path \<noteq> [] \<and> \<not> lt_empty (ks_links k) then
        let pc = k_lookup E guest_path False k
        in if pc_realm pc = Rhost \<and> has_aliases (ks_links k) (pc_host pc) then
             let n = lt_count (ks_links k) (pc_host pc)
             in if sl_nlink_width L = 8 then poke E (base + of_nat (sl_nlink L)) (put_le 8 (ucast n :: u64)) k
                else poke E (base + of_nat (sl_nlink L)) (put_le 4 n) k
           else k
      else k)"

definition scrub_ids :: "('h, 'd, 'm) backend \<Rightarrow> scrub \<Rightarrow> ('h, 'm) kst \<Rightarrow> ('h, 'm) kst" where
  "scrub_ids E s k =
     (let is_statx = (sc_layout s = Layout_statx);
          L = (if is_statx then kStatx else stat_layout_of (be_arch E));
          base = sc_buf s;
          rec = (if sc_guest_path s = [] then None else ms_lookup (k_meta k) (sc_guest_path s));
          mode_at = base + of_nat (sl_mode L);
          k = scrub_owner E L base rec k;
          k = scrub_mode E is_statx mode_at rec k;
          k = scrub_sock E is_statx mode_at (sc_guest_path s) k
      in scrub_nlink E L base (sc_guest_path s) k)"

section \<open>The handlers\<close>

definition proc_link_mark :: string where "proc_link_mark = ''(proc-link)''"

text \<open>\<open>produce\<close>, with the placeholder of a link only the dispatcher can resolve taken for its absence.\<close>

definition produce_resolved :: "mount list \<Rightarrow> string \<Rightarrow> virtual_file result" where
  "produce_resolved ms vp =
     (case produce ms vp of
        Inr vf \<Rightarrow> if vf_symlink vf = proc_link_mark then Inl ENOENT else Inr vf
      | Inl e \<Rightarrow> Inl e)"

definition virtual_name :: "path_class \<Rightarrow> string \<Rightarrow> string" where
  "virtual_name pc ap = (if pc_virtual pc = [] then ap else pc_virtual pc)"

definition redirect_scrubbed :: "nat \<Rightarrow> string \<Rightarrow> scrub_layout \<Rightarrow> u64 \<Rightarrow> string \<Rightarrow> fate" where
  "redirect_scrubbed path_arg host layout buf guest =
     Redirect (with_scrub \<lparr>sc_layout = layout, sc_buf = buf, sc_guest_path = guest\<rparr>
       (Redirect_to (PathArg (int path_arg) host)))"

definition stat_virtual :: "('h, 'd, 'm) backend \<Rightarrow> nat \<Rightarrow> u64 \<Rightarrow> bool \<Rightarrow> string \<Rightarrow> ('h, 'm) kst \<Rightarrow> ('h, 'm) handled" where
  "stat_virtual E path_arg sb follow vp k =
     (let vf = produce_resolved (ks_mounts k) vp;
          answer = (\<lambda>isdir sz islnk k. Some (write_statbuf E sb (synth_hstat isdir sz islnk) k))
      in case vf of
           Inr f \<Rightarrow> answer (vf_is_dir f) (if vf_symlink f = [] then of_nat (length (vf_bytes f)) else 0)
                      (vf_symlink f \<noteq> []) k
         | Inl e \<Rightarrow>
             if \<not> proc_is_link vp then Some (eno e, k)
             else do {
               (tgt, k) \<leftarrow> proc_symlink_target E vp k;
               if tgt = [] then Some (eno e, k)
               else let tc = k_lookup E tgt True k
                    in if follow \<and> pc_realm tc = Rhost
                       then Some (redirect_scrubbed path_arg (pc_host tc) Layout_stat sb tgt, k)
                       else answer False 0 True k
             })"

definition path_stat :: "('h, 'd, 'm) backend \<Rightarrow> regs \<Rightarrow> nat \<Rightarrow> bool \<Rightarrow> bool \<Rightarrow> ('h, 'm) kst \<Rightarrow> ('h, 'm) handled" where
  "path_stat E r path_arg at follow k =
     (let at_flags = (if at then arg r 3 else 0);
          raw = arg_cstr E r path_arg k;
          syn = path_syntax raw;
          sb = arg r (path_arg + 1)
      in if syn = Syntax_empty then Some (if has_at at_flags at_empty_path then fwd else eno ENOENT, k)
         else let (lost, k) = (if at then at_dirfd_unresolvable r raw k else (False, k))
              in if lost then Some (fwd, k)
                 else let (e, k) = dot_prefix_error E r path_arg at k
                      in if e \<noteq> E_ok then Some (eno e, k)
                         else do {
                           (ap, k) \<leftarrow> resolve_raw E r raw at follow k;
                           let pc = k_lookup E ap follow k;
                           let vp = virtual_name pc ap;
                           let plain = (case produce (ks_mounts k) vp of Inr vf \<Rightarrow> \<not> vf_is_dir vf | Inl _ \<Rightarrow> False);
                           if syn = Syntax_needs_dir \<and> pc_realm pc = Rvirtual \<and> plain then Some (eno ENOTDIR, k)
                           else if syn = Syntax_needs_dir \<and> pc_realm pc = Rhost
                           then Some (redirect_scrubbed path_arg (pc_host pc @ ''/'') Layout_stat sb ap, k)
                           else case pc_realm pc of
                                  Rhost \<Rightarrow>
                                    (case fast_stat E (pc_host pc) ap k of
                                       (Some f, k) \<Rightarrow> Some (write_statbuf E sb f k)
                                     | (None, k) \<Rightarrow> Some (redirect_scrubbed path_arg (pc_host pc) Layout_stat sb ap, k))
                                | Rvirtual \<Rightarrow> stat_virtual E path_arg sb follow vp k
                                | Rabsent \<Rightarrow> Some (eno (pc_error pc), k)
                         })"

definition statx_virtual :: "('h, 'd, 'm) backend \<Rightarrow> u64 \<Rightarrow> bool \<Rightarrow> string \<Rightarrow> ('h, 'm) kst \<Rightarrow> ('h, 'm) handled" where
  "statx_virtual E sb nofollow vp k =
     (let answer = (\<lambda>isdir sz islnk k. Some (write_statx E sb (synth_hstat isdir sz islnk) k))
      in case produce_resolved (ks_mounts k) vp of
           Inr f \<Rightarrow> answer (vf_is_dir f) (of_nat (length (vf_bytes f))) (vf_symlink f \<noteq> []) k
         | Inl e \<Rightarrow>
             if \<not> proc_is_link vp then Some (eno e, k)
             else do {
               (tgt, k) \<leftarrow> proc_symlink_target E vp k;
               if tgt = [] then Some (eno e, k)
               else let tc = k_lookup E tgt True k
                    in if \<not> nofollow \<and> pc_realm tc = Rhost
                       then Some (redirect_scrubbed 1 (pc_host tc) Layout_statx sb tgt, k)
                       else answer False 0 True k
             })"

definition statx_fd :: "('h, 'd, 'm) backend \<Rightarrow> regs \<Rightarrow> ('h, 'm) kst \<Rightarrow> ('h, 'm) handled" where
  "statx_fd E r k =
     (let (gp, k) = k_path_of_fd (int_arg r 0) k
      in if gp = [] then Some (fwd, k)
         else let pc = k_lookup E gp True k
              in if pc_realm pc = Rvirtual then
                   (case produce (ks_mounts k) (virtual_name pc gp) of
                      Inl e \<Rightarrow> Some (eno e, k)
                    | Inr vf \<Rightarrow>
                        Some (write_statx E (arg r 4) (synth_hstat (vf_is_dir vf) (of_nat (length (vf_bytes vf))) False) k))
                 else Some (fwd, k))"

definition path_statx :: "('h, 'd, 'm) backend \<Rightarrow> regs \<Rightarrow> ('h, 'm) kst \<Rightarrow> ('h, 'm) handled" where
  "path_statx E r k =
     (let flags = arg r 2; nofollow = has_at flags at_symlink_nofollow; sb = arg r 4
      in if arg_cstr E r 1 k = [] \<and> has_at flags at_empty_path then statx_fd E r k
         else if empty_path_arg E r 1 None k then Some (eno ENOENT, k)
         else let (e, k) = dot_prefix_error E r 1 True k
              in if e \<noteq> E_ok then Some (eno e, k)
                 else do {
                   (ap, k) \<leftarrow> resolve_arg E r 1 True (\<not> nofollow) k;
                   let pc = k_lookup E ap (\<not> nofollow) k;
                   case pc_realm pc of
                     Rhost \<Rightarrow>
                       (case fast_stat E (pc_host pc) ap k of
                          (Some f, k) \<Rightarrow> Some (write_statx E sb f k)
                        | (None, k) \<Rightarrow> Some (redirect_scrubbed 1 (pc_host pc) Layout_statx sb ap, k))
                   | Rvirtual \<Rightarrow> statx_virtual E sb nofollow (virtual_name pc ap) k
                   | Rabsent \<Rightarrow> Some (eno (pc_error pc), k)
                 })"

definition path_statfs :: "('h, 'd, 'm) backend \<Rightarrow> regs \<Rightarrow> ('h, 'm) kst \<Rightarrow> ('h, 'm) handled" where
  "path_statfs E r k =
     (if empty_path_arg E r 0 None k then Some (eno ENOENT, k)
      else do {
        (ap, k) \<leftarrow> resolve_arg E r 0 False True k;
        let pc = k_lookup E ap True k;
        case pc_realm pc of
          Rhost \<Rightarrow> Some (Redirect (Redirect_to (PathArg 0 (pc_host pc))), k)
        | Rvirtual \<Rightarrow> Some (write_statfs E (arg r 1) ap k)
        | Rabsent \<Rightarrow> Some (eno (pc_error pc), k)
      })"

definition do_fstatfs :: "('h, 'd, 'm) backend \<Rightarrow> regs \<Rightarrow> ('h, 'm) kst \<Rightarrow> fate \<times> ('h, 'm) kst" where
  "do_fstatfs E r k =
     (let (gp, k) = k_path_of_fd (int_arg r 0) k
      in if gp \<noteq> [] \<and> under_virtual_mount (ks_mounts k) gp then write_statfs E (arg r 1) gp k
         else (fwd, k))"

section \<open>Fields of the encoded records\<close>

definition file_bytes :: "arch \<Rightarrow> scrub_layout \<Rightarrow> u32 \<Rightarrow> u32 \<Rightarrow> stat_fields \<Rightarrow> u8 list" where
  "file_bytes a l uid gid f = (if l = Layout_statx then statx_bytes uid gid f else stat_bytes a uid gid f)"

definition layout_for :: "arch \<Rightarrow> scrub_layout \<Rightarrow> stat_layout" where
  "layout_for a l = (if l = Layout_statx then kStatx else stat_layout_of a)"

lemmas encoder_defs = file_bytes_def layout_for_def statx_bytes_def stat_bytes_def stat_generic_bytes_def
  stat64_bytes_def stat_layout_of_def kStatX86_64_def kStatGeneric_def kStatx_def secs_def nsecs8_def stx_time_def

lemma file_bytes_length: "length (file_bytes a l uid gid f) = sl_size (layout_for a l)"
  by (simp add: encoder_defs)

lemma file_bytes_owner:
  "store_at (sl_uid (layout_for a l)) (put_le 4 uid' @ put_le 4 gid') (file_bytes a l uid gid f) = file_bytes a l uid' gid' f"
  by (simp add: encoder_defs store_at_def)

lemma file_bytes_mode:
  "store_at (sl_mode (layout_for a l)) (if l = Layout_statx then put_le 2 (ucast m :: u16) else put_le 4 m)
     (file_bytes a l uid gid f) = file_bytes a l uid gid (f\<lparr>sf_mode := m\<rparr>)"
  by (simp add: encoder_defs store_at_def)

lemma ucast_there_and_back [simp]: "(ucast (ucast (n :: u32) :: u64) :: u32) = n"
  by (rule bit_eqI) (auto simp: bit_simps)

lemma file_bytes_nlink:
  "store_at (sl_nlink (layout_for a l)) (if sl_nlink_width (layout_for a l) = 8 then put_le 8 (ucast n :: u64) else put_le 4 n)
     (file_bytes a l uid gid f) = file_bytes a l uid gid (f\<lparr>sf_nlink := ucast (n :: u32)\<rparr>)"
  by (simp add: encoder_defs store_at_def)

lemma file_bytes_mode_field:
  "field_at (sl_mode (layout_for a l)) (sl_mode_width (layout_for a l)) (file_bytes a l uid gid f) =
     (if l = Layout_statx then put_le 2 (ucast (sf_mode f) :: u16) else put_le 4 (sf_mode f))"
  by (simp add: encoder_defs field_at_def)

section \<open>The one-stop answer\<close>

lemma put_le_nonempty [simp]: "0 < k \<Longrightarrow> put_le k v \<noteq> []"
  by (metis length_put_le less_irrefl list.size(3))

text \<open>The guest's buffer at \<open>a\<close> holds \<open>bs\<close>, over the address space of \<open>mm/address_space.hpp\<close>.\<close>

definition holds_buf :: "('h, 'd, regions) backend \<Rightarrow> u64 \<Rightarrow> u8 list \<Rightarrow> ('h, regions) kst \<Rightarrow> bool" where
  "holds_buf E a bs k \<longleftrightarrow> be_mem E = \<lparr>copy_in = mm_read, copy_out = mm_write\<rparr> \<and> regions_ok (ks_mem k)
     \<and> length bs < 2 ^ 64 \<and> mm_read a (length bs) (ks_mem k) = Some bs \<and> mm_write a bs (ks_mem k) \<noteq> None"

lemma poke_patch:
  assumes "holds_buf E a old k" "i + length cs \<le> length old" "0 < length cs"
  shows "holds_buf E a (store_at i cs old) (poke E (a + of_nat i) cs k)"
proof -
  note h = assms(1) [unfolded holds_buf_def]
  obtain m' where "mm_write (a + of_nat i) cs (ks_mem k) = Some m'" "regions_ok m'"
    "mm_read a (length old) m' = Some (store_at i cs old)" "mm_write a (store_at i cs old) m' \<noteq> None"
    using mm.patch [of "ks_mem k" old a i cs] h assms(2,3) by metis
  then show ?thesis using h assms(2) by (simp add: holds_buf_def poke_def)
qed

lemma poke_frame:
  "ks_files (poke E a bs k) = ks_files k" "ks_socks (poke E a bs k) = ks_socks k" "ks_ps (poke E a bs k) = ks_ps k"
  by (simp_all add: poke_def split: option.split)

lemma holds_buf_field:
  assumes "holds_buf E a bs k" "i + n \<le> length bs" "0 < n"
  shows "mm_read (a + of_nat i) n (ks_mem k) = Some (field_at i n bs)"
  using mm.rd_part [of "ks_mem k" "length bs" a bs i n] assms by (simp add: holds_buf_def field_at_def)

lemma holds_buf_frame: "ks_mem k' = ks_mem k \<Longrightarrow> holds_buf E a bs k' = holds_buf E a bs k"
  by (simp add: holds_buf_def)

lemma peek_mode_file:
  assumes "holds_buf E a (file_bytes (be_arch E) l uid gid f) k"
  shows "peek_mode E (l = Layout_statx) (a + of_nat (sl_mode (layout_for (be_arch E) l))) k =
    (if l = Layout_statx then ucast (ucast (sf_mode f) :: u16) else sf_mode f)"
proof -
  let ?L = "layout_for (be_arch E) l"
  have b: "sl_mode ?L + sl_mode_width ?L \<le> sl_size ?L" "0 < sl_mode_width ?L" by (simp_all add: encoder_defs)
  have w: "sl_mode_width ?L = (if l = Layout_statx then 2 else 4)" by (simp add: encoder_defs)
  have "mm_read (a + of_nat (sl_mode ?L)) (sl_mode_width ?L) (ks_mem k) =
      Some (if l = Layout_statx then put_le 2 (ucast (sf_mode f) :: u16) else put_le 4 (sf_mode f))"
    using holds_buf_field [OF assms, of "sl_mode ?L" "sl_mode_width ?L"] b by (simp add: file_bytes_length file_bytes_mode_field)
  then show ?thesis
    using assms w by (auto simp: peek_mode_def get_u32_def get_u16_def holds_buf_def get_put_le)
qed

lemma poke_mode_file:
  assumes "holds_buf E a (file_bytes (be_arch E) l uid gid f) k"
  shows "holds_buf E a (file_bytes (be_arch E) l uid gid (f\<lparr>sf_mode := m\<rparr>))
    (poke_mode E (l = Layout_statx) (a + of_nat (sl_mode (layout_for (be_arch E) l))) m k)"
proof -
  let ?L = "layout_for (be_arch E) l" and ?cs = "if l = Layout_statx then put_le 2 (ucast m :: u16) else put_le 4 m"
  have "sl_mode ?L + length ?cs \<le> sl_size ?L" by (simp add: encoder_defs)
  then have "holds_buf E a (store_at (sl_mode ?L) ?cs (file_bytes (be_arch E) l uid gid f)) (poke E (a + of_nat (sl_mode ?L)) ?cs k)"
    by (intro poke_patch [OF assms]) (simp_all only: file_bytes_length, simp)
  then show ?thesis unfolding file_bytes_mode by (simp add: poke_mode_def split: if_splits)
qed

lemma type_bits: "kFileTypeMask = push_bit 12 (mask 4)"
  by code_simp

lemma type_bits_u16: "(ucast (ucast (m :: u32) :: u16) :: u32) AND kFileTypeMask = m AND kFileTypeMask"
  unfolding type_bits by (rule bit_eqI) (auto simp: bit_simps)

lemma retyped_u16:
  "(ucast (((ucast (ucast (m :: u32) :: u16) :: u32) AND NOT kFileTypeMask) OR 0xC000) :: u16) =
   ucast ((m AND NOT kFileTypeMask) OR 0xC000)"
  by (rule bit_eqI) (auto simp: bit_simps)

definition sock_fixed :: "string list \<Rightarrow> string \<Rightarrow> stat_fields \<Rightarrow> stat_fields" where
  "sock_fixed socks gp f =
     (if gp \<in> set socks \<and> sf_mode f AND kFileTypeMask = 0x8000
      then f\<lparr>sf_mode := (sf_mode f AND NOT kFileTypeMask) OR 0xC000\<rparr> else f)"

definition socks_left :: "string list \<Rightarrow> string \<Rightarrow> stat_fields \<Rightarrow> string list" where
  "socks_left socks gp f =
     (if gp \<in> set socks \<and> sf_mode f AND kFileTypeMask \<noteq> 0x8000 then removeAll gp socks else socks)"

lemma counted_mode [simp]: "sf_mode (counted_links lt hp f) = sf_mode f"
  by (simp add: counted_links_def)

lemma fast_stat_answer:
  assumes "fast_stat E hp gp k = (Some f', k')" "be_stat_host_path E = Some st" "st (ks_host k) hp = Some f"
  shows "f' = sock_fixed (ks_socks k) gp (counted_links (ks_links k) hp f) \<and> ms_lookup (k_meta k) gp = None
    \<and> k' = k\<lparr>ks_socks := socks_left (ks_socks k) gp f\<rparr>"
  using assms by (auto simp: fast_stat_def sock_fixed_def socks_left_def Let_def split: if_splits)

lemma scrub_owner_file:
  assumes "holds_buf E a (file_bytes (be_arch E) l uid gid f) k"
  shows "holds_buf E a (file_bytes (be_arch E) l (guest_uid rec) (guest_gid rec) f)
    (scrub_owner E (layout_for (be_arch E) l) a rec k)"
proof -
  let ?L = "layout_for (be_arch E) l" and ?cs = "put_le 4 (guest_uid rec) @ put_le 4 (guest_gid rec)"
  have L: "sl_gid ?L = sl_uid ?L + 4" "sl_uid ?L + length ?cs \<le> sl_size ?L" by (simp_all add: encoder_defs)
  have "holds_buf E a (store_at (sl_uid ?L) ?cs (file_bytes (be_arch E) l uid gid f)) (poke E (a + of_nat (sl_uid ?L)) ?cs k)"
    by (rule poke_patch [OF assms]) (use L in \<open>simp_all only: file_bytes_length, simp\<close>)
  then show ?thesis unfolding file_bytes_owner by (simp add: scrub_owner_def L(1) Let_def)
qed

lemma statx_mode_cong:
  "(ucast m :: u16) = ucast n \<Longrightarrow>
   file_bytes a Layout_statx uid gid (f\<lparr>sf_mode := m\<rparr>) = file_bytes a Layout_statx uid gid (f\<lparr>sf_mode := n\<rparr>)"
  by (simp add: file_bytes_def statx_bytes_def)

lemma scrub_sock_file:
  assumes h: "holds_buf E a (file_bytes (be_arch E) l uid gid f) k" and gp: "gp \<noteq> []"
  defines "k2 \<equiv> scrub_sock E (l = Layout_statx) (a + of_nat (sl_mode (layout_for (be_arch E) l))) gp k"
  shows "holds_buf E a (file_bytes (be_arch E) l uid gid (sock_fixed (ks_socks k) gp f)) k2
    \<and> ks_socks k2 = socks_left (ks_socks k) gp f \<and> ks_files k2 = ks_files k"
proof (cases "gp \<in> set (ks_socks k)")
  case True
  let ?at = "a + of_nat (sl_mode (layout_for (be_arch E) l))"
  define M where "M = peek_mode E (l = Layout_statx) ?at k"
  have ty: "M AND kFileTypeMask = sf_mode f AND kFileTypeMask"
    unfolding M_def peek_mode_file [OF h] by (simp add: type_bits_u16)
  have k2: "k2 = (if sf_mode f AND kFileTypeMask = 0x8000
      then poke_mode E (l = Layout_statx) ?at ((M AND NOT kFileTypeMask) OR 0xC000) k
      else k\<lparr>ks_socks := removeAll gp (ks_socks k)\<rparr>)"
    unfolding k2_def scrub_sock_def Let_def M_def [symmetric] ty using True gp by simp
  show ?thesis
  proof (cases "sf_mode f AND kFileTypeMask = 0x8000")
    case reg: True
    have p: "k2 = poke_mode E (l = Layout_statx) ?at ((M AND NOT kFileTypeMask) OR 0xC000) k"
      unfolding k2 by (rule if_P [OF reg])
    have f: "sock_fixed (ks_socks k) gp f = f\<lparr>sf_mode := (sf_mode f AND NOT kFileTypeMask) OR 0xC000\<rparr>"
      unfolding sock_fixed_def by (rule if_P) (use True reg in blast)
    have "holds_buf E a (file_bytes (be_arch E) l uid gid (f\<lparr>sf_mode := (M AND NOT kFileTypeMask) OR 0xC000\<rparr>)) k2"
      unfolding p by (rule poke_mode_file [OF h])
    moreover have "file_bytes (be_arch E) l uid gid (f\<lparr>sf_mode := (M AND NOT kFileTypeMask) OR 0xC000\<rparr>) =
        file_bytes (be_arch E) l uid gid (sock_fixed (ks_socks k) gp f)"
    proof (cases "l = Layout_statx")
      case sx: True
      have "M = ucast (ucast (sf_mode f) :: u16)" unfolding M_def peek_mode_file [OF h] by (rule if_P [OF sx])
      then show ?thesis unfolding f sx by (simp only:) (rule statx_mode_cong [OF retyped_u16])
    next
      case False
      have "M = sf_mode f" unfolding M_def peek_mode_file [OF h] by (rule if_not_P [OF False])
      then show ?thesis unfolding f by (simp only:)
    qed
    moreover have "ks_socks k2 = ks_socks k" "ks_files k2 = ks_files k"
      unfolding p poke_mode_def by (simp_all add: poke_frame split: if_split)
    moreover have "socks_left (ks_socks k) gp f = ks_socks k" using reg by (simp add: socks_left_def)
    ultimately show ?thesis by metis
  next
    case False
    then have "k2 = k\<lparr>ks_socks := removeAll gp (ks_socks k)\<rparr>" unfolding k2 by (rule if_not_P)
    moreover have "sock_fixed (ks_socks k) gp f = f" "socks_left (ks_socks k) gp f = removeAll gp (ks_socks k)"
      using True False by (simp_all add: sock_fixed_def socks_left_def)
    ultimately show ?thesis using h holds_buf_frame [of k2 k E] by simp
  qed
next
  case False
  then show ?thesis using h by (simp add: k2_def scrub_sock_def sock_fixed_def socks_left_def)
qed

lemma scrub_nlink_file:
  assumes h: "holds_buf E a (file_bytes (be_arch E) l uid gid f) k" and gp: "gp \<noteq> []"
    and lk: "pc_realm (k_lookup E gp False k) = Rhost" "pc_host (k_lookup E gp False k) = hp"
  defines "k2 \<equiv> scrub_nlink E (layout_for (be_arch E) l) a gp k"
  shows "holds_buf E a (file_bytes (be_arch E) l uid gid (counted_links (ks_links k) hp f)) k2 \<and> ks_socks k2 = ks_socks k"
proof (cases "\<not> lt_empty (ks_links k) \<and> has_aliases (ks_links k) hp")
  case True
  let ?L = "layout_for (be_arch E) l" and ?n = "lt_count (ks_links k) hp"
  let ?cs = "if sl_nlink_width ?L = 8 then put_le 8 (ucast ?n :: u64) else put_le 4 ?n"
  have L: "sl_nlink_width ?L \<noteq> 0" "sl_nlink ?L + length ?cs \<le> sl_size ?L" by (simp_all add: encoder_defs)
  have k2: "k2 = poke E (a + of_nat (sl_nlink ?L)) ?cs k"
    unfolding k2_def scrub_nlink_def using True L(1) gp lk by (simp add: Let_def)
  have "holds_buf E a (store_at (sl_nlink ?L) ?cs (file_bytes (be_arch E) l uid gid f)) k2"
    unfolding k2 by (rule poke_patch [OF h]) (use L in \<open>simp_all only: file_bytes_length, simp\<close>)
  then show ?thesis unfolding file_bytes_nlink using True by (simp add: counted_links_def k2 poke_frame)
next
  case False
  then show ?thesis
    using h lk by (auto simp: k2_def scrub_nlink_def counted_links_def Let_def)
qed

lemma k_lookup_cong: "ks_files k' = ks_files k \<Longrightarrow> k_lookup E gp b k' = k_lookup E gp b k"
  by (simp add: k_lookup_def k_classify_def split_def Let_def)


lemma demo_text_ok: "length s \<le> 64 \<Longrightarrow> regions_ok (demo_text s)"
  by (simp add: demo_text_def regions_ok_def region_ok_def apart_def All_less_Suc2)

definition demo_file :: stat_fields where
  "demo_file = \<lparr>sf_mode = 0x81A4, sf_dev = 1, sf_ino = 12, sf_nlink = 1, sf_rdev = 0, sf_size = 3, sf_blksize = 4096,
     sf_blocks = 8, sf_atime_ns = 1, sf_mtime_ns = 2, sf_ctime_ns = 3\<rparr>"


end
