(* ===== verification/Lx_Open.thy ===== *)
theory Lx_Open
  imports Lx_Stat Lx_Loader
begin

text \<open>
  The dispatcher of \<open>abi/syscall.hpp\<close>, the handlers that open a file or answer from a path without
  changing the tree: \<open>open\<close> and what follows a successful one, \<open>access\<close>, watches, \<open>readlink\<close>,
  \<open>execve\<close>, the working directory, attributes and descriptors.  The host's FIFOs are assumed to work
  (\<open>fifos_emulated()\<close> is false), so no open is served by the emulation of named pipes.
\<close>

unbundle bit_operations_syntax

section \<open>Changes to the state\<close>

definition k_upd_meta :: "(meta_store \<Rightarrow> meta_store) \<Rightarrow> ('h, 'm) kst \<Rightarrow> ('h, 'm) kst" where
  "k_upd_meta f k =
     k\<lparr>ks_files := (ks_files k)\<lparr>fn_ns := (fn_ns (ks_files k))\<lparr>ns_meta := f (ns_meta (fn_ns (ks_files k)))\<rparr>\<rparr>\<rparr>"

definition k_upd_wo :: "(whiteouts \<Rightarrow> whiteouts) \<Rightarrow> ('h, 'm) kst \<Rightarrow> ('h, 'm) kst" where
  "k_upd_wo f k =
     k\<lparr>ks_files := (ks_files k)\<lparr>fn_ns := (fn_ns (ks_files k))\<lparr>ns_wo := f (ns_wo (fn_ns (ks_files k)))\<rparr>\<rparr>\<rparr>"

definition k_upd_links :: "(link_table \<Rightarrow> link_table) \<Rightarrow> ('h, 'm) kst \<Rightarrow> ('h, 'm) kst" where
  "k_upd_links f k = k\<lparr>ks_files := (ks_files k)\<lparr>fn_links := f (fn_links (ks_files k))\<rparr>\<rparr>"

definition k_upd_ps :: "(proc_state \<Rightarrow> proc_state) \<Rightarrow> ('h, 'm) kst \<Rightarrow> ('h, 'm) kst" where
  "k_upd_ps f k = k\<lparr>ks_ps := f (ks_ps k)\<rparr>"

text \<open>A call of the dispatcher itself that changes the host, entered into the list of calls.\<close>

definition k_call :: "host_call \<Rightarrow> ('h \<Rightarrow> errno option \<times> 'h) \<Rightarrow> ('h, 'm) kst \<Rightarrow> errno option \<times> ('h, 'm) kst" where
  "k_call c f k =
     (let (e, h) = f (ks_host k); fn = ks_files k; ns = fn_ns fn
      in (e, k\<lparr>ks_files := fn\<lparr>fn_ns := ns\<lparr>ns_world := issue c h (ns_world ns)\<rparr>\<rparr>\<rparr>))"

definition k_chmod :: "('h, 'd, 'm) backend \<Rightarrow> string \<Rightarrow> u32 \<Rightarrow> ('h, 'm) kst \<Rightarrow> errno option \<times> ('h, 'm) kst" where
  "k_chmod E p m k = k_call (Chmod p m) (be_chmod E p m) k"

section \<open>Open flags\<close>

datatype open_flag =
    O_rdonly | O_wronly | O_rdwr | O_creat | O_excl | O_noctty | O_trunc | O_append | O_nonblock
  | O_directio | O_directory | O_nofollow | O_noatime | O_cloexec | O_path | O_tmpfile

primrec open_bits :: "open_flag \<Rightarrow> u64" where
  "open_bits O_rdonly = 0"
| "open_bits O_wronly = 0x1"
| "open_bits O_rdwr = 0x2"
| "open_bits O_creat = 0x40"
| "open_bits O_excl = 0x80"
| "open_bits O_noctty = 0x100"
| "open_bits O_trunc = 0x200"
| "open_bits O_append = 0x400"
| "open_bits O_nonblock = 0x800"
| "open_bits O_directio = 0x4000"
| "open_bits O_directory = 0x10000"
| "open_bits O_nofollow = 0x20000"
| "open_bits O_noatime = 0x40000"
| "open_bits O_cloexec = 0x80000"
| "open_bits O_path = 0x200000"
| "open_bits O_tmpfile = 0x410000"

definition has_open :: "u64 \<Rightarrow> open_flag \<Rightarrow> bool" where
  "has_open flags f \<longleftrightarrow> flags AND open_bits f \<noteq> 0"

definition open_flag_for :: "arch \<Rightarrow> open_flag \<Rightarrow> u64" where
  "open_flag_for a f =
     (if a \<noteq> Aarch64 then open_bits f
      else case f of
             O_directory \<Rightarrow> 0x4000
           | O_nofollow \<Rightarrow> 0x8000
           | O_directio \<Rightarrow> 0x10000
           | O_tmpfile \<Rightarrow> 0x404000
           | _ \<Rightarrow> open_bits f)"

definition has_for :: "arch \<Rightarrow> u64 \<Rightarrow> open_flag \<Rightarrow> bool" where
  "has_for a flags f \<longleftrightarrow> flags AND open_flag_for a f \<noteq> 0"

definition open_writable :: "u64 \<Rightarrow> bool" where
  "open_writable flags \<longleftrightarrow>
     (let acc = flags AND 3
      in acc = open_bits O_wronly \<or> acc = open_bits O_rdwr \<or> has_open flags O_creat \<or> has_open flags O_trunc)"

section \<open>Memory maps\<close>

definition is_proc_maps :: "string \<Rightarrow> bool" where
  "is_proc_maps p \<longleftrightarrow> starts_with p ''/proc/'' \<and> ends_with p ''/maps''"

function text_lines :: "string \<Rightarrow> string list" where
  "text_lines raw =
     (if raw = [] then []
      else takeWhile (\<lambda>c. c \<noteq> newline) raw #
           (case dropWhile (\<lambda>c. c \<noteq> newline) raw of [] \<Rightarrow> [] | _ # rest \<Rightarrow> text_lines rest))"
  by pat_completeness auto
termination
proof (relation "measure length", simp)
  fix raw c :: "char list" and rest x
  assume "dropWhile (\<lambda>c. c \<noteq> newline) raw = x # rest"
  then have "length (x # rest) \<le> length raw" by (metis length_dropWhile_le)
  then show "(rest, raw) \<in> measure length" by simp
qed

declare text_lines.simps [simp del]

text \<open>The position of the first \<open>" /"\<close>.\<close>

fun find_space_slash :: "string \<Rightarrow> nat option" where
  "find_space_slash (a # b # s) =
     (if a = CHR '' '' \<and> b = slash then Some 0 else map_option Suc (find_space_slash (b # s)))"
| "find_space_slash _ = None"

definition guest_map_line :: "mount list \<Rightarrow> string \<Rightarrow> string" where
  "guest_map_line ms line =
     (case find_space_slash line of
        None \<Rightarrow> line
      | Some i \<Rightarrow>
          let hp = drop (i + 1) line; g = guest_path_of ms hp
          in take (i + 1) line @ (if g \<noteq> [] then g else hp))"

definition guest_maps :: "('h, 'd, 'm) backend \<Rightarrow> ('h, 'm) kst \<Rightarrow> string" where
  "guest_maps E k =
     (case be_host_maps E of
        None \<Rightarrow> []
      | Some None \<Rightarrow> []
      | Some (Some raw) \<Rightarrow> concat (map (\<lambda>l. guest_map_line (ks_mounts k) l @ [newline]) (text_lines raw)))"

section \<open>Opening\<close>

text \<open>The mode of a file is widened for its owner before the host opens it for writing, and the
  mode the guest should see is recorded.\<close>

definition grant_root_write :: "('h, 'd, 'm) backend \<Rightarrow> string \<Rightarrow> string \<Rightarrow> ('h, 'm) kst \<Rightarrow> ('h, 'm) kst" where
  "grant_root_write E ap host k =
     (case h_stat (be_host E) (ks_host k) host of
        Inl _ \<Rightarrow> k
      | Inr st \<Rightarrow>
          if \<not> s_isreg (hst_mode st) then k
          else if hst_mode st AND 0x180 = 0x180 \<or> hst_uid st \<noteq> be_getuid E then k
          else let real = hst_mode st AND kPermMask
               in case k_chmod E host (real OR 0x180) k of
                    (Some _, k) \<Rightarrow> k
                  | (None, k) \<Rightarrow>
                      if (case ms_lookup (k_meta k) ap of None \<Rightarrow> True | Some rec \<Rightarrow> \<not> m_has rec kMode)
                      then k_upd_meta (set_mode ap real no_id) k else k)"

definition s_isfifo :: "u32 \<Rightarrow> bool" where
  "s_isfifo m \<longleftrightarrow> m AND 0xF000 = 0x1000"

definition open_may_block :: "('h, 'd, 'm) backend \<Rightarrow> u64 \<Rightarrow> string \<Rightarrow> ('h, 'm) kst \<Rightarrow> bool" where
  "open_may_block E flags host k \<longleftrightarrow>
     \<not> has_for (be_arch E) flags O_nonblock \<and> \<not> has_for (be_arch E) flags O_path
     \<and> (case h_stat (be_host E) (ks_host k) host of Inl _ \<Rightarrow> False | Inr st \<Rightarrow> s_isfifo (hst_mode st))"

definition open_host :: "('h, 'd, 'm) backend \<Rightarrow> nat \<Rightarrow> u64 \<Rightarrow> string \<Rightarrow> string \<Rightarrow> ('h, 'm) kst \<Rightarrow> fate \<times> ('h, 'm) kst" where
  "open_host E path_arg flags ap host k =
     (let for_write = open_writable flags;
          k = k\<lparr>ks_pending := (ks_pending k)\<lparr>pd_open := ap, pd_flags := flags\<rparr>\<rparr>;
          k = (if for_write then grant_root_write E ap host k else k);
          k = (if \<not> for_write then k\<lparr>ks_pending := (ks_pending k)\<lparr>pd_dir := True, pd_lazy := ap\<rparr>\<rparr> else k)
      in (Redirect ((Redirect_to (PathArg (int path_arg) host))\<lparr>rd_may_block := open_may_block E flags host k\<rparr>), k))"

definition open_virtual :: "('h, 'd, 'm) backend \<Rightarrow> nat \<Rightarrow> u64 \<Rightarrow> string \<Rightarrow> ('h, 'm) kst \<Rightarrow> fate \<times> ('h, 'm) kst" where
  "open_virtual E path_arg flags vp k =
     (if open_writable flags \<and> \<not> virtual_is_writable vp then (eno EACCES, k)
      else case produce (ks_mounts k) vp of
             Inl e \<Rightarrow> (eno e, k)
           | Inr vf \<Rightarrow>
               let bytes = (if vf_bytes vf = [] \<and> is_proc_maps vp then map of_char (guest_maps E k) else vf_bytes vf);
                   pd = (ks_pending k)\<lparr>pd_open := vp, pd_flags := 0, pd_dir := vf_is_dir vf, pd_entries := vf_entries vf\<rparr>
               in (Inject (int path_arg) bytes (vf_is_dir vf), k\<lparr>ks_pending := pd\<rparr>))"

text \<open>An exclusive create on a name that is taken.\<close>

definition excl_refusal :: "('h, 'd, 'm) backend \<Rightarrow> u64 \<Rightarrow> string \<Rightarrow> string \<Rightarrow> path_class \<Rightarrow> ('h, 'm) kst \<Rightarrow> errno option" where
  "excl_refusal E flags raw ap pc k =
     (if \<not> (has_open flags O_creat \<and> has_open flags O_excl) then None
      else if path_syntax raw = Syntax_needs_dir \<and> host_path_is_dir E (ks_host k) (pc_host pc) then Some EISDIR
      else if pc_realm pc = Rhost \<and> host_lexists E (ks_host k) (pc_host pc) = None then Some EEXIST
      else let named = k_lookup E ap False k
           in if pc_realm named = Rhost \<and> host_path_is_symlink E (ks_host k) (pc_host named) then Some EEXIST
              else None)"

definition open_intent :: "u64 \<Rightarrow> write_intent" where
  "open_intent flags =
     (if open_writable flags \<and> (has_open flags O_creat \<and> has_open flags O_excl \<or> has_open flags O_trunc)
      then Parents_only else Copy_leaf)"

definition path_open_flags ::
  "('h, 'd, 'm) backend \<Rightarrow> regs \<Rightarrow> nat \<Rightarrow> bool \<Rightarrow> u64 \<Rightarrow> ('h, 'm) kst \<Rightarrow> ('h, 'm) handled" where
  "path_open_flags E r path_arg at flags k =
     (let raw = arg_cstr E r path_arg k
      in if raw = [] then Some (if has_at flags at_empty_path then fwd else eno ENOENT, k)
         else let (e, k) = dot_prefix_error E r path_arg at k
              in if e \<noteq> E_ok then Some (eno e, k)
                 else do {
                   (ap, k) \<leftarrow> resolve_arg E r path_arg at True k;
                   let (pc, k) = k_classify E ap (open_writable flags) True (open_intent flags) k;
                   let named = k_lookup E ap False k;
                   let link = has_for (be_arch E) flags O_nofollow \<and> host_path_is_symlink E (ks_host k) (pc_host named);
                   case excl_refusal E flags raw ap pc k of
                     Some e \<Rightarrow> Some (eno e, k)
                   | None \<Rightarrow>
                       if link \<and> \<not> has_for (be_arch E) flags O_path then Some (eno ELOOP, k)
                       else if link then
                         Some (Redirect (Redirect_to (PathArg (int path_arg) (pc_host named))),
                               k\<lparr>ks_pending := (ks_pending k)\<lparr>pd_open := ap, pd_flags := 0\<rparr>\<rparr>)
                       else if open_intent flags = Parents_only \<and> dot_traversal_denied E (ks_host k) raw (pc_host pc)
                       then Some (eno EACCES, k)
                       else case pc_realm pc of
                              Rhost \<Rightarrow> Some (open_host E path_arg flags ap (pc_host pc) k)
                            | Rvirtual \<Rightarrow> Some (open_virtual E path_arg flags (virtual_name pc ap) k)
                            | Rabsent \<Rightarrow> Some (eno (pc_error pc), k)
                 })"

definition path_open :: "('h, 'd, 'm) backend \<Rightarrow> regs \<Rightarrow> nat \<Rightarrow> bool \<Rightarrow> ('h, 'm) kst \<Rightarrow> ('h, 'm) handled" where
  "path_open E r path_arg at k = path_open_flags E r path_arg at (arg r (path_arg + 1)) k"

definition path_openat2 :: "('h, 'd, 'm) backend \<Rightarrow> regs \<Rightarrow> ('h, 'm) kst \<Rightarrow> ('h, 'm) handled" where
  "path_openat2 E r k =
     (let flags = (case copy_in (be_mem E) (arg r 2) 8 (ks_mem k) of None \<Rightarrow> 0 | Some raw \<Rightarrow> get_le raw)
      in path_open_flags E r 1 True flags k)"

section \<open>After a successful open\<close>

text \<open>The name under which the supervisor reaches a descriptor of the traced task.  A descriptor opened
  through it is the task's own file, so \<open>fstat\<close> and \<open>fchmod\<close> on it are \<open>stat\<close> and \<open>chmod\<close> of the name.\<close>

definition tracee_fd :: "('h, 'd, 'm) backend \<Rightarrow> int \<Rightarrow> string option" where
  "tracee_fd E fd = map_option (\<lambda>tid. ''/proc/'' @ show_int tid @ ''/fd/'' @ show_int fd) (be_host_tid E)"

definition open_tracee_fd :: "('h, 'd, 'm) backend \<Rightarrow> int \<Rightarrow> ('h, 'm) kst \<Rightarrow> string option" where
  "open_tracee_fd E fd k =
     (case tracee_fd E fd of None \<Rightarrow> None | Some link \<Rightarrow> if be_open_ro E (ks_host k) link then Some link else None)"

definition record_created_mode :: "('h, 'd, 'm) backend \<Rightarrow> int \<Rightarrow> ('h, 'm) kst \<Rightarrow> ('h, 'm) kst" where
  "record_created_mode E fd k =
     (case open_tracee_fd E fd k of
        None \<Rightarrow> k
      | Some sfd \<Rightarrow>
          (case h_stat (be_host E) (ks_host k) sfd of
             Inl _ \<Rightarrow> k
           | Inr st \<Rightarrow>
               let want = hst_mode st AND kPermMask
               in if s_isreg (hst_mode st) \<and> want AND 0x180 \<noteq> 0x180 \<and> hst_uid st = be_getuid E then
                    (case k_chmod E sfd (want OR 0x180) k of
                       (Some _, k) \<Rightarrow> k
                     | (None, k) \<Rightarrow> k_upd_meta (set_mode (pd_open (ks_pending k)) want no_id) k)
                  else k))"

text \<open>A terminal opened without \<open>O_NOCTTY\<close> by a session leader that has none becomes its own.\<close>

definition claim_on_open :: "('h, 'd, 'm) backend \<Rightarrow> int \<Rightarrow> ('h, 'm) kst \<Rightarrow> ('h, 'm) kst option" where
  "claim_on_open E fd k =
     (let me = id_pid (ids_of E k)
      in if starts_with (pd_open (ks_pending k)) ''/dev/pts/'' \<and> \<not> has_open (pd_flags (ks_pending k)) O_noctty then do {
           s \<leftarrow> sid_of (be_depth E) (ks_procs k) me;
           if s \<noteq> me then Some k
           else do {
             c \<leftarrow> ctty_of (be_depth E) (ks_procs k) me;
             if c \<ge> 0 then Some k
             else let (n, k) = pty_slave_of_fd fd k
                  in if n \<ge> 0 then map_option (\<lambda>t. k\<lparr>ks_procs := t\<rparr>) (set_ctty (be_depth E) me n (ks_procs k))
                     else Some k
           }
         } else Some k)"

definition no_pending :: "pending \<Rightarrow> pending" where
  "no_pending p = p\<lparr>pd_open := [], pd_dir := False, pd_lazy := [], pd_entries := []\<rparr>"

definition note_opened_fd :: "('h, 'd, 'm) backend \<Rightarrow> int \<Rightarrow> ('h, 'm) kst \<Rightarrow> ('h, 'm) kst option" where
  "note_opened_fd E fd k =
     (let pd = ks_pending k;
          k = (if fd \<ge> 0 then k_upd_ps (unbind_fd fd) k else k)
      in do {
           k \<leftarrow> (if fd \<ge> 0 \<and> pd_open pd \<noteq> [] then
                  let k = k_upd_ps (bind_fd fd (pd_open pd)) k;
                      k = (if has_open (pd_flags pd) O_creat
                           then record_created_mode E fd (k_upd_wo (clear_whiteout_if_any (pd_open pd)) k) else k)
                  in do {
                       k \<leftarrow> claim_on_open E fd k;
                       Some (if pd_dir pd then
                               (if pd_lazy pd \<noteq> [] then k_upd_ps (bind_lazy_dir fd (pd_lazy pd)) k
                                else k_upd_ps (bind_dir fd (pd_entries pd)) k)
                             else k)
                     }
                else Some k);
           Some (k\<lparr>ks_pending := no_pending (ks_pending k)\<rparr>)
         })"

text \<open>An open that blocks is finished later: its pending state is taken along and put back.\<close>

record pending_open =
  po_pid :: int
  po_ppid :: int
  po_path :: string
  po_flags :: u64

definition take_pending_open :: "('h, 'd, 'm) backend \<Rightarrow> ('h, 'm) kst \<Rightarrow> pending_open \<times> ('h, 'm) kst" where
  "take_pending_open E k =
     (let me = ids_of E k; pd = ks_pending k
      in (\<lparr>po_pid = id_pid me, po_ppid = id_ppid me, po_path = pd_open pd, po_flags = pd_flags pd\<rparr>,
          k\<lparr>ks_pending := no_pending pd\<rparr>))"

definition finish_pending_open :: "('h, 'd, 'm) backend \<Rightarrow> pending_open \<Rightarrow> int \<Rightarrow> ('h, 'm) kst \<Rightarrow> ('h, 'm) kst option" where
  "finish_pending_open E p fd k =
     (let k = k_upd_ps (set_current_pid (po_pid p) (po_ppid p)) k;
          k = k\<lparr>ks_pending := (ks_pending k)\<lparr>pd_open := po_path p, pd_flags := po_flags p AND NOT (open_bits O_creat)\<rparr>\<rparr>
      in note_opened_fd E fd k)"

definition on_fd_dup :: "int \<Rightarrow> int \<Rightarrow> ('h, 'm) kst \<Rightarrow> ('h, 'm) kst" where
  "on_fd_dup from to k = k_upd_ps (mirror_fd from to) k"

definition on_fd_closed :: "int \<Rightarrow> ('h, 'm) kst \<Rightarrow> ('h, 'm) kst" where
  "on_fd_closed fd k = k_upd_ps (unbind_fd fd) k"

section \<open>Answers from a path\<close>

definition redirect_to :: "nat \<Rightarrow> string \<Rightarrow> fate" where
  "redirect_to path_arg host = Redirect (Redirect_to (PathArg (int path_arg) host))"

definition path_at :: "('h, 'd, 'm) backend \<Rightarrow> regs \<Rightarrow> nat \<Rightarrow> bool \<Rightarrow> ('h, 'm) kst \<Rightarrow> ('h, 'm) handled" where
  "path_at E r path_arg at k =
     (if arg_cstr E r path_arg k = [] then Some (if at then fwd else eno ENOENT, k)
      else let (e, k) = dot_prefix_error E r path_arg at k
           in if e \<noteq> E_ok then Some (eno e, k)
              else do {
                (ap, k) \<leftarrow> resolve_arg E r path_arg at True k;
                let pc = k_lookup E ap True k;
                Some (case pc_realm pc of
                        Rhost \<Rightarrow> redirect_to path_arg (pc_host pc)
                      | Rvirtual \<Rightarrow> val 0
                      | Rabsent \<Rightarrow> eno (pc_error pc), k)
              })"

definition path_watch :: "('h, 'd, 'm) backend \<Rightarrow> regs \<Rightarrow> nat \<Rightarrow> bool \<Rightarrow> ('h, 'm) kst \<Rightarrow> ('h, 'm) handled" where
  "path_watch E r path_arg at k =
     (let raw = arg_cstr E r path_arg k;
          (dir, k) = (if at then dir_of (int_arg r (path_arg - 1)) k else ([], k))
      in do {
           ap \<leftarrow> k_absolutize E raw dir k;
           let pc = k_lookup E ap True k;
           Some (case pc_realm pc of
                   Rhost \<Rightarrow> redirect_to path_arg (pc_host pc)
                 | Rvirtual \<Rightarrow> eno ENOENT
                 | Rabsent \<Rightarrow> eno (pc_error pc), k)
         })"

definition write_link :: "('h, 'd, 'm) backend \<Rightarrow> u64 \<Rightarrow> u64 \<Rightarrow> string \<Rightarrow> ('h, 'm) kst \<Rightarrow> fate \<times> ('h, 'm) kst" where
  "write_link E buf cap tgt k =
     (let n = (if length tgt < unat cap then length tgt else unat cap)
      in if n = 0 then (val 0, k)
         else write_out E buf (map of_char (take n tgt)) (int n) k)"

text \<open>The two links of \<open>/proc\<close> that name the caller, before they are expanded.\<close>

definition proc_self_link :: "ids \<Rightarrow> string \<Rightarrow> string option" where
  "proc_self_link me pre =
     (if pre = ''/proc/self'' then Some (show_int (id_pid me))
      else if pre = ''/proc/thread-self'' then Some (show_int (id_pid me) @ ''/task/'' @ show_int (id_tid me))
      else None)"

definition readlink_virtual :: "('h, 'd, 'm) backend \<Rightarrow> u64 \<Rightarrow> u64 \<Rightarrow> string \<Rightarrow> ('h, 'm) kst \<Rightarrow> fate \<times> ('h, 'm) kst" where
  "readlink_virtual E buf cap ap k =
     (case produce (ks_mounts k) ap of
        Inl _ \<Rightarrow> (eno EINVAL, k)
      | Inr vf \<Rightarrow>
          if vf_symlink vf = [] then (eno EINVAL, k)
          else if vf_symlink vf = proc_link_mark then (eno ENOENT, k)
          else write_link E buf cap (vf_symlink vf) k)"

definition do_readlink :: "('h, 'd, 'm) backend \<Rightarrow> regs \<Rightarrow> nat \<Rightarrow> bool \<Rightarrow> ('h, 'm) kst \<Rightarrow> ('h, 'm) handled" where
  "do_readlink E r path_arg at k =
     (let raw = arg_cstr E r path_arg k; buf = arg r (path_arg + 1); cap = arg r (path_arg + 2)
      in if raw = [] then Some (if at then fwd else eno ENOENT, k)
         else if sint cap \<le> 0 then Some (eno EINVAL, k)
         else let (e, k) = dot_prefix_error E r path_arg at k
              in if e \<noteq> E_ok then Some (eno e, k)
                 else do {
                   (ap0, k) \<leftarrow> resolve_arg E r path_arg at False k;
                   let e = guest_prefix_loop E ap0 k;
                   if e \<noteq> E_ok then Some (eno e, k)
                   else let (dir, k) = (if at then dir_of (int_arg r 0) k else ([], k)) in do {
                     pre \<leftarrow> k_absolutize E raw dir k;
                     case proc_self_link (ids_of E k) (normalize_path pre) of
                       Some tgt \<Rightarrow> Some (write_link E buf cap tgt k)
                     | None \<Rightarrow>
                         if empty_path_arg E r path_arg None k then Some (eno ENOENT, k)
                         else do {
                           (ap, k) \<leftarrow> resolve_arg E r path_arg at False k;
                           (tgt, k) \<leftarrow> proc_symlink_target E ap k;
                           let pc = k_lookup E ap False k;
                           if tgt \<noteq> [] then Some (write_link E buf cap tgt k)
                           else case pc_realm pc of
                                  Rhost \<Rightarrow> Some (redirect_to path_arg (pc_host pc), k)
                                | Rvirtual \<Rightarrow> Some (readlink_virtual E buf cap ap k)
                                | Rabsent \<Rightarrow> Some (eno (pc_error pc), k)
                         }
                   }
                 })"

end
