(* ===== verification/Lx_Exec.thy ===== *)
theory Lx_Exec
  imports Lx_Open
begin

text \<open>
  The dispatcher of \<open>abi/syscall.hpp\<close>, the handlers of \<open>execve\<close>, of the working directory, of extended
  attributes and of duplicated descriptors.  Files are read through \<open>be_file\<close> and inspected by the
  functions of \<open>loader/interp.hpp\<close>.
\<close>

unbundle bit_operations_syntax

section \<open>Starting a program\<close>

text \<open>The letters of a short option cluster, and the two long options, that start a transaction.\<close>

definition transaction_option :: "string \<Rightarrow> bool" where
  "transaction_option a =
     (if length a < 2 \<or> hd a \<noteq> CHR ''-'' then False
      else if a ! 1 = CHR ''-'' then a = ''--sync'' \<or> a = ''--upgrade''
      else list_ex (\<lambda>c. c = CHR ''S'' \<or> c = CHR ''U'') (tl a))"

text \<open>The loop over the argument vector, from entry \<open>i\<close> with \<open>n\<close> entries left of the 256.\<close>

primrec transaction_from :: "('h, 'd, 'm) backend \<Rightarrow> u64 \<Rightarrow> ('h, 'm) kst \<Rightarrow> bool \<Rightarrow> nat \<Rightarrow> nat \<Rightarrow> bool" where
  "transaction_from E argv k end_opts i 0 = False"
| "transaction_from E argv k end_opts i (Suc n) =
     (case copy_in (be_mem E) (argv + of_nat (i * 8)) 8 (ks_mem k) of
        None \<Rightarrow> False
      | Some b \<Rightarrow>
          let p = (get_le b :: u64); a = k_cstr E p k
          in if p = 0 then False
             else if i = 0 then transaction_from E argv k end_opts (Suc i) n
             else if a = ''--'' then transaction_from E argv k True (Suc i) n
             else if \<not> end_opts \<and> transaction_option a then True
             else transaction_from E argv k end_opts (Suc i) n)"

definition pacman_is_transaction :: "('h, 'd, 'm) backend \<Rightarrow> regs \<Rightarrow> nat \<Rightarrow> ('h, 'm) kst \<Rightarrow> bool" where
  "pacman_is_transaction E r path_arg k =
     (let argv = arg r (path_arg + 1)
      in if argv = 0 then False else transaction_from E argv k False 0 256)"

definition base_name :: "string \<Rightarrow> string" where
  "base_name p = (case str_rfind slash p of None \<Rightarrow> p | Some i \<Rightarrow> drop (i + 1) p)"

definition exec_extra :: "('h, 'd, 'm) backend \<Rightarrow> regs \<Rightarrow> nat \<Rightarrow> string \<Rightarrow> ('h, 'm) kst \<Rightarrow> string list" where
  "exec_extra E r path_arg ap k =
     (if base_name ap = ''pacman'' \<and> be_pacman_overwrite E \<and> pacman_is_transaction E r path_arg k
      then [''--overwrite'', ''*''] else [])"

text \<open>Where an interpreter named by a file is on the host: its guest path and the host path, which
  is the name itself when the namespace gives it no host file.\<close>

definition interp_on_host :: "('h, 'd, 'm) backend \<Rightarrow> string \<Rightarrow> ('h, 'm) kst \<Rightarrow> (string \<times> string) option" where
  "interp_on_host E interp k = do {
     ap \<leftarrow> k_absolutize E interp [] k;
     let pc = k_lookup E ap True k;
     Some (ap, if pc_realm pc = Rhost then pc_host pc else interp)
   }"

definition exec_script :: "('h, 'd, 'm) backend \<Rightarrow> nat \<Rightarrow> string \<Rightarrow> string \<Rightarrow> string \<Rightarrow> ('h, 'm) kst \<Rightarrow> fate option" where
  "exec_script E path_arg ap sh_interp sh_arg k = do {
     (si_abs, si_host) \<leftarrow> interp_on_host E sh_interp k;
     let si_interp = read_elf_interp (be_file E (ks_host k) si_host);
     let args = (if sh_arg \<noteq> [] then [sh_arg] else []);
     if si_interp \<noteq> [] then do {
       (_, interp_host) \<leftarrow> interp_on_host E si_interp k;
       Some (ExecInterp (int path_arg) interp_host ap (si_abs # args) [])
     } else Some (ExecInterp (int path_arg) si_host ap args [])
   }"

definition exec_host :: "('h, 'd, 'm) backend \<Rightarrow> nat \<Rightarrow> string \<Rightarrow> string list \<Rightarrow> string \<Rightarrow> ('h, 'm) kst \<Rightarrow> fate option" where
  "exec_host E path_arg ap extra host k =
     (let content = be_file E (ks_host k) host;
          interp = read_elf_interp content;
          (sh_interp, sh_arg) = read_shebang content
      in if read_elf_machine (be_host_machine E) content then Some (eno ENOEXEC)
         else if interp \<noteq> [] then
           map_option (\<lambda>(_, interp_host). ExecInterp (int path_arg) interp_host ap [] extra) (interp_on_host E interp k)
         else if sh_interp \<noteq> [] then exec_script E path_arg ap sh_interp sh_arg k
         else Some (redirect_to path_arg host))"

definition path_exec :: "('h, 'd, 'm) backend \<Rightarrow> regs \<Rightarrow> nat \<Rightarrow> ('h, 'm) kst \<Rightarrow> ('h, 'm) handled" where
  "path_exec E r path_arg k =
     (if empty_path_arg E r path_arg None k then Some (eno ENOENT, k)
      else do {
        (ap, k) \<leftarrow> resolve_arg E r path_arg (path_arg = 1) True k;
        let pc = k_lookup E ap True k;
        case pc_realm pc of
          Rhost \<Rightarrow> map_option (\<lambda>f. (f, k)) (exec_host E path_arg ap (exec_extra E r path_arg ap k) (pc_host pc) k)
        | Rvirtual \<Rightarrow> Some (eno EACCES, k)
        | Rabsent \<Rightarrow> Some (eno (pc_error pc), k)
      })"

section \<open>The working directory\<close>

text \<open>What \<open>fstat\<close> says of the descriptor \<open>open_long\<close> returns; \<open>dir\<close> for \<open>O_DIRECTORY\<close>.  The
  descriptors are opened with \<open>O_PATH\<close>, which needs no permission on the file itself.\<close>

definition open_long :: "('h, 'd) host_ops \<Rightarrow> 'h \<Rightarrow> string \<Rightarrow> bool \<Rightarrow> hstat option" where
  "open_long H h p dir =
     (let st = (if length p < 4096 then h_stat H h p
                else if comps_of p = [] then h_stat H h ''/''
                else case walk_dirs H h (h_root H h) (butlast (comps_of p)) of
                       Inl e \<Rightarrow> Inl e
                     | Inr d \<Rightarrow> h_statat H h d (last (comps_of p)))
      in case st of
           Inl _ \<Rightarrow> None
         | Inr st \<Rightarrow> if dir \<and> \<not> s_isdir (hst_mode st) then None else Some st)"

definition host_cwd_is :: "('h, 'd, 'm) backend \<Rightarrow> string \<Rightarrow> ('h, 'm) kst \<Rightarrow> bool" where
  "host_cwd_is E host_dir k =
     (case be_host_tid E of
        None \<Rightarrow> False
      | Some tid \<Rightarrow>
          (case h_stat (be_host E) (ks_host k) (''/proc/'' @ show_int tid @ ''/cwd'') of
             Inl _ \<Rightarrow> False
           | Inr a \<Rightarrow>
               (case open_long (be_host E) (ks_host k) host_dir True of
                  None \<Rightarrow> False
                | Some b \<Rightarrow> hst_dev a = hst_dev b \<and> hst_ino a = hst_ino b)))"

text \<open>The host's own working directory follows where it can.\<close>

definition chdir_on_host :: "('h, 'd, 'm) backend \<Rightarrow> string \<Rightarrow> string \<Rightarrow> ('h, 'm) kst \<Rightarrow> fate" where
  "chdir_on_host E old_cwd hp k =
     (let move = (\<lambda>p. Redirect ((Redirect_to (PathArg 0 p))\<lparr>rd_force_ret := Some 0\<rparr>));
          oc = k_lookup E old_cwd True k;
          base = pc_host oc @ ''/''
      in if length hp < 4096 then move hp
         else if pc_realm oc \<noteq> Rhost \<or> \<not> starts_with hp base \<or> length hp - length base \<ge> 4096
                 \<or> \<not> host_cwd_is E (pc_host oc) k then val 0
         else move (drop (length base) hp))"

definition do_chdir :: "('h, 'd, 'm) backend \<Rightarrow> regs \<Rightarrow> ('h, 'm) kst \<Rightarrow> ('h, 'm) handled" where
  "do_chdir E r k =
     (let old_cwd = cwd (ks_ps k) in do {
        ap \<leftarrow> k_absolutize E (arg_cstr E r 0 k) old_cwd k;
        let pc = k_lookup E ap True k;
        let moved = k_upd_ps (set_cwd ap) k;
        case pc_realm pc of
          Rabsent \<Rightarrow> Some (eno (pc_error pc), k)
        | Rvirtual \<Rightarrow> Some (val 0, moved)
        | Rhost \<Rightarrow>
            (case open_long (be_host E) (ks_host k) (pc_host pc) False of
               None \<Rightarrow> Some (eno ENOENT, k)
             | Some st \<Rightarrow>
                 if \<not> s_isdir (hst_mode st) then Some (eno ENOTDIR, k)
                 else Some (case be_host_tid E of
                              None \<Rightarrow> val 0
                            | Some _ \<Rightarrow> chdir_on_host E old_cwd (pc_host pc) moved, moved))
      })"

definition do_fchdir :: "regs \<Rightarrow> ('h, 'm) kst \<Rightarrow> fate \<times> ('h, 'm) kst" where
  "do_fchdir r k =
     (let (gp, k) = k_path_of_fd (int_arg r 0) k
      in (fwd, if gp \<noteq> [] then k_upd_ps (set_cwd gp) k else k))"

definition do_chroot :: "('h, 'd, 'm) backend \<Rightarrow> regs \<Rightarrow> ('h, 'm) kst \<Rightarrow> ('h, 'm) handled" where
  "do_chroot E r k = do {
     ap \<leftarrow> k_absolutize E (arg_cstr E r 0 k) (cwd (ks_ps k)) k;
     let pc = k_lookup E ap True k;
     Some (case pc_realm pc of
             Rabsent \<Rightarrow> eno (pc_error pc)
           | Rvirtual \<Rightarrow> val 0
           | Rhost \<Rightarrow>
               (case h_stat (be_host E) (ks_host k) (pc_host pc) of
                  Inl _ \<Rightarrow> eno ENOENT
                | Inr st \<Rightarrow> if s_isdir (hst_mode st) then val 0 else eno ENOTDIR), k)
   }"

definition do_getcwd :: "('h, 'd, 'm) backend \<Rightarrow> regs \<Rightarrow> ('h, 'm) kst \<Rightarrow> fate \<times> ('h, 'm) kst" where
  "do_getcwd E r k =
     (let dir = cwd (ks_ps k); need = length dir + 1; cap = unat (arg r 1)
      in if cap = 0 then (eno EINVAL, k)
         else if cap < need then (eno ERANGE, k)
         else write_out E (arg r 0) (map of_char dir @ [0]) (int need) k)"

section \<open>Attributes, sockets, descriptors\<close>

definition privileged_xattr :: "string \<Rightarrow> bool" where
  "privileged_xattr name \<longleftrightarrow>
     starts_with name ''security.'' \<or> starts_with name ''system.'' \<or> starts_with name ''trusted.''"

definition path_xattr ::
  "('h, 'd, 'm) backend \<Rightarrow> regs \<Rightarrow> bool \<Rightarrow> bool \<Rightarrow> nat \<Rightarrow> bool \<Rightarrow> ('h, 'm) kst \<Rightarrow> ('h, 'm) handled" where
  "path_xattr E r for_write follow path_arg at k =
     (if empty_path_arg E r path_arg None k then Some (eno ENOENT, k)
      else do {
        (ap, k) \<leftarrow> resolve_arg E r path_arg at True k;
        if for_write \<and> privileged_xattr (arg_cstr E r 1 k) then Some (val 0, k)
        else let (pc, k) = k_classify E ap for_write follow Copy_leaf k
             in if pc_realm pc = Rvirtual then Some (eno ENOTSUP, k)
                else if pc_host pc = [] then Some (eno (pc_error pc), k)
                else Some (Redirect (Redirect_to (PathArg_guest (int path_arg) (pc_host pc) ap)), k)
      })"

definition do_fxattr_write :: "('h, 'd, 'm) backend \<Rightarrow> regs \<Rightarrow> ('h, 'm) kst \<Rightarrow> fate" where
  "do_fxattr_write E r k = (if privileged_xattr (arg_cstr E r 1 k) then val 0 else fwd)"

definition do_socket :: "regs \<Rightarrow> fate" where
  "do_socket r = (if arg r 0 = 16 \<and> arg r 2 = 9 then eno EPROTONOSUPPORT else fwd)"

definition do_close :: "regs \<Rightarrow> ('h, 'm) kst \<Rightarrow> fate \<times> ('h, 'm) kst" where
  "do_close r k = (fwd, k_upd_ps (unbind_fd (int_arg r 0)) k)"

definition do_dup :: "regs \<Rightarrow> fate" where
  "do_dup r = Forward (Some \<lparr>dm_from = int_arg r 0, dm_close_first = - 1\<rparr>)"

definition do_dup2 :: "regs \<Rightarrow> fate" where
  "do_dup2 r = Forward (Some \<lparr>dm_from = int_arg r 0, dm_close_first = int_arg r 1\<rparr>)"

definition do_fcntl :: "regs \<Rightarrow> fate" where
  "do_fcntl r = (if arg r 1 = 0 \<or> arg r 1 = 1030 then do_dup r else fwd)"

end
