(* ===== verification/Lx_Mutate.thy ===== *)
theory Lx_Mutate
  imports Lx_Exec
begin

text \<open>
  The dispatcher of \<open>abi/syscall.hpp\<close>, the handlers that change the tree: the one-path mutations
  (\<open>mkdir\<close>, \<open>mknod\<close>, \<open>unlink\<close>, \<open>rmdir\<close>, \<open>truncate\<close>, \<open>utimes\<close>), modes and owners, \<open>rename\<close> and
  \<open>link\<close> with the emulation of hard links, \<open>symlink\<close>, and the addresses of local sockets.  As in
  \<open>Lx_Open\<close> the host's FIFOs are assumed to work.
\<close>

unbundle bit_operations_syntax

section \<open>Calls on the host\<close>

definition k_unlink :: "('h, 'd, 'm) backend \<Rightarrow> string \<Rightarrow> ('h, 'm) kst \<Rightarrow> errno option \<times> ('h, 'm) kst" where
  "k_unlink E p k = k_call (host_call.Unlink p) (be_unlink E p) k"

definition k_rename :: "('h, 'd, 'm) backend \<Rightarrow> string \<Rightarrow> string \<Rightarrow> u32 \<Rightarrow> ('h, 'm) kst \<Rightarrow> errno option \<times> ('h, 'm) kst" where
  "k_rename E p q fl k = k_call (host_call.Rename p q) (be_rename E p q fl) k"

definition k_create :: "('h, 'd, 'm) backend \<Rightarrow> string \<Rightarrow> bool \<Rightarrow> u32 \<Rightarrow> ('h, 'm) kst \<Rightarrow> errno option \<times> ('h, 'm) kst" where
  "k_create E p excl m k = k_call (Create p m) (be_create E p excl m) k"

definition k_link :: "('h, 'd, 'm) backend \<Rightarrow> string \<Rightarrow> string \<Rightarrow> ('h, 'm) kst \<Rightarrow> errno option \<times> ('h, 'm) kst" where
  "k_link E p q k = k_call (host_call.Link p q) (be_link E p q) k"

definition k_classify_name ::
  "('h, 'd, 'm) backend \<Rightarrow> string \<Rightarrow> bool \<Rightarrow> bool \<Rightarrow> write_intent \<Rightarrow> ('h, 'm) kst \<Rightarrow> path_class \<times> ('h, 'm) kst" where
  "k_classify_name E ap for_write follow wi k =
     (let fn = ks_files k;
          (pc, st) = classify_name (be_host E) (fn_mounts fn) ap for_write follow wi (fn_ns fn)
      in (pc, k\<lparr>ks_files := fn\<lparr>fn_ns := st\<rparr>\<rparr>))"

text \<open>The answer of a call of the dispatcher: \<open>0\<close> or the host's error.\<close>

definition answer :: "errno option \<Rightarrow> fate" where
  "answer e = (case e of None \<Rightarrow> val 0 | Some e \<Rightarrow> eno e)"

definition host_target_exists :: "('h, 'd, 'm) backend \<Rightarrow> 'h \<Rightarrow> string \<Rightarrow> errno option" where
  "host_target_exists E h p =
     (if p = [] then Some ENOENT else map_option access_errno (be_access E h p F_OK))"

section \<open>Descriptors opened with O_PATH\<close>

text \<open>\<open>fgets\<close> into a buffer of \<open>n + 2\<close> bytes: the pieces it returns, one after the other.\<close>

function fgets_pieces :: "nat \<Rightarrow> string \<Rightarrow> string list" where
  "fgets_pieces n s =
     (if s = [] then []
      else let body = takeWhile (\<lambda>c. c \<noteq> newline) (take (Suc n) s);
               piece = (if length body < length (take (Suc n) s) then body @ [newline] else body)
           in piece # fgets_pieces n (drop (length piece) s))"
  by pat_completeness auto
termination
proof (relation "measure (\<lambda>(n, s). length s)", simp)
  fix n and s body piece :: string
  assume s: "s \<noteq> []" and b: "body = takeWhile (\<lambda>c. c \<noteq> newline) (take (Suc n) s)"
    and p: "piece = (if length body < length (take (Suc n) s) then body @ [newline] else body)"
  have "length piece > 0"
    using s by (auto simp: p b)
  then show "((n, drop (length piece) s), (n, s)) \<in> measure (\<lambda>(n, s). length s)"
    using s by simp
qed

declare fgets_pieces.simps [simp del]

text \<open>\<open>%llo\<close> of \<open>sscanf\<close>.\<close>

definition scan_octal :: "string \<Rightarrow> u64 option" where
  "scan_octal s0 =
     (let s = skip_space s0;
          neg = (s \<noteq> [] \<and> hd s = CHR ''-'');
          ds = takeWhile (is_digit 8) (if s \<noteq> [] \<and> (hd s = CHR ''-'' \<or> hd s = CHR ''+'') then tl s else s);
          v = read_digits 8 ds
      in if ds = [] then None
         else if v \<ge> 2 ^ 64 then Some (- 1)
         else Some (if neg then - of_nat v else of_nat v))"

definition scan_flags :: "string \<Rightarrow> u64 option" where
  "scan_flags line = (if starts_with line ''flags:'' then scan_octal (drop 6 line) else None)"

definition fd_is_o_path :: "('h, 'd, 'm) backend \<Rightarrow> int \<Rightarrow> ('h, 'm) kst \<Rightarrow> bool" where
  "fd_is_o_path E fd k =
     (case be_host_tid E of
        None \<Rightarrow> False
      | Some tid \<Rightarrow>
          (case be_file E (ks_host k) (''/proc/'' @ show_int tid @ ''/fdinfo/'' @ show_int fd) of
             None \<Rightarrow> False
           | Some b \<Rightarrow>
               (case List.map_filter scan_flags (fgets_pieces 126 (chars b)) of
                  [] \<Rightarrow> False
                | fl # _ \<Rightarrow> fl AND 0x200000 \<noteq> 0)))"

section \<open>Hard links\<close>

definition host_links_work :: "('h, 'd, 'm) backend \<Rightarrow> string \<Rightarrow> ('h, 'm) kst \<Rightarrow> bool \<times> ('h, 'm) kst" where
  "host_links_work E near k =
     (if be_force_link_emulation E then (False, k)
      else case str_rfind slash near of
             None \<Rightarrow> (False, k)
           | Some i \<Rightarrow>
               let dir = take i near; a = dir @ ''/.lx-linkprobe-a''; b = dir @ ''/.lx-linkprobe-b''
               in (case h_stat (be_host E) (ks_host k) dir of
                    Inl _ \<Rightarrow> (False, k)
                  | Inr dst \<Rightarrow>
                      (case map_of (ks_links_work k) (hst_dev dst) of
                         Some w \<Rightarrow> (w, k)
                       | None \<Rightarrow>
                           let (_, k) = k_unlink E a k; (_, k) = k_unlink E b k; (e, k) = k_create E a True 0x180 k
                           in if e \<noteq> None then (False, k)
                              else let (e, k) = k_link E a b k; (_, k) = k_unlink E a k; (_, k) = k_unlink E b k
                                   in (e = None,
                                       k\<lparr>ks_links_work := AList.update (hst_dev dst) (e = None) (ks_links_work k)\<rparr>))))"

definition unlink_with_links :: "('h, 'd, 'm) backend \<Rightarrow> string \<Rightarrow> ('h, 'm) kst \<Rightarrow> fate \<times> ('h, 'm) kst" where
  "unlink_with_links E name k =
     (if backing_of (ks_links k) name \<noteq> None then
        (case k_unlink E name k of
           (Some e, k) \<Rightarrow> (eno e, k)
         | (None, k) \<Rightarrow> (val 0, k_upd_links (lt_drop name) k))
      else let (heir, lt) = lt_promote name (ks_links k); k = k_upd_links (\<lambda>_. lt) k
           in case heir of
                Some h \<Rightarrow> (case k_rename E name h 0 k of (e, k) \<Rightarrow> (answer e, k))
              | None \<Rightarrow> (case k_unlink E name k of (e, k) \<Rightarrow> (answer e, k)))"

section \<open>One path\<close>

definition path_mut ::
  "('h, 'd, 'm) backend \<Rightarrow> regs \<Rightarrow> nat \<Rightarrow> bool \<Rightarrow> write_intent \<Rightarrow> bool \<Rightarrow> bool \<Rightarrow> ('h, 'm) kst \<Rightarrow> ('h, 'm) handled" where
  "path_mut E r path_arg at wi strict_parent rmdir_syscall k =
     (if empty_path_arg E r path_arg None k then Some (eno ENOENT, k)
      else let (e, k) = dot_prefix_error E r path_arg at k; raw = arg_cstr E r path_arg k; dt = dot_tail raw
      in if e \<noteq> E_ok then Some (eno e, k)
      else if wi = Remove \<and> dt \<noteq> Tail_none then do {
        (ap, k) \<leftarrow> resolve_arg E r path_arg at True k;
        let (dotpc, k) = k_classify E ap True False wi k;
        let rmd = removedir_flag r path_arg at rmdir_syscall;
        Some (if dot_traversal_denied E (ks_host k) raw (pc_host dotpc) then eno EACCES
              else if dt = Tail_dot then eno (if rmd then EINVAL else EISDIR)
              else eno (if rmd then ENOTEMPTY else EISDIR), k)
      } else do {
        (ap, k) \<leftarrow> resolve_arg E r path_arg at True k;
        let (pc, k) = k_classify E ap True False wi k;
        if dot_traversal_denied E (ks_host k) raw (pc_host pc) then Some (eno EACCES, k)
        else if guest_prefix_loop E ap k \<noteq> E_ok then Some (eno (guest_prefix_loop E ap k), k)
        else if pc_realm pc = Rvirtual then
          Some (if wi = Parents_only then eno (virtual_mut_errno ap VMut_exists)
                else if wi = Copy_leaf \<and> virtual_is_writable ap then val 0
                else eno (virtual_mut_errno ap VMut_remove), k)
        else let k = (if pc_whiteout pc then k_upd_meta (ms_forget ap) (k_upd_wo (add_whiteout ap) k) else k)
        in if pc_host pc = [] then Some (if pc_whiteout pc then val 0 else eno (pc_error pc), k)
        else let k = (if wi = Remove then k_upd_meta (ms_forget ap) k else k)
        in if wi = Remove \<and> \<not> lt_empty (ks_links k)
              \<and> (backing_of (ks_links k) (pc_host pc) \<noteq> None \<or> has_aliases (ks_links k) (pc_host pc))
           then Some (unlink_with_links E (pc_host pc) k)
           else Some (Redirect ((Redirect_to (PathArg (int path_arg) (pc_host pc)))
                        \<lparr>rd_make_parents := (wi = Parents_only \<and> \<not> strict_parent)\<rparr>), k)
      })"

definition do_utimes ::
  "('h, 'd, 'm) backend \<Rightarrow> regs \<Rightarrow> nat \<Rightarrow> bool \<Rightarrow> nat option \<Rightarrow> ('h, 'm) kst \<Rightarrow> ('h, 'm) handled" where
  "do_utimes E r path_arg at flags_arg k =
     (let null_path = null_path_arg r path_arg;
          empty_with_flag = (case flags_arg of
                               None \<Rightarrow> False
                             | Some f \<Rightarrow> empty_cstr_arg E r path_arg k \<and> has_at (arg r f) at_empty_path)
      in if null_path \<or> empty_with_flag then
           Some (if \<not> at then eno EFAULT
                 else if int_arg r 0 = kAtFdCwd then eno (if null_path then EFAULT else ENOENT)
                 else fwd, k)
         else path_mut E r path_arg at Copy_leaf False False k)"

section \<open>Modes and owners\<close>

text \<open>A name that is itself a symbolic link has no mode to change.\<close>

definition names_symlink :: "('h, 'd, 'm) backend \<Rightarrow> string \<Rightarrow> ('h, 'm) kst \<Rightarrow> bool" where
  "names_symlink E ap k \<longleftrightarrow>
     (let lc = k_lookup E ap False k
      in pc_realm lc = Rhost \<and> host_path_is_symlink E (ks_host k) (pc_host lc))"

text \<open>\<open>chmod\<close> on the host, and the mode the inode has afterwards, \<open>0xffffffff\<close> if unknown.\<close>

definition landed_mode :: "('h, 'd, 'm) backend \<Rightarrow> string \<Rightarrow> ('h, 'm) kst \<Rightarrow> u32" where
  "landed_mode E host k =
     (case h_lstat (be_host E) (ks_host k) host of Inl _ \<Rightarrow> no_id | Inr st \<Rightarrow> hst_mode st)"

text \<open>The part of \<open>do_chmod\<close> after the path \<open>ap\<close> is known.\<close>

definition chmod_named :: "('h, 'd, 'm) backend \<Rightarrow> string \<Rightarrow> u32 \<Rightarrow> ('h, 'm) kst \<Rightarrow> fate \<times> ('h, 'm) kst" where
  "chmod_named E ap mode k =
     (let pc = k_lookup E ap True k
      in if pc_realm pc = Rvirtual then (eno (virtual_mut_errno ap VMut_meta), k)
         else if pc_realm pc = Rabsent then
           (eno (if pc_error pc = ENOENT then resolve_failure_errno E ap (pc_error pc) k else pc_error pc), k)
         else if \<not> parent_is_dir E (ks_host k) (pc_host pc) then (eno ENOTDIR, k)
         else case host_target_exists E (ks_host k) (pc_host pc) of
                Some why \<Rightarrow> (eno why, k)
              | None \<Rightarrow>
                  let (wc, k) = k_classify E ap True False Copy_leaf k; host = pc_host wc
                  in if host = [] \<or> host_path_is_symlink E (ks_host k) host then (val 0, k_upd_meta (set_mode ap mode no_id) k)
                     else let keep = (if host_path_is_regular E (ks_host k) host then 0x180 else 0)
                          in (case k_chmod E host ((mode AND kPermMask) OR keep) k of
                               (None, k) \<Rightarrow> (val 0, k_upd_meta (set_mode ap mode (landed_mode E host k)) k)
                             | (Some e, k) \<Rightarrow>
                                 if e = ENOENT \<or> e = ENOTDIR then (eno e, k)
                                 else (val 0, k_upd_meta (set_mode ap mode no_id) k)))"

text \<open>The form of \<open>fchmodat2\<close> that names an open descriptor.\<close>

definition chmod_fd :: "('h, 'd, 'm) backend \<Rightarrow> int \<Rightarrow> u32 \<Rightarrow> ('h, 'm) kst \<Rightarrow> fate \<times> ('h, 'm) kst" where
  "chmod_fd E fd mode k =
     (let (gp, k) = k_path_of_fd fd k
      in if gp = [] then
           (case open_tracee_fd E fd k of
              None \<Rightarrow> (eno EBADF, k)
            | Some sfd \<Rightarrow> (case k_chmod E sfd (mode AND kPermMask) k of (e, k) \<Rightarrow> (answer e, k)))
         else if fd_is_o_path E fd k \<and> names_symlink E gp k then (eno ENOTSUP, k)
         else chmod_named E gp mode k)"

definition do_chmod_call ::
  "('h, 'd, 'm) backend \<Rightarrow> regs \<Rightarrow> nat \<Rightarrow> bool \<Rightarrow> bool \<Rightarrow> ('h, 'm) kst \<Rightarrow> ('h, 'm) handled" where
  "do_chmod_call E r path_arg at with_flags k =
     (let flags = (if with_flags then arg r (path_arg + 2) else 0);
          mode = ucast (arg r (path_arg + 1))
      in if with_flags \<and> empty_cstr_arg E r path_arg k \<and> has_at flags at_empty_path then
           Some (chmod_fd E (int_arg r 0) mode k)
         else if empty_path_arg E r path_arg None k then Some (eno ENOENT, k)
         else let (e, k) = dot_prefix_error E r path_arg at k
         in if e \<noteq> E_ok then Some (eno e, k)
         else do {
           (ap, k) \<leftarrow> resolve_arg E r path_arg at True k;
           if has_at flags at_symlink_nofollow \<and> names_symlink E ap k then Some (eno ENOTSUP, k)
           else Some (chmod_named E ap mode k)
         })"

definition do_fchmod :: "('h, 'd, 'm) backend \<Rightarrow> regs \<Rightarrow> ('h, 'm) kst \<Rightarrow> fate \<times> ('h, 'm) kst" where
  "do_fchmod E r k =
     (let (gp, k) = k_path_of_fd (int_arg r 0) k; mode = ucast (arg r 1)
      in if gp = [] then (fwd, k)
         else if fd_is_o_path E (int_arg r 0) k then (eno EBADF, k)
         else if names_symlink E gp k then (eno ENOTSUP, k)
         else let (wc, k) = k_classify E gp True False Copy_leaf k; host = pc_host wc
              in if host = [] then (val 0, k_upd_meta (set_mode gp mode no_id) k)
                 else case k_chmod E host (mode AND kPermMask) k of
                        (None, k) \<Rightarrow> (val 0, k_upd_meta (set_mode gp mode (landed_mode E host k)) k)
                      | (Some _, k) \<Rightarrow> (val 0, k_upd_meta (set_mode gp mode no_id) k))"

text \<open>Whether the file whose owner is recorded is there; only a backend that can look asks.\<close>

definition chown_refusal :: "('h, 'd, 'm) backend \<Rightarrow> string \<Rightarrow> bool \<Rightarrow> ('h, 'm) kst \<Rightarrow> errno option" where
  "chown_refusal E host follow k =
     (if \<not> parent_is_dir E (ks_host k) host then Some ENOTDIR
      else case be_stat_host_path E of
             None \<Rightarrow> None
           | Some look \<Rightarrow>
               if look (ks_host k) host = None then
                 Some (case host_target_exists E (ks_host k) host of None \<Rightarrow> ENOENT | Some why \<Rightarrow> why)
               else if follow then host_target_exists E (ks_host k) host
               else None)"

definition do_chown ::
  "('h, 'd, 'm) backend \<Rightarrow> regs \<Rightarrow> nat \<Rightarrow> nat \<Rightarrow> nat \<Rightarrow> bool \<Rightarrow> bool \<Rightarrow> ('h, 'm) kst \<Rightarrow> ('h, 'm) handled" where
  "do_chown E r path_arg uid_arg gid_arg at follow k =
     (let own = (\<lambda>p k. k_upd_meta (set_owner p (ucast (arg r uid_arg)) (ucast (arg r gid_arg))) k)
      in if at \<and> empty_cstr_arg E r path_arg k \<and> has_at (arg r 4) at_empty_path then
           let (gp, k) = k_path_of_fd (int_arg r 0) k
           in Some (if gp = [] then (fwd, k) else (val 0, own gp k))
         else if empty_path_arg E r path_arg None k then Some (eno ENOENT, k)
         else do {
           (ap, k) \<leftarrow> resolve_arg E r path_arg at True k;
           let pc = k_lookup E ap follow k;
           Some (case pc_realm pc of
                   Rvirtual \<Rightarrow> (if virtual_is_writable ap then val 0 else eno (virtual_mut_errno ap VMut_meta), k)
                 | Rabsent \<Rightarrow> (eno (pc_error pc), k)
                 | Rhost \<Rightarrow>
                     (case chown_refusal E (pc_host pc) follow k of
                        Some e \<Rightarrow> (eno e, k)
                      | None \<Rightarrow> (val 0, own ap k)))
         })"

definition do_fchown :: "regs \<Rightarrow> ('h, 'm) kst \<Rightarrow> fate \<times> ('h, 'm) kst" where
  "do_fchown r k =
     (let (gp, k) = k_path_of_fd (int_arg r 0) k
      in if gp = [] then (fwd, k)
         else (val 0, k_upd_meta (set_owner gp (ucast (arg r 1)) (ucast (arg r 2))) k))"

end
