(* ===== verification/Lx_Rename.thy ===== *)
theory Lx_Rename
  imports Lx_Mutate
begin

text \<open>
  The dispatcher of \<open>abi/syscall.hpp\<close>, the calls with two names: \<open>rename\<close>, \<open>link\<close> and \<open>symlink\<close> in
  all their forms, the emulation of hard links behind them, the addresses of local sockets, and the
  rewriting of host paths that are too long.
\<close>

unbundle bit_operations_syntax

section \<open>Refusals\<close>

text \<open>The first condition that holds decides.\<close>

fun first_refusal :: "(bool \<times> errno) list \<Rightarrow> errno option" where
  "first_refusal [] = None"
| "first_refusal ((c, e) # rs) = (if c then Some e else first_refusal rs)"

text \<open>A question to the host that answers \<open>None\<close> or a reason, as an entry of such a list.\<close>

definition reason :: "errno option \<Rightarrow> bool \<times> errno" where
  "reason why = (case why of None \<Rightarrow> (False, E_ok) | Some e \<Rightarrow> (True, e))"

definition rename_dot_refusal ::
  "('h, 'd, 'm) backend \<Rightarrow> 'h \<Rightarrow> string \<Rightarrow> string \<Rightarrow> string \<Rightarrow> string \<Rightarrow> errno option" where
  "rename_dot_refusal E h raw1 raw2 ps pd =
     (if dot_tail raw1 = Tail_none \<and> dot_tail raw2 = Tail_none then None
      else first_refusal
        [(\<not> parent_is_dir E h ps \<or> \<not> parent_is_dir E h pd, ENOTDIR),
         reason (parent_resolves E h ps), reason (parent_resolves E h pd), (True, EBUSY)])"

definition rename_slash_refusal ::
  "('h, 'd, 'm) backend \<Rightarrow> 'h \<Rightarrow> string \<Rightarrow> string \<Rightarrow> string \<Rightarrow> string \<Rightarrow> errno option" where
  "rename_slash_refusal E h raw1 raw2 ps pd =
     (if path_syntax raw1 \<noteq> Syntax_needs_dir \<and> path_syntax raw2 \<noteq> Syntax_needs_dir then None
      else first_refusal
        [(\<not> parent_is_dir E h ps, ENOTDIR), reason (host_lexists E h ps),
         (host_path_is_dir E h pd \<and> path_is_ancestor pd ps, ENOTEMPTY),
         (\<not> host_path_is_dir_nofollow E h ps, ENOTDIR)])"

definition link_slash_refusal ::
  "('h, 'd, 'm) backend \<Rightarrow> 'h \<Rightarrow> string \<Rightarrow> string \<Rightarrow> string \<Rightarrow> string \<Rightarrow> errno option" where
  "link_slash_refusal E h raw1 raw2 ps pd =
     (let slash1 = (path_syntax raw1 = Syntax_needs_dir); slash2 = (path_syntax raw2 = Syntax_needs_dir)
      in if \<not> slash1 \<and> \<not> slash2 then None
         else first_refusal
           [reason (host_lexists E h ps), (slash1 \<and> \<not> host_path_is_dir_nofollow E h ps, ENOTDIR),
            (host_lexists E h pd = None, EEXIST), (\<not> host_dir_searchable E h pd, EACCES),
            reason (parent_resolves E h pd), (\<not> parent_is_dir E h pd, ENOTDIR), (slash2, ENOENT),
            (host_path_is_dir E h ps, EPERM), (True, ENOENT)])"

definition virtual_pair_refusal :: "mount list \<Rightarrow> bool \<Rightarrow> string \<Rightarrow> string \<Rightarrow> path_class \<Rightarrow> path_class \<Rightarrow> errno option" where
  "virtual_pair_refusal ms move_meta src dst ps pd =
     (let sv = under_virtual_mount ms src; dv = under_virtual_mount ms dst;
          both_real = (pc_realm ps = Rhost \<and> pc_host ps \<noteq> [] \<and> pc_host pd \<noteq> [])
      in first_refusal
           ([(sv \<noteq> dv, EXDEV)]
            @ (if sv \<and> \<not> both_real
               then [(pc_realm ps = Rabsent, ENOENT),
                     (pc_realm pd = Rvirtual, if move_meta then EPERM else EEXIST), (True, ENOENT)]
               else [])
            @ [(pc_host ps = [], pc_error ps), (pc_host pd = [], pc_error pd)]))"

section \<open>Links\<close>

definition resolve_second :: "('h, 'd, 'm) backend \<Rightarrow> regs \<Rightarrow> nat \<Rightarrow> bool \<Rightarrow> ('h, 'm) kst \<Rightarrow> (string \<times> ('h, 'm) kst) option" where
  "resolve_second E r path_arg at k =
     (let (dir, k) = (if at then dir_of (int_arg r (path_arg - 1)) k else ([], k))
      in map_option (\<lambda>p. (p, k)) (k_absolutize E (arg_cstr E r path_arg k) dir k))"

definition magic_fd_of :: "int \<Rightarrow> string \<Rightarrow> int" where
  "magic_fd_of pid p =
     (case filter (starts_with p) [''/proc/self/fd/'', ''/proc/thread-self/fd/'', ''/proc/'' @ show_int pid @ ''/fd/''] of
        [] \<Rightarrow> - 1
      | pre # _ \<Rightarrow>
          let s = drop (length pre) p
          in if s = [] \<or> length s > 9 \<or> \<not> list_all (is_digit 10) s then - 1 else int (read_digits 10 s))"

text \<open>Copying an open file to a new name, block by block.\<close>

primrec copy_fd_blocks :: "('h, 'd) host_ops \<Rightarrow> string \<Rightarrow> u8 list list \<Rightarrow> 'h world \<Rightarrow> bool \<times> 'h world" where
  "copy_fd_blocks H dst [] w = (True, w)"
| "copy_fd_blocks H dst (b # bs) w =
     (let (n, w) = do_write H dst b w
      in if n \<noteq> int (length b) then (False, w) else copy_fd_blocks H dst bs w)"

definition k_copy :: "('h, 'd, 'm) backend \<Rightarrow> string \<Rightarrow> u8 list list \<Rightarrow> ('h, 'm) kst \<Rightarrow> bool \<times> ('h, 'm) kst" where
  "k_copy E dst bs k =
     (let fn = ks_files k; ns = fn_ns fn; (ok, w) = copy_fd_blocks (be_host E) dst bs (ns_world ns)
      in (ok, k\<lparr>ks_files := fn\<lparr>fn_ns := ns\<lparr>ns_world := w\<rparr>\<rparr>\<rparr>))"

definition emulate_link_from_fd :: "('h, 'd, 'm) backend \<Rightarrow> string \<Rightarrow> string \<Rightarrow> ('h, 'm) kst \<Rightarrow> fate \<times> ('h, 'm) kst" where
  "emulate_link_from_fd E sfd dst k =
     (case h_stat (be_host E) (ks_host k) sfd of
        Inl e \<Rightarrow> (eno e, k)
      | Inr st \<Rightarrow>
          if (case h_lstat (be_host E) (ks_host k) dst of Inl _ \<Rightarrow> False | Inr _ \<Rightarrow> True) then (eno EEXIST, k)
          else (case k_create E dst True (hst_mode st AND 0xFFF) k of
                  (Some e, k) \<Rightarrow> (eno e, k)
                | (None, k) \<Rightarrow>
                    (case h_read (be_host E) (ks_host k) sfd of
                       Inl e \<Rightarrow> (eno e, snd (k_unlink E dst k))
                     | Inr bs \<Rightarrow>
                         (case k_copy E dst bs k of
                            (False, k) \<Rightarrow> (eno (be_errno E (ks_host k)), snd (k_unlink E dst k))
                          | (True, k) \<Rightarrow> (val 0, snd (k_chmod E dst (hst_mode st AND 0xFFF) k))))))"

text \<open>A new name for a file that is there: a placeholder on the host and an entry of the table.\<close>

definition add_alias :: "('h, 'd, 'm) backend \<Rightarrow> string \<Rightarrow> (link_table \<Rightarrow> string) \<Rightarrow> ('h, 'm) kst \<Rightarrow> fate \<times> ('h, 'm) kst" where
  "add_alias E name backing k =
     (case k_create E name True 0x180 k of
        (Some e, k) \<Rightarrow> (eno e, k)
      | (None, k) \<Rightarrow> (val 0, k_upd_links (\<lambda>lt. lt_add name (backing lt) lt) k))"

definition link_fd_to :: "('h, 'd, 'm) backend \<Rightarrow> string \<Rightarrow> string \<Rightarrow> ('h, 'm) kst \<Rightarrow> fate \<times> ('h, 'm) kst" where
  "link_fd_to E sfd dst k =
     (case h_stat (be_host E) (ks_host k) sfd of
        Inl e \<Rightarrow> (eno e, k)
      | Inr st \<Rightarrow>
          if s_isdir (hst_mode st) then (eno EPERM, k)
          else if (case h_lstat (be_host E) (ks_host k) dst of Inl _ \<Rightarrow> False | Inr _ \<Rightarrow> True) then (eno EEXIST, k)
          else let (works, k) = host_links_work E dst k
               in if works then (case k_link E sfd dst k of (e, k) \<Rightarrow> (answer e, k))
                  else if hst_nlink st = 0 then emulate_link_from_fd E sfd dst k
                  else (case h_readlink (be_host E) (ks_host k) sfd of
                          Inl _ \<Rightarrow> (eno ENOENT, k)
                        | Inr tgt \<Rightarrow>
                            if tgt = [] then (eno ENOENT, k)
                            else add_alias E dst (\<lambda>lt. lt_resolve lt (take 4095 tgt)) k))"

definition link_from_fd :: "('h, 'd, 'm) backend \<Rightarrow> regs \<Rightarrow> int \<Rightarrow> nat \<Rightarrow> bool \<Rightarrow> ('h, 'm) kst \<Rightarrow> ('h, 'm) handled" where
  "link_from_fd E r fd a2 at k =
     (if empty_path_arg E r a2 None k then Some (eno ENOENT, k)
      else do {
        (dst, k) \<leftarrow> resolve_second E r a2 at k;
        let (pd, k) = k_classify E dst True False Parents_only k;
        if pc_realm pd \<noteq> Rhost \<or> pc_host pd = [] then Some (eno EXDEV, k)
        else case open_tracee_fd E fd k of
               None \<Rightarrow> Some (eno EBADF, k)
             | Some sfd \<Rightarrow> Some (link_fd_to E sfd (pc_host pd) k)
      })"

section \<open>Renaming names the link table knows\<close>

text \<open>The table after an heir that took over the data of \<open>to\<close> gave it back.\<close>

definition give_back :: "string \<Rightarrow> string \<Rightarrow> link_table \<Rightarrow> link_table" where
  "give_back heir to lt = lt_add heir to (rename_prefix heir to lt)"

definition swap_names :: "string \<Rightarrow> string \<Rightarrow> link_table \<Rightarrow> link_table" where
  "swap_names from to lt =
     (let mark = from @ [CHR 0x01] @ ''lx-swap''
      in rename_prefix mark to (rename_prefix to from (rename_prefix from mark lt)))"

text \<open>Moving the data at \<open>to\<close> onto another of its names; the heir, if there is one.\<close>

definition move_to_heir :: "('h, 'd, 'm) backend \<Rightarrow> string \<Rightarrow> ('h, 'm) kst \<Rightarrow> (errno + string option) \<times> ('h, 'm) kst" where
  "move_to_heir E to k =
     (let (heir, lt) = lt_promote to (ks_links k); k = k_upd_links (\<lambda>_. lt) k
      in case heir of
           None \<Rightarrow> (Inr None, k)
         | Some h \<Rightarrow>
             (case k_rename E to h 0 k of
                (Some e, k) \<Rightarrow> (Inl e, k_upd_links (give_back h to) k)
              | (None, k) \<Rightarrow> (Inr (Some h), k)))"

definition undo_heir :: "('h, 'd, 'm) backend \<Rightarrow> string \<Rightarrow> string option \<Rightarrow> ('h, 'm) kst \<Rightarrow> ('h, 'm) kst" where
  "undo_heir E to heir k =
     (case heir of
        None \<Rightarrow> k
      | Some h \<Rightarrow>
          let (_, k) = k_rename E h to 0 k; (_, k) = k_create E h False 0x180 k
          in k_upd_links (give_back h to) k)"

text \<open>The rename itself and the table after it; \<open>to_exists\<close> as seen before.\<close>

definition rename_in_table ::
  "('h, 'd, 'm) backend \<Rightarrow> string \<Rightarrow> string \<Rightarrow> u32 \<Rightarrow> bool \<Rightarrow> string option \<Rightarrow> ('h, 'm) kst \<Rightarrow> fate \<times> ('h, 'm) kst" where
  "rename_in_table E from to flags to_exists heir k =
     (let exchange = (flags AND 2 \<noteq> 0); (e, k) = k_rename E from to flags k
      in case e of
           Some e \<Rightarrow> (eno e, undo_heir E to heir k)
         | None \<Rightarrow>
             let gone = (\<not> exchange \<and> to_exists \<and> backing_of (ks_links k) to \<noteq> None);
                 k = (if gone then k_upd_links (lt_drop to) k else k)
             in (val 0, k_upd_links (if exchange then swap_names from to else rename_prefix from to) k))"

definition rename_with_links ::
  "('h, 'd, 'm) backend \<Rightarrow> regs \<Rightarrow> string \<Rightarrow> string \<Rightarrow> nat option \<Rightarrow> ('h, 'm) kst \<Rightarrow> fate \<times> ('h, 'm) kst" where
  "rename_with_links E r from to flags_arg k =
     (let flags = (case flags_arg of None \<Rightarrow> 0 | Some f \<Rightarrow> ucast (arg r f));
          exchange = (flags AND 2 \<noteq> 0);
          here = h_lstat (be_host E) (ks_host k) from;
          there = h_lstat (be_host E) (ks_host k) to;
          from_dir = (case here of Inl _ \<Rightarrow> False | Inr st \<Rightarrow> s_isdir (hst_mode st));
          to_dir = (case there of Inl _ \<Rightarrow> False | Inr st \<Rightarrow> s_isdir (hst_mode st));
          to_exists = (case there of Inl _ \<Rightarrow> False | Inr _ \<Rightarrow> True);
          replaces = (\<not> exchange \<and> to_exists \<and> to \<noteq> from)
      in case here of
           Inl e \<Rightarrow> (eno e, k)
         | Inr _ \<Rightarrow>
             if flags AND 1 \<noteq> 0 \<and> to_exists then (eno EEXIST, k)
             else if to_exists \<and> \<not> exchange \<and> lt_resolve (ks_links k) from = lt_resolve (ks_links k) to then (val 0, k)
             else if replaces \<and> from_dir \<and> \<not> to_dir then (eno ENOTDIR, k)
             else let (moved, k) = (if replaces \<and> backing_of (ks_links k) to = None then move_to_heir E to k
                                    else (Inr None, k))
                  in (case moved of
                        Inl e \<Rightarrow> (eno e, k)
                      | Inr heir \<Rightarrow> rename_in_table E from to flags to_exists heir k))"

section \<open>Two paths\<close>

text \<open>The descriptor that the source of a \<open>linkat\<close> stands for, if it does.\<close>

definition link_source_fd ::
  "('h, 'd, 'm) backend \<Rightarrow> regs \<Rightarrow> nat \<Rightarrow> bool \<Rightarrow> nat option \<Rightarrow> ('h, 'm) kst \<Rightarrow> (int \<times> ('h, 'm) kst) option" where
  "link_source_fd E r a1 at link_flags_arg k =
     (case link_flags_arg of
        None \<Rightarrow> Some (- 1, k)
      | Some f \<Rightarrow>
          if empty_cstr_arg E r a1 k \<and> has_at (arg r f) at_empty_path then Some (int_arg r 0, k)
          else if has_at (arg r f) at_symlink_follow then
            map_option (\<lambda>(p, k). (magic_fd_of (id_pid (ids_of E k)) p, k)) (resolve_arg E r a1 at True k)
          else Some (- 1, k))"

text \<open>The walk to both names, the source first.\<close>

definition walk_refusal ::
  "('h, 'd, 'm) backend \<Rightarrow> regs \<Rightarrow> nat \<Rightarrow> nat \<Rightarrow> bool \<Rightarrow> bool \<Rightarrow> string \<Rightarrow> string \<Rightarrow> path_class \<Rightarrow> path_class \<Rightarrow>
   ('h, 'm) kst \<Rightarrow> errno option \<times> ('h, 'm) kst" where
  "walk_refusal E r a1 a2 at move_meta src dst ps pd k =
     (let h = ks_host k; raw1 = arg_cstr E r a1 k; raw2 = arg_cstr E r a2 k;
          gone = (\<not> move_meta \<and> pc_host ps \<noteq> [] \<and> pc_realm ps = Rhost \<and> host_lexists E h (pc_host ps) \<noteq> None);
          (e1, k) = dot_prefix_error E r a1 at k;
          (e2, k) = (if gone then (E_ok, k) else dot_prefix_error E r a2 at k);
          loop = guest_prefix_loop E
      in (first_refusal
            [(e1 \<noteq> E_ok, e1), (loop src k \<noteq> E_ok, loop src k), (e2 \<noteq> E_ok, e2),
             (dot_traversal_denied E h raw1 (pc_host ps), EACCES),
             (\<not> host_dir_searchable E h (pc_host ps), EACCES),
             (\<not> gone \<and> dot_traversal_denied E h raw2 (pc_host pd), EACCES),
             (\<not> gone \<and> \<not> host_dir_searchable E h (pc_host pd), EACCES),
             (host_lexists E h (pc_host ps) = None \<and> loop dst k \<noteq> E_ok, loop dst k)], k))"

definition emulate_link :: "('h, 'd, 'm) backend \<Rightarrow> string \<Rightarrow> string \<Rightarrow> ('h, 'm) kst \<Rightarrow> fate \<times> ('h, 'm) kst" where
  "emulate_link E src dst k =
     (case h_lstat (be_host E) (ks_host k) src of
        Inl e \<Rightarrow> (eno e, k)
      | Inr st \<Rightarrow> if s_isdir (hst_mode st) then (eno EPERM, k) else add_alias E dst (\<lambda>_. src) k)"

text \<open>Carrying the call out, once nothing stands against it.\<close>

definition two_paths_done ::
  "('h, 'd, 'm) backend \<Rightarrow> regs \<Rightarrow> nat \<Rightarrow> nat \<Rightarrow> bool \<Rightarrow> nat option \<Rightarrow> string \<Rightarrow> string \<Rightarrow> string \<Rightarrow> string \<Rightarrow>
   ('h, 'm) kst \<Rightarrow> fate \<times> ('h, 'm) kst" where
  "two_paths_done E r a1 a2 move_meta rename_flags_arg src dst ps pd k =
     (let plain = Redirect (with_second (PathArg (int a2) pd) (Redirect_to (PathArg (int a1) ps)))
      in if move_meta then
           let k = k_upd_meta (ms_rename src dst) k
           in if \<not> lt_empty (ks_links k) \<and> (lt_touches ps (ks_links k) \<or> lt_touches pd (ks_links k))
              then rename_with_links E r ps pd rename_flags_arg k else (plain, k)
         else let (works, k) = host_links_work E pd k
              in if works then (plain, k) else emulate_link E ps pd k)"

definition path_mut2 ::
  "('h, 'd, 'm) backend \<Rightarrow> regs \<Rightarrow> nat \<Rightarrow> nat \<Rightarrow> bool \<Rightarrow> bool \<Rightarrow> nat option \<Rightarrow> nat option \<Rightarrow> ('h, 'm) kst \<Rightarrow>
   ('h, 'm) handled" where
  "path_mut2 E r a1 a2 at move_meta link_flags_arg rename_flags_arg k = do {
     (fd, k) \<leftarrow> link_source_fd E r a1 at link_flags_arg k;
     if fd \<ge> 0 then link_from_fd E r fd a2 at k
     else if empty_path_arg E r a1 None k \<or> empty_path_arg E r a2 None k then Some (eno ENOENT, k)
     else do {
       (src, k) \<leftarrow> resolve_arg E r a1 at True k;
       (dst, k) \<leftarrow> resolve_second E r a2 at k;
       let classify2 = (if move_meta then k_classify_name E else k_classify E);
       let (ps, k) = classify2 src True False Copy_leaf k;
       let (pd, k) = classify2 dst True False Parents_only k;
       let (refused, k) = walk_refusal E r a1 a2 at move_meta src dst ps pd k;
       let raw1 = arg_cstr E r a1 k;
       let raw2 = arg_cstr E r a2 k;
       let h = ks_host k;
       Some (case first_refusal
                    ([reason refused]
                     @ (if move_meta
                        then [reason (rename_dot_refusal E h raw1 raw2 (pc_host ps) (pc_host pd)),
                              reason (rename_slash_refusal E h raw1 raw2 (pc_host ps) (pc_host pd))]
                        else [reason (link_slash_refusal E h raw1 raw2 (pc_host ps) (pc_host pd))])
                     @ [reason (virtual_pair_refusal (ks_mounts k) move_meta src dst ps pd)]) of
               Some e \<Rightarrow> (eno e, k)
             | None \<Rightarrow> two_paths_done E r a1 a2 move_meta rename_flags_arg src dst (pc_host ps) (pc_host pd) k)
     }
   }"

section \<open>Symbolic links\<close>

text \<open>The path of a link to be made.\<close>

definition symlink_name :: "('h, 'd, 'm) backend \<Rightarrow> regs \<Rightarrow> nat \<Rightarrow> bool \<Rightarrow> ('h, 'm) kst \<Rightarrow> (string \<times> ('h, 'm) kst) option" where
  "symlink_name E r link_arg at k =
     (if at then resolve_second E r link_arg True k
      else map_option (\<lambda>p. (p, k)) (k_absolutize E (arg_cstr E r link_arg k) (cwd (ks_ps k)) k))"

definition symlink_slash_errno :: "('h, 'd, 'm) backend \<Rightarrow> string \<Rightarrow> ('h, 'm) kst \<Rightarrow> errno" where
  "symlink_slash_errno E name k =
     (let pc = k_lookup E (strip_tail name) False k;
          seen = (case be_stat_host_path E of None \<Rightarrow> False | Some look \<Rightarrow> look (ks_host k) (pc_host pc) \<noteq> None)
      in if pc_realm pc = Rvirtual then EEXIST
         else if pc_realm pc = Rhost \<and> pc_host pc \<noteq> [] \<and> seen then EEXIST
         else if pc_realm pc = Rhost \<and> \<not> host_dir_searchable E (ks_host k) (pc_host pc) then EACCES
         else ENOENT)"

definition path_symlink ::
  "('h, 'd, 'm) backend \<Rightarrow> regs \<Rightarrow> nat \<Rightarrow> nat \<Rightarrow> bool \<Rightarrow> ('h, 'm) kst \<Rightarrow> ('h, 'm) handled" where
  "path_symlink E r target_arg link_arg at k =
     (if empty_path_arg E r link_arg None k \<or> empty_path_arg E r target_arg None k then Some (eno ENOENT, k)
      else let (e, k) = dot_prefix_error E r link_arg at k; raw = arg_cstr E r link_arg k
      in if e \<noteq> E_ok then Some (eno e, k)
      else do {
        (name, k) \<leftarrow> symlink_name E r link_arg at k;
        if path_syntax raw = Syntax_needs_dir then Some (eno (symlink_slash_errno E name k), k)
        else let (pc, k) = k_classify E name True False Parents_only k
             in Some (case first_refusal
                             [(dot_traversal_denied E (ks_host k) raw (pc_host pc), EACCES),
                              (guest_prefix_loop E name k \<noteq> E_ok, guest_prefix_loop E name k),
                              (pc_realm pc = Rvirtual, virtual_mut_errno name VMut_exists),
                              (pc_host pc = [], pc_error pc)] of
                        Some e \<Rightarrow> eno e
                      | None \<Rightarrow> redirect_to link_arg (pc_host pc), k)
      })"

section \<open>Local sockets\<close>

text \<open>The name a socket bound in the abstract namespace leaves in the tree.\<close>

definition leave_placeholder :: "('h, 'd, 'm) backend \<Rightarrow> string \<Rightarrow> ('h, 'm) kst \<Rightarrow> ('h, 'm) kst" where
  "leave_placeholder E guest_path k =
     (let (pc, k) = k_classify E guest_path True False Parents_only k
      in if pc_realm pc = Rhost \<and> pc_host pc \<noteq> [] then
           let (_, k) = k_unlink E (pc_host pc) k; (e, k) = k_create E (pc_host pc) True 0x180 k
           in if e = None then k\<lparr>ks_socks := List.insert guest_path (ks_socks k)\<rparr> else k
         else k)"

definition sock_abstract :: "('h, 'd, 'm) backend \<Rightarrow> u64 \<Rightarrow> bool \<Rightarrow> string \<Rightarrow> ('h, 'm) kst \<Rightarrow> fate \<times> ('h, 'm) kst" where
  "sock_abstract E addr for_bind guest_path k =
     (let k = (if for_bind then leave_placeholder E guest_path k else k);
          addr_bytes = CHR 0x00 # abstract_name_for guest_path (be_instance E)
      in if length addr_bytes > 108 then (fwd, k)
         else (SockRewrite (addr + 2) addr_bytes 2 (2 + of_nat (length addr_bytes)), k))"

definition sock_in_tree :: "('h, 'd, 'm) backend \<Rightarrow> u64 \<Rightarrow> bool \<Rightarrow> string \<Rightarrow> ('h, 'm) kst \<Rightarrow> fate \<times> ('h, 'm) kst" where
  "sock_in_tree E addr for_bind guest_path k =
     (let (pc, k) = k_classify E guest_path for_bind False (if for_bind then Parents_only else Copy_leaf) k;
          host = pc_host pc
      in if pc_realm pc = Rvirtual \<or> host = [] then (fwd, k)
         else if length host + 1 > 108 then (fwd, k)
         else let rd = pc_host (k_lookup E guest_path False k);
                  k = (if for_bind then snd (k_unlink E host k) else k);
                  k = (if for_bind \<and> rd \<noteq> [] \<and> rd \<noteq> host then snd (k_unlink E rd k) else k)
              in (SockRewrite (addr + 2) host 2 (2 + of_nat (length host) + 1), k))"

definition do_sockaddr_un :: "('h, 'd, 'm) backend \<Rightarrow> regs \<Rightarrow> bool \<Rightarrow> ('h, 'm) kst \<Rightarrow> ('h, 'm) handled" where
  "do_sockaddr_un E r for_bind k =
     (let addr = arg r 1; len = unat (arg r 2)
      in if addr = 0 \<or> len < 3 then Some (fwd, k)
         else if get_u16 E addr k \<noteq> 1 then Some (fwd, k)
         else case copy_in (be_mem E) (addr + 2) (min (len - 2) 108) (ks_mem k) of
                None \<Rightarrow> Some (fwd, k)
              | Some pb \<Rightarrow>
                  let raw = chars (takeWhile (\<lambda>b. b \<noteq> 0) pb)
                  in if raw = [] then Some (fwd, k)
                     else do {
                       guest_path \<leftarrow> (if hd raw = slash then Some raw else k_absolutize E raw (cwd (ks_ps k)) k);
                       if is_host_side_path (ks_mounts k) guest_path then Some (fwd, k)
                       else if be_socket_ns E = Ns_abstract then Some (sock_abstract E addr for_bind guest_path k)
                       else Some (sock_in_tree E addr for_bind guest_path k)
                     })"

section \<open>Host paths that are too long\<close>

text \<open>The end of the last directory two paths share, counted from \<open>k\<close>.\<close>

fun common_dirs :: "nat \<Rightarrow> nat \<Rightarrow> string \<Rightarrow> string \<Rightarrow> nat" where
  "common_dirs k c (a # as) (b # bs) =
     (if a = b then common_dirs (k + 1) (if a = slash then k + 1 else c) as bs else c)"
| "common_dirs k c _ _ = c"

definition relative_to :: "string \<Rightarrow> string \<Rightarrow> string" where
  "relative_to base host =
     (let common = common_dirs 0 0 base host;
          ups = length (filter (\<lambda>c. c = slash) (drop common base));
          rest = concat (replicate ups ''../'') @ drop common host
      in if rest = [] then ''.'' else rest)"

definition has_dirfd :: "sysno \<Rightarrow> bool" where
  "has_dirfd sc \<longleftrightarrow>
     sc \<in> {SYS_openat, SYS_openat2, SYS_mkdirat, SYS_mknodat, SYS_unlinkat, SYS_newfstatat, SYS_statx,
       SYS_fchmodat, SYS_fchmodat2, SYS_fchownat, SYS_faccessat, SYS_faccessat2, SYS_utimensat,
       SYS_readlinkat, SYS_symlinkat, SYS_linkat, SYS_renameat, SYS_renameat2}"

definition rebase_on_dirfd ::
  "('h, 'd, 'm) backend \<Rightarrow> sysno \<Rightarrow> regs \<Rightarrow> nat \<Rightarrow> string \<Rightarrow> ('h, 'm) kst \<Rightarrow> string option \<times> ('h, 'm) kst" where
  "rebase_on_dirfd E sc r path_arg host k =
     (if length host < 4096 then (None, k)
      else let dirfd = (if has_dirfd sc \<and> path_arg \<ge> 1 then int_arg r (path_arg - 1) else kAtFdCwd);
               (gdir, k) = (if dirfd = kAtFdCwd then (cwd (ks_ps k), k)
                            else if dirfd \<ge> 0 then k_path_of_fd dirfd k else ([], k));
               pc = k_lookup E gdir True k;
               base = (if last (pc_host pc) = slash then pc_host pc else pc_host pc @ ''/'');
               rest = relative_to base host
           in (if gdir = [] \<or> pc_realm pc \<noteq> Rhost \<or> pc_host pc = [] then None
               else if length host = length base - 1 \<and> starts_with base host then Some ''.''
               else if length rest \<ge> 4096 then None
               else if dirfd = kAtFdCwd \<and> \<not> host_cwd_is E (pc_host pc) k then None
               else Some rest, k))"

end
