(* ===== verification/Lx_Dirent.thy ===== *)
theory Lx_Dirent
  imports Lx_ProcState Lx_Outcome
begin

text \<open>
  Directory streams as the guest reads them: the encoder of \<open>abi/wire/dirent64.hpp\<close> and the
  handlers \<open>do_getdents64\<close> and \<open>lseek\<close> of \<open>abi/syscall.hpp\<close>.  \<open>parse_dirents\<close> is the reading side of
  the kernel's record format, as a guest's C library walks a buffer by \<open>d_reclen\<close>.  The lemmas show
  that a buffer parses into exactly the entries the stream has advanced over, that reading to the
  end lists every entry once, and that \<open>d_off\<close> is a position \<open>lseek\<close> accepts and resumes from.
\<close>

unbundle bit_operations_syntax

section \<open>The record format\<close>

datatype wire_dtype = DT_unknown | DT_fifo | DT_chr | DT_dir | DT_blk | DT_regular | DT_symlink | DT_sock

primrec dtype_code :: "wire_dtype \<Rightarrow> u8" where
  "dtype_code DT_unknown = 0"
| "dtype_code DT_fifo = 1"
| "dtype_code DT_chr = 2"
| "dtype_code DT_dir = 4"
| "dtype_code DT_blk = 6"
| "dtype_code DT_regular = 8"
| "dtype_code DT_symlink = 10"
| "dtype_code DT_sock = 12"

definition kDirentHeader :: nat where "kDirentHeader = 19"

definition kDirentAlign :: nat where "kDirentAlign = 8"

definition dirent_reclen :: "nat \<Rightarrow> nat" where
  "dirent_reclen namelen =
     unat ((of_nat (kDirentHeader + namelen + 1 + (kDirentAlign - 1)) :: u64)
           AND NOT (of_nat (kDirentAlign - 1)))"

record dirent =
  de_ino :: u64
  de_off :: u64
  de_type :: wire_dtype
  de_name :: string

definition encode_dirent64 :: "u8 list \<Rightarrow> dirent \<Rightarrow> nat \<times> u8 list" where
  "encode_dirent64 out e =
     (let reclen = dirent_reclen (length (de_name e))
      in if length out < reclen then (0, out)
         else let out = store_at 0 (replicate reclen 0) out;
                  out = store_at 0 (put_le 8 (de_ino e)) out;
                  out = store_at 8 (put_le 8 (de_off e)) out;
                  out = store_at 16 (put_le 2 (of_nat reclen :: u64)) out;
                  out = store_at 18 [dtype_code (de_type e)] out;
                  out = store_at kDirentHeader (map of_char (de_name e)) out
              in (reclen, out))"

definition dtype_from_mode :: "u32 \<Rightarrow> wire_dtype" where
  "dtype_from_mode mode =
     (let t = mode AND 0xF000
      in if t = 0x4000 then DT_dir
         else if t = 0x8000 then DT_regular
         else if t = 0xA000 then DT_symlink
         else if t = 0x2000 then DT_chr
         else if t = 0x6000 then DT_blk
         else if t = 0x1000 then DT_fifo
         else if t = 0xC000 then DT_sock
         else DT_unknown)"

section \<open>The handlers\<close>

text \<open>The type of an entry as \<open>is_symlink\<close> and \<open>is_dir\<close> tell it.\<close>

definition entry_dtype :: "virtual_dirent \<Rightarrow> wire_dtype" where
  "entry_dtype e =
     (if vd_type e = Dsymlink then DT_symlink
      else if vd_type e = Ddir then DT_dir
      else DT_regular)"

definition next_dirent :: "dir_stream \<Rightarrow> dirent" where
  "next_dirent ds =
     (let e = ds_entries ds ! ds_pos ds; reclen = dirent_reclen (length (vd_name e))
      in \<lparr>de_ino = (if vd_ino e \<noteq> 0 then vd_ino e else of_nat (ds_pos ds + 1)),
          de_off = ds_off ds + of_nat reclen,
          de_type = entry_dtype e,
          de_name = vd_name e\<rparr>)"

definition stream_step :: "dir_stream \<Rightarrow> dir_stream" where
  "stream_step ds =
     ds\<lparr>ds_off := ds_off ds + of_nat (dirent_reclen (length (vd_name (ds_entries ds ! ds_pos ds)))),
        ds_pos := ds_pos ds + 1\<rparr>"

function getdents_fill :: "nat \<Rightarrow> dir_stream \<Rightarrow> u8 list \<Rightarrow> dir_stream \<times> u8 list" where
  "getdents_fill room ds out =
     (if ds_pos ds < length (ds_entries ds) then
        let e = ds_entries ds ! ds_pos ds;
            reclen = dirent_reclen (length (vd_name e))
        in if length out + reclen > room then (ds, out)
           else let base = length out;
                    out = out @ replicate reclen 0;
                    (n, rec) = encode_dirent64 (drop base out) (next_dirent ds)
                in if n = 0 then (ds, take base out)
                   else getdents_fill room (stream_step ds) (take base out @ rec)
      else (ds, out))"
  by pat_completeness auto
termination
  by (relation "measure (\<lambda>(room, ds, out). length (ds_entries ds) - ds_pos ds)") (auto simp: stream_step_def)

declare getdents_fill.simps [simp del]

text \<open>Storing the stream back under its descriptor: in the source the pointer is into the table.\<close>

definition put_stream :: "int \<Rightarrow> dir_stream \<Rightarrow> proc_state \<Rightarrow> proc_state" where
  "put_stream fd ds s = put_fds ((fds s)\<lparr>ft_dirs := AList.update fd ds (ft_dirs (fds s))\<rparr>) s"

definition do_getdents64 ::
  "'m guest_mem \<Rightarrow> (string \<Rightarrow> virtual_dirent list) \<Rightarrow> regs \<Rightarrow> proc_state \<times> 'm \<Rightarrow> fate \<times> proc_state \<times> 'm" where
  "do_getdents64 M listing r st =
     (let (s, m) = st; fd = int_arg r 0
      in case dir_stream_at listing fd s of
           (None, s) \<Rightarrow> (fwd, s, m)
         | (Some ds, s) \<Rightarrow>
             let (ds, out) = getdents_fill (unat (arg r 2)) ds [];
                 s = put_stream fd ds s
             in if out = [] then
                  if ds_pos ds < length (ds_entries ds) then (eno EINVAL, s, m) else (val 0, s, m)
                else case copy_out M (arg r 1) out m of
                       None \<Rightarrow> (eno EFAULT, s, m)
                     | Some m \<Rightarrow> (val (int (length out)), s, m))"

text \<open>The walk of \<open>lseek\<close> to the first entry whose record starts at or after the target.\<close>

function seek_walk :: "virtual_dirent list \<Rightarrow> u64 \<Rightarrow> nat \<Rightarrow> u64 \<Rightarrow> nat \<times> u64" where
  "seek_walk es target idx cur =
     (if idx < length es \<and> cur < target
      then seek_walk es target (idx + 1) (cur + of_nat (dirent_reclen (length (vd_name (es ! idx)))))
      else (idx, cur))"
  by pat_completeness auto
termination
  by (relation "measure (\<lambda>(es, target, idx, cur). length es - idx)") auto

declare seek_walk.simps [simp del]

definition do_lseek :: "(string \<Rightarrow> virtual_dirent list) \<Rightarrow> regs \<Rightarrow> proc_state \<Rightarrow> fate \<times> proc_state" where
  "do_lseek listing r s =
     (let fd = int_arg r 0
      in case dir_stream_at listing fd s of
           (None, s) \<Rightarrow> (fwd, s)
         | (Some ds, s) \<Rightarrow>
             let off = arg r 1; whence = int_arg r 2;
                 target = (if whence = 0 then off else if whence = 1 then ds_off ds + off else - 1)
             in if sint target < 0 then (eno EINVAL, s)
                else let (idx, cur) = seek_walk (ds_entries ds) target 0 0
                     in (val (sint cur), put_stream fd (ds\<lparr>ds_pos := idx, ds_off := cur\<rparr>) s))"

section \<open>Reading a buffer\<close>

text \<open>The guest's side of the format: the fields at their offsets, the name up to its terminator,
  the next record \<open>d_reclen\<close> bytes further.\<close>

definition read_dirent :: "u8 list \<Rightarrow> u64 \<times> u64 \<times> u8 \<times> string" where
  "read_dirent b =
     (get_le (field_at 0 8 b), get_le (field_at 8 8 b), b ! 18,
      map (\<lambda>x. char_of (unat x)) (takeWhile (\<lambda>x. x \<noteq> 0) (drop 19 b)))"

function parse_dirents :: "u8 list \<Rightarrow> (u64 \<times> u64 \<times> u8 \<times> string) list" where
  "parse_dirents b =
     (let reclen = unat (get_le (field_at 16 2 b) :: u16)
      in if b = [] \<or> reclen = 0 then []
         else read_dirent (take reclen b) # parse_dirents (drop reclen b))"
  by pat_completeness auto
termination
  by (relation "measure length") auto

declare parse_dirents.simps [simp del]

section \<open>Lengths and fields\<close>

lemma dirent_reclen_eq:
  assumes "n < 2 ^ 32"
  shows "dirent_reclen n = 8 * ((n + 27) div 8)"
proof -
  have "unat ((of_nat (n + 27) :: u64) AND NOT (mask 3)) = n + 27 - (n + 27) mod 8"
    using assms by (simp add: unat_and_not_mask unat_of_nat_small del: of_nat_add)
  also have "\<dots> = 8 * ((n + 27) div 8)" by (simp add: minus_mod_eq_mult_div)
  finally show ?thesis
    by (simp add: dirent_reclen_def kDirentHeader_def kDirentAlign_def mask_eq_exp_minus_1 add.commute)
qed

lemma dirent_reclen_bounds:
  assumes "n < 2 ^ 32"
  shows "n + 20 \<le> dirent_reclen n" "dirent_reclen n \<le> n + 27"
proof -
  have "n + 20 \<le> 8 * ((n + 27) div 8)" "8 * ((n + 27) div 8) \<le> n + 27" by presburger+
  then show "n + 20 \<le> dirent_reclen n" "dirent_reclen n \<le> n + 27"
    by (simp_all add: dirent_reclen_eq [OF assms])
qed

lemma store_at_middle:
  "off = length p \<Longrightarrow> length x = length bs \<Longrightarrow> store_at off bs (p @ x @ q) = p @ bs @ q"
  by (simp add: store_at_def)

text \<open>The bytes of one record.\<close>

definition rec_bytes :: "dirent \<Rightarrow> u8 list" where
  "rec_bytes e =
     (let n = length (de_name e); r = dirent_reclen n
      in put_le 8 (de_ino e) @ put_le 8 (de_off e) @ put_le 2 (of_nat r :: u64) @
         [dtype_code (de_type e)] @ map of_char (de_name e) @ replicate (r - 19 - n) 0)"

text \<open>A name a directory can hold: no terminator in it, short enough for the sixteen-bit length.\<close>

definition name_ok :: "string \<Rightarrow> bool" where
  "name_ok s \<longleftrightarrow> CHR 0x00 \<notin> set s \<and> length s < 65000"

lemma name_reclen:
  assumes "name_ok s"
  shows "length s + 20 \<le> dirent_reclen (length s)" "dirent_reclen (length s) < 65536"
  using assms dirent_reclen_bounds [of "length s"] by (simp_all add: name_ok_def)

lemma length_rec_bytes: "name_ok (de_name e) \<Longrightarrow> length (rec_bytes e) = dirent_reclen (length (de_name e))"
  using name_reclen(1) [of "de_name e"] by (simp add: rec_bytes_def Let_def)

lemma encode_dirent64_closed:
  assumes "name_ok (de_name e)" "r = dirent_reclen (length (de_name e))"
  shows "encode_dirent64 (replicate r 0) e = (r, rec_bytes e)"
proof -
  let ?n = "length (de_name e)"
  let ?pad = "replicate (r - 19 - ?n) (0 :: u8)"
  let ?i = "put_le 8 (de_ino e)" and ?o = "put_le 8 (de_off e)" and ?l = "put_le 2 (of_nat r :: u64)"
    and ?t = "[dtype_code (de_type e)]" and ?nm = "map of_char (de_name e) :: u8 list"
  have len: "r = 8 + (8 + (2 + (1 + (?n + (r - 19 - ?n)))))"
    using name_reclen [OF assms(1)] assms(2) by linarith
  let ?z = "\<lambda>k. replicate k (0 :: u8)"
  have z: "replicate r (0 :: u8) = [] @ ?z 8 @ (?z 8 @ ?z 2 @ ?z 1 @ ?z ?n @ ?pad)"
    by (subst len) (simp only: replicate_add append_Nil)
  have s0: "store_at 0 (replicate r 0) (replicate r 0) = replicate r (0 :: u8)"
    by (simp add: store_at_def)
  have s1: "store_at 0 ?i (replicate r 0) = ?i @ ?z 8 @ (?z 2 @ ?z 1 @ ?z ?n @ ?pad)"
    unfolding z by (subst store_at_middle) simp_all
  have s2: "store_at 8 ?o (?i @ ?z 8 @ (?z 2 @ ?z 1 @ ?z ?n @ ?pad)) = (?i @ ?o) @ ?z 2 @ (?z 1 @ ?z ?n @ ?pad)"
    by (subst store_at_middle) simp_all
  have s3: "store_at 16 ?l ((?i @ ?o) @ ?z 2 @ (?z 1 @ ?z ?n @ ?pad)) = (?i @ ?o @ ?l) @ ?z 1 @ (?z ?n @ ?pad)"
    by (subst store_at_middle) simp_all
  have s4: "store_at 18 ?t ((?i @ ?o @ ?l) @ ?z 1 @ (?z ?n @ ?pad)) = (?i @ ?o @ ?l @ ?t) @ ?z ?n @ ?pad"
    by (subst store_at_middle) simp_all
  have s5: "store_at 19 ?nm ((?i @ ?o @ ?l @ ?t) @ ?z ?n @ ?pad) = (?i @ ?o @ ?l @ ?t) @ ?nm @ ?pad"
    by (subst store_at_middle) simp_all
  show ?thesis
    unfolding encode_dirent64_def Let_def kDirentHeader_def assms(2) [symmetric] s0 s1 s2 s3 s4 s5
    by (simp add: rec_bytes_def Let_def assms(2))
qed

section \<open>Reading back\<close>

lemma read_rec_bytes:
  assumes "name_ok (de_name e)"
  shows "read_dirent (rec_bytes e) = (de_ino e, de_off e, dtype_code (de_type e), de_name e)"
proof -
  let ?nm = "map of_char (de_name e) :: u8 list" and ?r = "dirent_reclen (length (de_name e))"
  have pad: "?r - 19 - length (de_name e) = Suc (?r - 20 - length (de_name e))"
    using name_reclen [OF assms] by linarith
  have "takeWhile (\<lambda>x. x \<noteq> 0) (?nm @ 0 # q) = ?nm" for q
    using assms by (subst takeWhile_append2) (auto simp: name_ok_def byte_zero_iff)
  moreover have "drop 19 (rec_bytes e) = ?nm @ replicate (?r - 19 - length (de_name e)) 0"
    by (simp add: rec_bytes_def Let_def)
  ultimately have "takeWhile (\<lambda>x. x \<noteq> 0) (drop 19 (rec_bytes e)) = ?nm" unfolding pad by simp
  moreover have "rec_bytes e ! 18 = dtype_code (de_type e)"
    by (simp add: rec_bytes_def Let_def nth_append)
  ultimately show ?thesis
    by (simp add: read_dirent_def field_at_def get_put_le map_idI char_of_byte o_def)
      (simp add: rec_bytes_def Let_def get_put_le)
qed

lemma parse_rec_bytes:
  assumes "name_ok (de_name e)"
  shows "parse_dirents (rec_bytes e @ b) =
    (de_ino e, de_off e, dtype_code (de_type e), de_name e) # parse_dirents b"
proof -
  let ?r = "dirent_reclen (length (de_name e))"
  note r = name_reclen [OF assms] and len = length_rec_bytes [OF assms]
  have "put_le 2 (of_nat ?r :: u64) = put_le 2 (of_nat ?r :: u16)"
    using r by (simp add: put_le_def unat_of_nat)
  then have "field_at 16 2 (rec_bytes e @ b) = put_le 2 (of_nat ?r :: u16)"
    by (simp add: field_at_def rec_bytes_def Let_def)
  then have "unat (get_le (field_at 16 2 (rec_bytes e @ b)) :: u16) = ?r"
    using r by (simp add: get_put_le unat_of_nat)
  moreover have "rec_bytes e \<noteq> []" "?r \<noteq> 0" using r len by auto
  ultimately show ?thesis
    using len by (subst parse_dirents.simps) (simp add: Let_def read_rec_bytes [OF assms])
qed

lemma parse_dirents_Nil [simp]: "parse_dirents [] = []"
  by (subst parse_dirents.simps) simp

section \<open>Positions in a stream\<close>

definition entry_len :: "virtual_dirent \<Rightarrow> nat" where
  "entry_len e = dirent_reclen (length (vd_name e))"

text \<open>The byte position of entry \<open>i\<close>: the unit of \<open>d_off\<close> and of \<open>lseek\<close>.\<close>

definition cookie :: "virtual_dirent list \<Rightarrow> nat \<Rightarrow> nat" where
  "cookie es i = sum_list (map entry_len (take i es))"

definition stream_ok :: "dir_stream \<Rightarrow> bool" where
  "stream_ok ds \<longleftrightarrow>
     ds_lazy ds = [] \<and> (\<forall>e \<in> set (ds_entries ds). name_ok (vd_name e)) \<and>
     ds_pos ds \<le> length (ds_entries ds) \<and> ds_off ds = of_nat (cookie (ds_entries ds) (ds_pos ds)) \<and>
     cookie (ds_entries ds) (length (ds_entries ds)) < 2 ^ 63"

text \<open>What the guest sees of entry \<open>i\<close>: its inode (or its ordinal, when it has none), the position
  of the entry after it, its type and its name.\<close>

definition dirent_view :: "virtual_dirent list \<Rightarrow> nat \<Rightarrow> u64 \<times> u64 \<times> u8 \<times> string" where
  "dirent_view es i =
     (if vd_ino (es ! i) \<noteq> 0 then vd_ino (es ! i) else of_nat (i + 1),
      of_nat (cookie es (i + 1)), dtype_code (entry_dtype (es ! i)), vd_name (es ! i))"

lemma cookie_0 [simp]: "cookie es 0 = 0"
  by (simp add: cookie_def)

lemma cookie_Suc: "i < length es \<Longrightarrow> cookie es (Suc i) = cookie es i + entry_len (es ! i)"
  by (simp add: cookie_def take_Suc_conv_app_nth)

lemma cookie_mono: "i \<le> j \<Longrightarrow> cookie es i \<le> cookie es j"
proof (induction j)
  case (Suc j)
  show ?case
  proof (cases "i = Suc j")
    case False
    then have "cookie es i \<le> cookie es j" using Suc by simp
    also have "\<dots> \<le> cookie es (Suc j)"
      by (cases "j < length es") (simp_all add: cookie_Suc, simp add: cookie_def)
    finally show ?thesis .
  qed simp
qed simp

lemma entry_len_pos: "name_ok (vd_name e) \<Longrightarrow> 20 \<le> entry_len e"
  using name_reclen [of "vd_name e"] by (simp add: entry_len_def)

lemma cookie_less:
  assumes "\<forall>e \<in> set es. name_ok (vd_name e)" "i < j" "j \<le> length es"
  shows "cookie es i < cookie es j"
proof -
  have "entry_len (es ! i) \<ge> 20" using assms entry_len_pos by simp
  then have "cookie es i < cookie es (Suc i)" using assms by (simp add: cookie_Suc)
  also have "\<dots> \<le> cookie es j" using assms by (intro cookie_mono) simp
  finally show ?thesis .
qed

definition at_entry :: "dir_stream \<Rightarrow> nat \<Rightarrow> dir_stream" where
  "at_entry ds i = ds\<lparr>ds_pos := i, ds_off := of_nat (cookie (ds_entries ds) i)\<rparr>"

lemma at_entry_simps [simp]:
  "ds_entries (at_entry ds i) = ds_entries ds" "ds_pos (at_entry ds i) = i"
  "ds_off (at_entry ds i) = of_nat (cookie (ds_entries ds) i)" "ds_lazy (at_entry ds i) = ds_lazy ds"
  "at_entry (at_entry ds i) j = at_entry ds j"
  by (simp_all add: at_entry_def)

lemma at_entry_here: "stream_ok ds \<Longrightarrow> at_entry ds (ds_pos ds) = ds"
  by (cases ds) (simp add: at_entry_def stream_ok_def)

lemma stream_ok_at: "stream_ok ds \<Longrightarrow> i \<le> length (ds_entries ds) \<Longrightarrow> stream_ok (at_entry ds i)"
  by (simp add: stream_ok_def)

lemma stream_step_at:
  "stream_ok ds \<Longrightarrow> i < length (ds_entries ds) \<Longrightarrow> stream_step (at_entry ds i) = at_entry ds (Suc i)"
  by (cases ds) (simp add: stream_step_def at_entry_def cookie_Suc entry_len_def add.commute)

text \<open>How many entries a buffer takes.\<close>

definition fitting :: "virtual_dirent list \<Rightarrow> nat \<Rightarrow> nat \<Rightarrow> nat" where
  "fitting es i room = length (takeWhile (\<lambda>j. cookie es (Suc j) - cookie es i \<le> room) [i..<length es])"

section \<open>Filling a buffer\<close>

lemma stream_name_ok: "stream_ok ds \<Longrightarrow> i < length (ds_entries ds) \<Longrightarrow> name_ok (vd_name (ds_entries ds ! i))"
  by (simp add: stream_ok_def)

lemma next_dirent_name [simp]: "de_name (next_dirent (at_entry ds i)) = vd_name (ds_entries ds ! i)"
  by (simp add: next_dirent_def Let_def)

lemma parse_next:
  assumes "stream_ok ds" "i < length (ds_entries ds)"
  shows "parse_dirents (rec_bytes (next_dirent (at_entry ds i)) @ b) =
    dirent_view (ds_entries ds) i # parse_dirents b"
  using stream_name_ok [OF assms] assms
  by (subst parse_rec_bytes)
    (simp_all add: next_dirent_def Let_def dirent_view_def cookie_Suc entry_len_def add.commute)

lemma fill_step:
  assumes "stream_ok ds" "i < length (ds_entries ds)"
  shows "getdents_fill room (at_entry ds i) out =
    (if length out + entry_len (ds_entries ds ! i) > room then (at_entry ds i, out)
     else getdents_fill room (at_entry ds (Suc i)) (out @ rec_bytes (next_dirent (at_entry ds i))))"
proof -
  let ?r = "dirent_reclen (length (vd_name (ds_entries ds ! i)))"
  have ok: "name_ok (vd_name (ds_entries ds ! i))" by (rule stream_name_ok [OF assms])
  have enc: "encode_dirent64 (replicate ?r 0) (next_dirent (at_entry ds i)) =
    (?r, rec_bytes (next_dirent (at_entry ds i)))"
    using ok by (intro encode_dirent64_closed) simp_all
  have "?r \<noteq> 0" using name_reclen(1) [OF ok] by linarith
  then show ?thesis
    using assms(2) by (subst getdents_fill.simps)
      (simp add: Let_def entry_len_def enc stream_step_at [OF assms])
qed

lemma fill_end: "getdents_fill room (at_entry ds (length (ds_entries ds))) out = (at_entry ds (length (ds_entries ds)), out)"
  by (subst getdents_fill.simps) simp

lemma fill_from:
  assumes "stream_ok ds" "i0 \<le> i" "i \<le> length (ds_entries ds)"
    and "length out = cookie (ds_entries ds) i - cookie (ds_entries ds) i0"
    and j: "j = i + length (takeWhile (\<lambda>j. cookie (ds_entries ds) (Suc j) - cookie (ds_entries ds) i0 \<le> room)
                 [i..<length (ds_entries ds)])"
  shows "\<exists>bs. getdents_fill room (at_entry ds i) out = (at_entry ds j, out @ bs) \<and>
    parse_dirents bs = map (dirent_view (ds_entries ds)) [i..<j] \<and>
    length (out @ bs) = cookie (ds_entries ds) j - cookie (ds_entries ds) i0"
  using assms(2-)
proof (induction "length (ds_entries ds) - i" arbitrary: i out j)
  case 0
  then have "i = length (ds_entries ds)" by simp
  with 0 show ?case by (simp add: fill_end)
next
  case (Suc k)
  let ?es = "ds_entries ds"
  from Suc(2) have i: "i < length ?es" by simp
  have next_len: "cookie ?es (Suc i) - cookie ?es i0 = length out + entry_len (?es ! i)"
    using cookie_mono [OF Suc(3), of ?es] Suc(5) i by (simp add: cookie_Suc)
  show ?case
  proof (cases "length out + entry_len (?es ! i) > room")
    case True
    then have "j = i" using Suc(6) next_len i by (simp add: upt_conv_Cons)
    with True Suc(5) i show ?thesis by (simp add: fill_step [OF assms(1) i])
  next
    case False
    let ?rec = "rec_bytes (next_dirent (at_entry ds i))"
    have len: "length (out @ ?rec) = cookie ?es (Suc i) - cookie ?es i0"
      using stream_name_ok [OF assms(1) i] next_len by (simp add: length_rec_bytes entry_len_def)
    have j: "j = Suc i + length (takeWhile (\<lambda>j. cookie ?es (Suc j) - cookie ?es i0 \<le> room) [Suc i..<length ?es])"
      using Suc(6) next_len False i by (simp add: upt_conv_Cons)
    have "k = length ?es - Suc i" "i0 \<le> Suc i" "Suc i \<le> length ?es" using Suc(2,3) i by simp_all
    from Suc(1) [OF this len j] obtain bs where
      bs: "getdents_fill room (at_entry ds (Suc i)) (out @ ?rec) = (at_entry ds j, (out @ ?rec) @ bs)"
        "parse_dirents bs = map (dirent_view ?es) [Suc i..<j]"
        "length ((out @ ?rec) @ bs) = cookie ?es j - cookie ?es i0"
      by blast
    have "parse_dirents (?rec @ bs) = map (dirent_view ?es) [i..<j]"
    proof -
      have "i < j" using j by simp
      from upt_conv_Cons [OF this] bs(2) show ?thesis by (simp add: parse_next [OF assms(1) i])
    qed
    with bs False i show ?thesis
      by (intro exI [of _ "?rec @ bs"]) (simp add: fill_step [OF assms(1) i])
  qed
qed

lemma fitting_bound: "i \<le> length es \<Longrightarrow> i + fitting es i room \<le> length es"
  using length_takeWhile_le [of "\<lambda>j. cookie es (Suc j) - cookie es i \<le> room" "[i..<length es]"]
  by (simp add: fitting_def)

lemma fill_correct:
  assumes "stream_ok ds" "j = ds_pos ds + fitting (ds_entries ds) (ds_pos ds) room"
  shows "\<exists>out. getdents_fill room ds [] = (at_entry ds j, out) \<and>
    parse_dirents out = map (dirent_view (ds_entries ds)) [ds_pos ds..<j] \<and>
    length out = cookie (ds_entries ds) j - cookie (ds_entries ds) (ds_pos ds)"
  using fill_from [OF assms(1), of "ds_pos ds" "ds_pos ds" "[]" j room] assms
  by (simp add: fitting_def at_entry_here stream_ok_def)

section \<open>The handlers meet the contract\<close>

text \<open>C32: \<open>getdents64\<close> on a virtual or merged directory fills the buffer with as many whole records as
  fit, and a reader that walks the buffer by \<open>d_reclen\<close> sees exactly the entries from the stream's
  position on, each once, with the position of its successor in \<open>d_off\<close>.  It answers 0 only at the
  end of the directory and \<open>EINVAL\<close> only when the next entry alone is larger than the buffer.\<close>

theorem getdents64_correct:
  assumes "dir_stream_at listing (int_arg r 0) s = (Some ds, s1)" "stream_ok ds"
    and "es = ds_entries ds" "i = ds_pos ds" "j = i + fitting es i (unat (arg r 2))"
  shows "\<exists>out.
    parse_dirents out = map (dirent_view es) [i..<j] \<and> length out = cookie es j - cookie es i \<and>
    do_getdents64 M listing r (s, m) =
      (let s2 = put_stream (int_arg r 0) (at_entry ds j) s1
       in if j = i then (if i = length es then val 0 else eno EINVAL, s2, m)
          else case copy_out M (arg r 1) out m of
                 None \<Rightarrow> (eno EFAULT, s2, m)
               | Some m2 \<Rightarrow> (val (int (length out)), s2, m2))"
proof -
  from fill_correct [OF assms(2), of j "unat (arg r 2)"] obtain out where
    fill: "getdents_fill (unat (arg r 2)) ds [] = (at_entry ds j, out)" and
    out: "parse_dirents out = map (dirent_view es) [i..<j]" "length out = cookie es j - cookie es i"
    using assms(3-5) by auto
  have j: "j \<le> length es"
    using fitting_bound [of i es "unat (arg r 2)"] assms(2-5) by (simp add: stream_ok_def)
  have "out = [] \<longleftrightarrow> j = i"
  proof
    assume "out = []"
    with out(1) have "[i..<j] = []" by simp
    then have "\<not> i < j" by (metis upt_conv_Cons list.distinct(1))
    then show "j = i" using assms(5) by simp
  next
    assume "j = i"
    with out(2) show "out = []" by simp
  qed
  then have "do_getdents64 M listing r (s, m) =
      (let s2 = put_stream (int_arg r 0) (at_entry ds j) s1
       in if j = i then (if i = length es then val 0 else eno EINVAL, s2, m)
          else case copy_out M (arg r 1) out m of
                 None \<Rightarrow> (eno EFAULT, s2, m)
               | Some m2 \<Rightarrow> (val (int (length out)), s2, m2))"
    using fill j assms(1,3) by (cases "j = i") (simp_all add: do_getdents64_def Let_def)
  with out show ?thesis by blast
qed

text \<open>A directory of three entries, one of them without an inode.\<close>

definition sample_entries :: "virtual_dirent list" where
  "sample_entries =
     [\<lparr>vd_name = ''.'', vd_type = Ddir, vd_ino = 7\<rparr>,
      \<lparr>vd_name = ''..'', vd_type = Ddir, vd_ino = 0\<rparr>,
      \<lparr>vd_name = ''passwd'', vd_type = Dregular, vd_ino = 12\<rparr>]"

definition sample_stream :: dir_stream where
  "sample_stream = \<lparr>ds_entries = sample_entries, ds_pos = 0, ds_lazy = [], ds_off = 0\<rparr>"

definition sample_streams :: proc_state where
  "sample_streams = put_stream 5 sample_stream ps_init"

definition sample_mem :: "u8 list guest_mem" where
  "sample_mem = \<lparr>copy_in = (\<lambda>a n m. Some (take n m)), copy_out = (\<lambda>a bs m. Some bs)\<rparr>"

lemma dir_stream_at_put:
  "ds_lazy ds = [] \<Longrightarrow> dir_stream_at listing fd (put_stream fd ds s) = (Some ds, put_stream fd ds s)"
  by (simp add: dir_stream_at_def put_stream_def put_fds_def fds_def update_conv')

lemma sample_lengths: "map entry_len sample_entries = [24, 24, 32]"
  by (simp add: sample_entries_def entry_len_def dirent_reclen_eq)

lemma sample_cookies:
  "cookie sample_entries 0 = 0" "cookie sample_entries (Suc 0) = 24" "cookie sample_entries 2 = 48"
  "cookie sample_entries 3 = 80"
  by (simp_all add: cookie_def take_map [symmetric] sample_lengths numeral_2_eq_2 numeral_3_eq_3)

lemma sample_ok: "stream_ok sample_stream" "length sample_entries = 3"
  using sample_cookies(4)
  by (simp_all add: stream_ok_def sample_stream_def sample_entries_def name_ok_def numeral_3_eq_3)

lemma sample_fitting: "fitting sample_entries 0 48 = 2"
  by (simp add: fitting_def sample_ok upt_rec_numeral upt_conv_Cons sample_cookies numeral_2_eq_2 [symmetric]
    numeral_3_eq_3 [symmetric])

theorem getdents64_correct_witness:
  "dir_stream_at (\<lambda>p. []) 5 sample_streams = (Some sample_stream, sample_streams) \<and> stream_ok sample_stream \<and>
   (\<exists>out. parse_dirents out = [(7, 24, 4, ''.''), (2, 48, 4, ''..'')] \<and>
     do_getdents64 sample_mem (\<lambda>p. []) \<lparr>reg_arg = [5, 0x1000, 48, 0, 0, 0], reg_nr = 217\<rparr> (sample_streams, []) =
       (val 48, put_stream 5 (at_entry sample_stream 2) sample_streams, out))"
proof -
  let ?r = "\<lparr>reg_arg = [5, 0x1000, 48, 0, 0, 0], reg_nr = 217\<rparr> :: regs"
  have fd: "int_arg ?r 0 = 5" by (simp add: int_arg_def)
  have at: "dir_stream_at (\<lambda>p. []) (int_arg ?r 0) sample_streams = (Some sample_stream, sample_streams)"
    by (simp add: fd sample_streams_def dir_stream_at_put sample_stream_def)
  have view: "map (dirent_view sample_entries) [0..<2] = [(7, 24, 4, ''.''), (2, 48, 4, ''..'')]"
    by (simp add: upt_conv_Cons dirent_view_def sample_cookies entry_dtype_def numeral_2_eq_2 [symmetric])
      (simp add: sample_entries_def)
  have two: "2 = 0 + fitting sample_entries 0 (unat (arg ?r 2))" by (simp add: sample_fitting)
  have es: "sample_entries = ds_entries sample_stream" "0 = ds_pos sample_stream"
    by (simp_all add: sample_stream_def)
  from getdents64_correct [OF at sample_ok(1) es two, of sample_mem "[]"]
  obtain out where "parse_dirents out = map (dirent_view sample_entries) [0..<2]" "length out = 48"
    "do_getdents64 sample_mem (\<lambda>p. []) ?r (sample_streams, []) =
      (val 48, put_stream 5 (at_entry sample_stream 2) sample_streams, out)"
    by (auto simp: sample_cookies sample_mem_def fd simp del: upt_rec_numeral)
  with at fd view sample_ok show ?thesis by auto
qed

lemma seek_walk_cookie:
  assumes "\<forall>e \<in> set es. name_ok (vd_name e)" "cookie es (length es) < 2 ^ 63" "i \<le> length es" "k \<le> i"
  shows "seek_walk es (of_nat (cookie es i)) k (of_nat (cookie es k)) = (i, of_nat (cookie es i))"
  using assms(4)
proof (induction "i - k" arbitrary: k)
  case 0
  then show ?case by (subst seek_walk.simps) simp
next
  case (Suc n)
  then have k: "k < i" by simp
  have small: "cookie es m < 2 ^ 63" if "m \<le> length es" for m
    using cookie_mono [OF that, of es] assms(2) by simp
  have "(of_nat (cookie es k) :: u64) < of_nat (cookie es i)"
    using cookie_less [OF assms(1) k assms(3)] small [of k] small [of i] k assms(3)
    by (simp add: word_less_nat_alt unat_of_nat_small)
  moreover have "(of_nat (cookie es k) :: u64) + of_nat (dirent_reclen (length (vd_name (es ! k)))) =
    of_nat (cookie es (Suc k))"
    using k assms(3) by (simp add: cookie_Suc entry_len_def)
  ultimately show ?case
    using Suc k assms(3) by (subst seek_walk.simps) simp
qed

text \<open>A position handed out in \<open>d_off\<close> is a position \<open>lseek\<close> accepts: seeking to the position of an
  entry reports that position and leaves the stream so that the next \<open>getdents64\<close> starts with that
  entry, wherever the stream stood before.\<close>

theorem lseek_resumes:
  assumes "dir_stream_at listing (int_arg r 0) s = (Some ds, s1)" "stream_ok ds"
    and "i \<le> length (ds_entries ds)"
    and "arg r 1 = of_nat (cookie (ds_entries ds) i)" "int_arg r 2 = 0"
  shows "do_lseek listing r s =
      (val (int (cookie (ds_entries ds) i)), put_stream (int_arg r 0) (at_entry ds i) s1) \<and>
    dir_stream_at listing (int_arg r 0) (snd (do_lseek listing r s)) =
      (Some (at_entry ds i), put_stream (int_arg r 0) (at_entry ds i) s1) \<and>
    stream_ok (at_entry ds i)"
proof -
  let ?es = "ds_entries ds"
  have "cookie ?es i < 2 ^ 63"
    using cookie_mono [OF assms(3), of ?es] assms(2) by (simp add: stream_ok_def)
  then have pos: "sint (of_nat (cookie ?es i) :: u64) = int (cookie ?es i)"
    by (simp add: sint_uint uint_nat unat_of_nat_small signed_take_bit_int_eq_self)
  have walk: "seek_walk ?es (of_nat (cookie ?es i)) 0 0 = (i, of_nat (cookie ?es i))"
    using seek_walk_cookie [of ?es i 0] assms(2,3) by (simp add: stream_ok_def)
  have do: "do_lseek listing r s =
      (val (int (cookie ?es i)), put_stream (int_arg r 0) (at_entry ds i) s1)"
    using assms by (simp add: do_lseek_def Let_def pos walk at_entry_def)
  have "ds_lazy (at_entry ds i) = []" using assms(2) by (simp add: stream_ok_def)
  from dir_stream_at_put [OF this] do stream_ok_at [OF assms(2,3)] show ?thesis by simp
qed

theorem lseek_resumes_witness:
  "dir_stream_at (\<lambda>p. []) 5 sample_streams = (Some sample_stream, sample_streams) \<and> stream_ok sample_stream \<and>
   do_lseek (\<lambda>p. []) \<lparr>reg_arg = [5, 48, 0, 0, 0, 0], reg_nr = 8\<rparr> sample_streams =
     (val 48, put_stream 5 (at_entry sample_stream 2) sample_streams)"
proof -
  let ?r = "\<lparr>reg_arg = [5, 48, 0, 0, 0, 0], reg_nr = 8\<rparr> :: regs"
  have fd: "int_arg ?r 0 = 5" "int_arg ?r 2 = 0" by (simp_all add: int_arg_def)
  have at: "dir_stream_at (\<lambda>p. []) (int_arg ?r 0) sample_streams = (Some sample_stream, sample_streams)"
    by (simp add: fd sample_streams_def dir_stream_at_put sample_stream_def)
  have es: "ds_entries sample_stream = sample_entries" by (simp add: sample_stream_def)
  have "do_lseek (\<lambda>p. []) ?r sample_streams =
    (val 48, put_stream 5 (at_entry sample_stream 2) sample_streams)"
    using lseek_resumes [OF at sample_ok(1), of 2] by (simp add: es fd sample_cookies sample_ok)
  with at fd sample_ok show ?thesis by simp
qed

section \<open>Reading to the end\<close>

text \<open>A guest that reads batch after batch, each into a buffer of its own size.\<close>

primrec read_batches :: "nat list \<Rightarrow> dir_stream \<Rightarrow> u8 list list \<times> dir_stream" where
  "read_batches [] ds = ([], ds)"
| "read_batches (room # rooms) ds =
     (let (ds1, out) = getdents_fill room ds []; (outs, ds2) = read_batches rooms ds1 in (out # outs, ds2))"

lemma fitting_progress:
  assumes "i < length es" "entry_len (es ! i) \<le> room"
  shows "0 < fitting es i room"
  using assms by (simp add: fitting_def upt_conv_Cons cookie_Suc)

lemma read_batches_all:
  assumes "stream_ok ds" "\<forall>room \<in> set rooms. \<forall>e \<in> set (ds_entries ds). entry_len e \<le> room"
    and "length (ds_entries ds) - ds_pos ds \<le> length rooms"
  shows "concat (map parse_dirents (fst (read_batches rooms ds))) =
      map (dirent_view (ds_entries ds)) [ds_pos ds..<length (ds_entries ds)] \<and>
    snd (read_batches rooms ds) = at_entry ds (length (ds_entries ds))"
  using assms
proof (induction rooms arbitrary: ds)
  case Nil
  then have "ds_pos ds = length (ds_entries ds)" by (simp add: stream_ok_def)
  with at_entry_here [OF Nil(1)] show ?case by simp
next
  case (Cons room rooms)
  let ?es = "ds_entries ds" and ?i = "ds_pos ds"
  define j where "j = ?i + fitting ?es ?i room"
  from fill_correct [OF Cons.prems(1), of j room] obtain out where
    fill: "getdents_fill room ds [] = (at_entry ds j, out)" and
    out: "parse_dirents out = map (dirent_view ?es) [?i..<j]" by (auto simp: j_def)
  have pos: "?i \<le> length ?es" using Cons.prems(1) by (simp add: stream_ok_def)
  then have j: "?i \<le> j" "j \<le> length ?es" using fitting_bound [OF pos, of room] by (simp_all add: j_def)
  have "length ?es - j \<le> length rooms"
  proof (cases "?i < length ?es")
    case True
    then have "0 < fitting ?es ?i room" using Cons.prems(2) by (intro fitting_progress) simp_all
    with Cons.prems(3) show ?thesis by (simp add: j_def)
  qed (use j in simp)
  with Cons.IH [of "at_entry ds j"] Cons.prems(1,2) stream_ok_at [OF Cons.prems(1) j(2)] have
    "concat (map parse_dirents (fst (read_batches rooms (at_entry ds j)))) =
       map (dirent_view ?es) [j..<length ?es]"
    "snd (read_batches rooms (at_entry ds j)) = at_entry ds (length ?es)"
    by simp_all
  moreover have "[?i..<j] @ [j..<length ?es] = [?i..<length ?es]"
    using j by (metis le_add_diff_inverse upt_add_eq_append)
  ultimately show ?case
    using fill out by (simp add: case_prod_beta flip: map_append)
qed

text \<open>C33: Reading a directory terminates with every entry seen exactly once, in order, however the
  guest sizes its buffers, as long as each takes at least one record.  At most as many batches as
  there are entries are needed, and the batch after the last one is empty, which is how the guest
  learns that it is done.\<close>

theorem readdir_lists_all:
  assumes "stream_ok ds" "ds_pos ds = 0"
    and "\<forall>room \<in> set rooms. \<forall>e \<in> set (ds_entries ds). entry_len e \<le> room"
    and "length (ds_entries ds) \<le> length rooms"
  shows "concat (map parse_dirents (fst (read_batches rooms ds))) =
      map (dirent_view (ds_entries ds)) [0..<length (ds_entries ds)] \<and>
    getdents_fill room (snd (read_batches rooms ds)) [] = (snd (read_batches rooms ds), [])"
  using read_batches_all [OF assms(1,3)] assms(2,4) by (simp add: fill_end)

theorem readdir_lists_all_witness:
  "stream_ok sample_stream \<and>
   concat (map parse_dirents (fst (read_batches [48, 32, 4096] sample_stream))) =
     map (dirent_view sample_entries) [0..<3]"
proof -
  have "\<forall>e \<in> set sample_entries. entry_len e \<le> 32"
    using sample_lengths by (auto simp: sample_entries_def)
  then have "\<forall>room \<in> set [48, 32, 4096]. \<forall>e \<in> set (ds_entries sample_stream). entry_len e \<le> room"
    by (fastforce simp: sample_stream_def)
  from readdir_lists_all [OF sample_ok(1) _ this] show ?thesis
    using sample_ok by (simp add: sample_stream_def del: upt_rec_numeral upt_Suc)
qed

text \<open>A faulting buffer loses entries: the stream has moved on although nothing reached the guest.\<close>

lemma getdents_fault_skips:
  assumes "dir_stream_at listing (int_arg r 0) s = (Some ds, s1)" "stream_ok ds"
    and "\<And>bs. copy_out M (arg r 1) bs m = None"
    and "0 < fitting (ds_entries ds) (ds_pos ds) (unat (arg r 2))"
  shows "do_getdents64 M listing r (s, m) =
    (eno EFAULT, put_stream (int_arg r 0)
       (at_entry ds (ds_pos ds + fitting (ds_entries ds) (ds_pos ds) (unat (arg r 2)))) s1, m)"
proof -
  obtain out where fill: "getdents_fill (unat (arg r 2)) ds [] =
      (at_entry ds (ds_pos ds + fitting (ds_entries ds) (ds_pos ds) (unat (arg r 2))), out)"
    and "parse_dirents out = map (dirent_view (ds_entries ds))
      [ds_pos ds..<ds_pos ds + fitting (ds_entries ds) (ds_pos ds) (unat (arg r 2))]"
    using fill_correct [OF assms(2) refl, of "unat (arg r 2)"] by blast
  with assms(4) have "out \<noteq> []" by (auto simp: upt_conv_Cons)
  with fill assms(1,3) show ?thesis by (simp add: do_getdents64_def Let_def)
qed

end
