(* ===== verification/Lx_Dispatch.thy ===== *)
theory Lx_Dispatch
  imports Lx_Rename Lx_Dirent
begin

text \<open>
  The dispatcher of \<open>abi/syscall.hpp\<close>, last part: \<open>dispatch\<close> itself.  The \<open>switch\<close> is a table from
  system calls to handlers, in the order of the source; a call that is not in the table is forwarded.
\<close>

unbundle bit_operations_syntax

section \<open>Handlers written in the switch\<close>

type_synonym ('h, 'm) handler = "regs \<Rightarrow> ('h, 'm) kst \<Rightarrow> ('h, 'm) handled"

text \<open>A handler that only answers, one that only looks at the state, one that always returns.\<close>

definition answers :: "(regs \<Rightarrow> fate) \<Rightarrow> ('h, 'm) handler" where
  "answers f = (\<lambda>r k. Some (f r, k))"

definition looks :: "(regs \<Rightarrow> ('h, 'm) kst \<Rightarrow> fate) \<Rightarrow> ('h, 'm) handler" where
  "looks f = (\<lambda>r k. Some (f r k, k))"

definition returns :: "(regs \<Rightarrow> ('h, 'm) kst \<Rightarrow> fate \<times> ('h, 'm) kst) \<Rightarrow> ('h, 'm) handler" where
  "returns f = (\<lambda>r k. Some (f r k))"

lemmas handler_kinds = answers_def looks_def returns_def

definition k_listing :: "('h, 'd, 'm) backend \<Rightarrow> ('h, 'm) kst \<Rightarrow> string \<Rightarrow> virtual_dirent list" where
  "k_listing E k ap = overlay_dir_union (be_host E) (ks_host k) (ns_wo (fn_ns (ks_files k))) (ks_mounts k) ap"

definition k_getdents64 :: "('h, 'd, 'm) backend \<Rightarrow> regs \<Rightarrow> ('h, 'm) kst \<Rightarrow> fate \<times> ('h, 'm) kst" where
  "k_getdents64 E r k =
     (let (f, ps, m) = do_getdents64 (be_mem E) (k_listing E k) r (ks_ps k, ks_mem k)
      in (f, k\<lparr>ks_ps := ps, ks_mem := m\<rparr>))"

definition k_lseek :: "('h, 'd, 'm) backend \<Rightarrow> regs \<Rightarrow> ('h, 'm) kst \<Rightarrow> fate \<times> ('h, 'm) kst" where
  "k_lseek E r k = (let (f, ps) = do_lseek (k_listing E k) r (ks_ps k) in (f, k\<lparr>ks_ps := ps\<rparr>))"

definition known_fs_type :: "string \<Rightarrow> bool" where
  "known_fs_type t \<longleftrightarrow>
     t \<in> set [''proc'', ''sysfs'', ''tmpfs'', ''ext4'', ''devtmpfs'', ''devpts'', ''overlay'', ''ramfs'', ''bind'', ''none'']"

text \<open>A bind mount needs its source.\<close>

definition bind_refusal :: "('h, 'd, 'm) backend \<Rightarrow> string \<Rightarrow> ('h, 'm) kst \<Rightarrow> errno option option" where
  "bind_refusal E src k =
     (if src = [] then Some None
      else do {
        ap \<leftarrow> k_absolutize E src (cwd (ks_ps k)) k;
        let pc = k_lookup E ap True k;
        let missing = (case be_stat_host_path E of None \<Rightarrow> False | Some look \<Rightarrow> look (ks_host k) (pc_host pc) = None);
        Some (if pc_realm pc = Rabsent then Some (pc_error pc)
              else if pc_realm pc = Rhost \<and> pc_host pc \<noteq> [] \<and> missing then Some ENOENT
              else None)
      })"

definition do_mount :: "('h, 'd, 'm) backend \<Rightarrow> ('h, 'm) handler" where
  "do_mount E r k =
     (let type = arg_cstr E r 2 k; tgt = arg_cstr E r 1 k
      in if type \<noteq> [] \<and> \<not> known_fs_type type then Some (eno ENODEV, k)
         else do {
           refused \<leftarrow> (if arg r 3 AND 0x1000 \<noteq> 0 then bind_refusal E (arg_cstr E r 0 k) k else Some None);
           case refused of
             Some e \<Rightarrow> Some (eno e, k)
           | None \<Rightarrow>
               if tgt = [] then Some (val 0, k)
               else do {
                 ap \<leftarrow> k_absolutize E tgt (cwd (ks_ps k)) k;
                 Some (val 0, k\<lparr>ks_guest_mounts := List.insert ap (ks_guest_mounts k)\<rparr>)
               }
         })"

definition do_umount2 :: "('h, 'd, 'm) backend \<Rightarrow> ('h, 'm) handler" where
  "do_umount2 E r k =
     (let raw = arg_cstr E r 0 k
      in if raw = [] then Some (eno EFAULT, k)
         else do {
           tgt \<leftarrow> k_absolutize E raw (cwd (ks_ps k)) k;
           if tgt \<in> set (ks_guest_mounts k)
           then Some (val 0, k\<lparr>ks_guest_mounts := removeAll tgt (ks_guest_mounts k)\<rparr>)
           else Some (if is_mount_point (ks_mounts k) tgt then val 0 else eno EINVAL, k)
         })"

definition landlock_create :: "regs \<Rightarrow> fate" where
  "landlock_create r = val (if arg r 2 AND 1 \<noteq> 0 then 1 else 3)"

definition landlock_add_rule :: "regs \<Rightarrow> fate" where
  "landlock_add_rule r =
     (if arg r 2 = 0 then eno EFAULT
      else if arg r 1 \<noteq> 1 \<and> arg r 1 \<noteq> 2 then eno EINVAL
      else val 0)"

section \<open>The switch\<close>

text \<open>Calls with one fixed answer.\<close>

definition forwarded_calls :: "sysno list" where
  "forwarded_calls =
     [SYS_exit, SYS_exit_group, SYS_rt_sigaction, SYS_rt_sigprocmask, SYS_rt_sigpending, SYS_rt_sigsuspend,
      SYS_rt_sigreturn, SYS_sigaltstack, SYS_fgetxattr, SYS_flistxattr, SYS_ftruncate]"

definition refused_calls :: "(sysno \<times> errno) list" where
  "refused_calls =
     map (\<lambda>s. (s, ENOTSUP)) [SYS_name_to_handle_at, SYS_open_by_handle_at]
     @ map (\<lambda>s. (s, ENOSYS))
         [SYS_fsopen, SYS_fsconfig, SYS_fsmount, SYS_move_mount, SYS_open_tree, SYS_mount_setattr, SYS_statmount,
          SYS_listmount, SYS_fspick, SYS_open_tree_attr, SYS_file_getattr, SYS_file_setattr, SYS_listns]
     @ map (\<lambda>s. (s, EPERM)) [SYS_pivot_root, SYS_swapon, SYS_swapoff, SYS_acct]
     @ map (\<lambda>s. (s, ENOSYS)) [SYS_quotactl, SYS_ustat]"

definition accepted_calls :: "sysno list" where
  "accepted_calls =
     [SYS_setuid, SYS_setgid, SYS_setreuid, SYS_setregid, SYS_setresuid, SYS_setresgid, SYS_setfsuid, SYS_setfsgid,
      SYS_landlock_restrict_self]"

definition fixed_handlers :: "(sysno \<times> ('h, 'm) handler) list" where
  "fixed_handlers =
     map (\<lambda>s. (s, answers (\<lambda>_. fwd))) forwarded_calls
     @ map (\<lambda>(s, e). (s, answers (\<lambda>_. eno e))) refused_calls
     @ map (\<lambda>s. (s, answers (\<lambda>_. val 0))) accepted_calls"

definition task_handlers :: "('h, 'd, 'm) backend \<Rightarrow> (sysno \<times> ('h, 'm) handler) list" where
  "task_handlers E =
     map (\<lambda>s. (s, looks (\<lambda>_. do_identity E s)))
       [SYS_getpid, SYS_gettid, SYS_getppid, SYS_getuid, SYS_geteuid, SYS_getgid, SYS_getegid]
     @ [(SYS_kill, do_kill E), (SYS_tkill, answers do_tkill), (SYS_tgkill, answers do_tgkill),
        (SYS_getresuid, returns (do_getres E)), (SYS_getresgid, returns (do_getres E)),
        (SYS_set_tid_address, looks (\<lambda>_ k. val (id_tid (ids_of E k)))),
        (SYS_uname, returns (\<lambda>r. do_uname E (arg r 0))),
        (SYS_getpgrp, \<lambda>_. do_getpgrp E), (SYS_getpgid, do_getpgid E), (SYS_getsid, do_getsid E),
        (SYS_setpgid, do_setpgid E), (SYS_setsid, \<lambda>_. do_setsid E),
        (SYS_getpriority, answers do_priority), (SYS_setpriority, answers do_priority),
        (SYS_sysinfo, returns (\<lambda>r. do_sysinfo E (arg r 0))),
        (SYS_sched_getaffinity, returns (do_sched_getaffinity E)),
        (SYS_setgroups, returns (do_setgroups E)), (SYS_getgroups, do_getgroups E),
        (SYS_landlock_create_ruleset, answers landlock_create), (SYS_landlock_add_rule, answers landlock_add_rule),
        (SYS_prctl, returns (do_prctl E)), (SYS_ioctl, do_ioctl E)]"

definition lookup_handlers :: "('h, 'd, 'm) backend \<Rightarrow> (sysno \<times> ('h, 'm) handler) list" where
  "lookup_handlers E =
     [(SYS_open, \<lambda>r. path_open E r 0 False), (SYS_openat, \<lambda>r. path_open E r 1 True),
      (SYS_creat, \<lambda>r. path_open_flags E r 0 False (open_bits O_creat OR open_bits O_wronly OR open_bits O_trunc)),
      (SYS_openat2, path_openat2 E),
      (SYS_stat, \<lambda>r. path_stat E r 0 False True), (SYS_lstat, \<lambda>r. path_stat E r 0 False False),
      (SYS_access, \<lambda>r. path_at E r 0 False), (SYS_chdir, do_chdir E),
      (SYS_newfstatat, \<lambda>r. path_stat E r 1 True (\<not> has_at (arg r 3) at_symlink_nofollow)),
      (SYS_statx, path_statx E),
      (SYS_faccessat, \<lambda>r. path_at E r 1 True), (SYS_faccessat2, \<lambda>r. path_at E r 1 True),
      (SYS_readlink, \<lambda>r. do_readlink E r 0 False), (SYS_readlinkat, \<lambda>r. do_readlink E r 1 True),
      (SYS_getcwd, returns (do_getcwd E)), (SYS_getdents64, returns (k_getdents64 E)),
      (SYS_lseek, returns (k_lseek E)),
      (SYS_statfs, path_statfs E), (SYS_fstatfs, returns (do_fstatfs E)), (SYS_socket, answers do_socket),
      (SYS_chroot, do_chroot E),
      (SYS_inotify_add_watch, \<lambda>r. path_watch E r 1 False), (SYS_fanotify_mark, \<lambda>r. path_watch E r 4 True),
      (SYS_mount, do_mount E), (SYS_umount2, do_umount2 E),
      (SYS_execve, \<lambda>r. path_exec E r 0), (SYS_execveat, \<lambda>r. path_exec E r 1),
      (SYS_close, returns do_close), (SYS_dup, answers do_dup), (SYS_dup2, answers do_dup2), (SYS_dup3, answers do_dup2),
      (SYS_fcntl, answers do_fcntl), (SYS_fchdir, returns do_fchdir)]"

definition xattr_handlers :: "('h, 'd, 'm) backend \<Rightarrow> (sysno \<times> ('h, 'm) handler) list" where
  "xattr_handlers E =
     [(SYS_getxattr, \<lambda>r. path_xattr E r False True 0 False), (SYS_listxattr, \<lambda>r. path_xattr E r False True 0 False),
      (SYS_lgetxattr, \<lambda>r. path_xattr E r False False 0 False), (SYS_llistxattr, \<lambda>r. path_xattr E r False False 0 False),
      (SYS_setxattr, \<lambda>r. path_xattr E r True True 0 False), (SYS_removexattr, \<lambda>r. path_xattr E r True True 0 False),
      (SYS_lsetxattr, \<lambda>r. path_xattr E r True False 0 False), (SYS_lremovexattr, \<lambda>r. path_xattr E r True False 0 False),
      (SYS_getxattrat, \<lambda>r. path_xattr E r False (\<not> has_at (arg r 2) at_symlink_nofollow) 1 True),
      (SYS_listxattrat, \<lambda>r. path_xattr E r False (\<not> has_at (arg r 2) at_symlink_nofollow) 1 True),
      (SYS_setxattrat, \<lambda>r. path_xattr E r True (\<not> has_at (arg r 2) at_symlink_nofollow) 1 True),
      (SYS_removexattrat, \<lambda>r. path_xattr E r True (\<not> has_at (arg r 2) at_symlink_nofollow) 1 True),
      (SYS_fsetxattr, looks (do_fxattr_write E)), (SYS_fremovexattr, looks (do_fxattr_write E))]"

definition mutation_handlers :: "('h, 'd, 'm) backend \<Rightarrow> (sysno \<times> ('h, 'm) handler) list" where
  "mutation_handlers E =
     [(SYS_mkdir, \<lambda>r. path_mut E r 0 False Parents_only True False),
      (SYS_mkdirat, \<lambda>r. path_mut E r 1 True Parents_only True False),
      (SYS_mknod, \<lambda>r. path_mut E r 0 False Parents_only True False),
      (SYS_mknodat, \<lambda>r. path_mut E r 1 True Parents_only True False),
      (SYS_rmdir, \<lambda>r. path_mut E r 0 False Remove False True),
      (SYS_unlink, \<lambda>r. path_mut E r 0 False Remove False False),
      (SYS_unlinkat, \<lambda>r. path_mut E r 1 True Remove False False),
      (SYS_chmod, \<lambda>r. do_chmod_call E r 0 False False), (SYS_fchmodat, \<lambda>r. do_chmod_call E r 1 True False),
      (SYS_fchmodat2, \<lambda>r. do_chmod_call E r 1 True True),
      (SYS_chown, \<lambda>r. do_chown E r 0 1 2 False True), (SYS_lchown, \<lambda>r. do_chown E r 0 1 2 False False),
      (SYS_fchownat, \<lambda>r. do_chown E r 1 2 3 True (\<not> has_at (arg r 4) at_symlink_nofollow)),
      (SYS_fchown, returns do_fchown),
      (SYS_truncate, \<lambda>r. path_mut E r 0 False Copy_leaf False False),
      (SYS_utimes, \<lambda>r. do_utimes E r 0 False None), (SYS_utime, \<lambda>r. do_utimes E r 0 False None),
      (SYS_utimensat, \<lambda>r. do_utimes E r 1 True (Some 3)), (SYS_futimesat, \<lambda>r. do_utimes E r 1 True None),
      (SYS_fchmod, returns (do_fchmod E)),
      (SYS_rename, \<lambda>r. path_mut2 E r 0 1 False True None None),
      (SYS_renameat, \<lambda>r. path_mut2 E r 1 3 True True None None),
      (SYS_renameat2, \<lambda>r. path_mut2 E r 1 3 True True None (Some 4)),
      (SYS_link, \<lambda>r. path_mut2 E r 0 1 False False None None),
      (SYS_linkat, \<lambda>r. path_mut2 E r 1 3 True False (Some 4) None),
      (SYS_symlink, \<lambda>r. path_symlink E r 0 1 False), (SYS_symlinkat, \<lambda>r. path_symlink E r 0 2 True),
      (SYS_bind, \<lambda>r. do_sockaddr_un E r True), (SYS_connect, \<lambda>r. do_sockaddr_un E r False)]"

definition handlers :: "('h, 'd, 'm) backend \<Rightarrow> (sysno \<times> ('h, 'm) handler) list" where
  "handlers E = fixed_handlers @ task_handlers E @ lookup_handlers E @ xattr_handlers E @ mutation_handlers E"

definition enter_task :: "('h, 'd, 'm) backend \<Rightarrow> ('h, 'm) kst \<Rightarrow> ('h, 'm) kst" where
  "enter_task E k = (let me = ids_of E k in k_upd_ps (set_current_pid (id_pid me) (id_ppid me)) k)"

definition dispatch_call :: "('h, 'd, 'm) backend \<Rightarrow> sysno \<Rightarrow> ('h, 'm) handler" where
  "dispatch_call E sc r k =
     (case map_of (handlers E) sc of
        None \<Rightarrow> Some (fwd, enter_task E k)
      | Some h \<Rightarrow> h r (enter_task E k))"

definition dispatch :: "('h, 'd, 'm) backend \<Rightarrow> ('h, 'm) handler" where
  "dispatch E r k = dispatch_call E (decode (be_arch E) (unat (reg_nr r))) r k"

end
