(* ===== verification/Lx_Confine.thy ===== *)
theory Lx_Confine
  imports Lx_Dispatch
begin

text \<open>
  What the dispatcher as a whole guarantees.  Every handler keeps the process state well-formed and
  the mount table as it is, and every host path it hands to the trap lies in a layer of a mount;
  lookups leave the tree alone.  The proofs go through the table of handlers: one lemma per handler,
  collected in \<open>lx_confined\<close>, over the frame rules of the shared helpers in \<open>lx_frame\<close>.
\<close>

unbundle bit_operations_syntax

named_theorems lx_frame "what a helper of the dispatcher leaves unchanged"
named_theorems lx_confined "handlers whose answers stay in the layers"

section \<open>Well-formed process state\<close>

definition tab_ok :: "fd_tab \<Rightarrow> bool" where
  "tab_ok t \<longleftrightarrow> (\<forall>fd p. map_of (ft_paths t) fd = Some p \<longrightarrow> canonical_path p)"

definition paths_ok :: "proc_state \<Rightarrow> bool" where
  "paths_ok s \<longleftrightarrow> ps_ok s \<and> (\<forall>pid t. map_of (ps_tables s) pid = Some t \<longrightarrow> tab_ok t) \<and> tab_ok (ps_inherited_fds s)"

lemma tab_ok_empty [simp]: "tab_ok fd_tab_empty"
  by (simp add: tab_ok_def fd_tab_empty_def)

lemma tab_ok_fds: "paths_ok s \<Longrightarrow> tab_ok (fds s)"
  by (auto simp: paths_ok_def fds_def split: option.split)

lemma inherited_put_fds [simp]: "ps_inherited_fds (put_fds t s) = ps_inherited_fds s"
  by (simp add: put_fds_def)

lemma paths_ok_put_fds: "paths_ok s \<Longrightarrow> tab_ok t \<Longrightarrow> paths_ok (put_fds t s)"
  by (auto simp: paths_ok_def split: if_splits)

lemma paths_ok_unbind: "paths_ok s \<Longrightarrow> paths_ok (unbind_fd fd s)"
  using tab_ok_fds [of s]
  by (auto simp: unbind_fd_def tab_ok_def delete_conv' intro!: paths_ok_put_fds split: if_splits)

lemma paths_ok_bind: "paths_ok s \<Longrightarrow> canonical_path p \<Longrightarrow> paths_ok (bind_fd fd p s)"
  using tab_ok_fds [of s]
  by (auto simp: bind_fd_def tab_ok_def update_conv' intro!: paths_ok_put_fds split: if_splits)

lemma paths_ok_dirs:
  "paths_ok s \<Longrightarrow> paths_ok (put_fds ((fds s)\<lparr>ft_dirs := ds\<rparr>) s)"
  using tab_ok_fds [of s] by (auto simp: tab_ok_def intro!: paths_ok_put_fds)

lemma paths_ok_same: "paths_ok s \<Longrightarrow> paths_ok (put_fds (fds s) s)"
  by (simp add: paths_ok_put_fds tab_ok_fds)

lemma paths_ok_stream: "paths_ok s \<Longrightarrow> paths_ok (snd (dir_stream_at l fd s))"
  by (auto simp: dir_stream_at_def Let_def paths_ok_same paths_ok_dirs split: option.split)

lemma paths_ok_put_stream: "paths_ok s \<Longrightarrow> paths_ok (put_stream fd ds s)"
  by (simp add: put_stream_def paths_ok_dirs)

lemma paths_ok_cwd: "paths_ok s \<Longrightarrow> paths_ok (set_cwd c s)"
  by (auto simp: paths_ok_def ps_ok_def set_cwd_def update_conv' normalize_path_canonical split: if_splits)

lemma tab_ok_fork: "tab_ok t \<Longrightarrow> tab_ok (copy_for_fork t)"
  by (simp add: tab_ok_def copy_for_fork_def)

lemma paths_ok_seed: "paths_ok s \<Longrightarrow> paths_ok (seed_pid pid ppid s)"
  using seed_pid_ok [of s pid ppid]
  by (auto simp: paths_ok_def seed_pid_def Let_def update_conv' tab_ok_fork split: if_splits option.splits)

lemma paths_ok_enter: "paths_ok s \<Longrightarrow> paths_ok (set_current_pid pid ppid s)"
proof -
  assume s: "paths_ok s"
  then have c: "paths_ok (s\<lparr>ps_cur := pid\<rparr>)" by (simp add: paths_ok_def)
  from s have o: "ps_ok (set_current_pid pid ppid s)" by (simp add: paths_ok_def set_current_pid_ok)
  show ?thesis
    using o c paths_ok_seed [OF c, of pid ppid]
    by (auto simp: paths_ok_def set_current_pid_def Let_def split: if_splits)
qed

lemma paths_ok_cwd_canonical: "paths_ok s \<Longrightarrow> canonical_path (cwd s)"
  using canonical_root by (auto simp: paths_ok_def ps_ok_def cwd_def cwd_of_def split: option.split)

section \<open>Frames\<close>

text \<open>The new state has the same tree, process table and pending open, and its paths are as good as
  before.\<close>

definition frame :: "('h, 'm) kst \<Rightarrow> ('h, 'm) kst \<Rightarrow> bool" where
  "frame k k' \<longleftrightarrow> ks_files k' = ks_files k \<and> ks_procs k' = ks_procs k \<and> ks_pending k' = ks_pending k
     \<and> (paths_ok (ks_ps k) \<longrightarrow> paths_ok (ks_ps k'))"

lemma frame_refl [simp]: "frame k k"
  by (simp add: frame_def)

lemma frame_trans: "frame k k1 \<Longrightarrow> frame k1 k2 \<Longrightarrow> frame k k2"
  by (simp add: frame_def)

lemma frame_simps [simp]:
  "frame k (k1\<lparr>ks_mem := m\<rparr>) \<longleftrightarrow> frame k k1" "frame k (k1\<lparr>ks_socks := ss\<rparr>) \<longleftrightarrow> frame k k1"
  "frame k (k1\<lparr>ks_guest_mounts := gm\<rparr>) \<longleftrightarrow> frame k k1"
  "frame k (k1\<lparr>ks_fg_pgrp := fg\<rparr>) \<longleftrightarrow> frame k k1"
  by (simp_all add: frame_def)

lemma frame_path_of_fd [lx_frame]: "frame k (snd (k_path_of_fd fd k))"
  by (simp add: frame_def k_path_of_fd_def path_of_fd_def paths_ok_same)

lemma frame_dir_of [lx_frame]: "frame k (snd (dir_of fd k))"
  by (simp add: dir_of_def frame_path_of_fd)

lemma frame_at_dirfd [lx_frame]: "frame k (snd (at_dirfd_unresolvable r raw k))"
  by (simp add: at_dirfd_unresolvable_def Let_def split_def frame_dir_of)

lemma frame_dir_base [lx_frame]: "frame k (snd (dir_base r at k))"
  by (simp add: dir_base_def Let_def split_def frame_dir_of)

lemma frame_dot_prefix [lx_frame]: "frame k (snd (dot_prefix_error E r i at k))"
  by (simp add: dot_prefix_error_def Let_def split_def frame_dir_base)

lemma frame_pty_slave [lx_frame]: "frame k (snd (pty_slave_of_fd fd k))"
  by (simp add: pty_slave_of_fd_def Let_def split_def frame_path_of_fd)

lemma frame_write_out [lx_frame]: "frame k (snd (write_out E a bs v k))"
  by (simp add: write_out_def split: option.split)

lemma frame_stat_writers [lx_frame]:
  "frame k (snd (write_statx E a h k))" "frame k (snd (write_statbuf E a h k))" "frame k (snd (write_statfs E a p k))"
  "frame k (snd (write_link E a cap tgt k))"
  by (simp_all add: write_statx_def write_statbuf_def write_statfs_def write_link_def Let_def frame_write_out)

lemma frame_fast_stat [lx_frame]: "frame k (snd (fast_stat E hp gp k))"
  by (simp add: fast_stat_def Let_def split: option.split)

lemma frame_put_u32 [lx_frame]: "put_u32 E a v k = Some k' \<Longrightarrow> frame k k'"
  by (auto simp: put_u32_def)

lemma frame_proc_target [lx_frame]: "proc_symlink_target E ap k = Some (tgt, k') \<Longrightarrow> frame k k'"
  by (auto simp: proc_symlink_target_def proc_fd_target_def Let_def split_def frame_path_of_fd
      split: if_splits option.splits)

lemma frame_expand [lx_frame]: "expand_proc_links E ap fl k = Some (q, k') \<Longrightarrow> frame k k'"
  by (auto simp: expand_proc_links_def Let_def bind_eq_Some_conv split: if_splits option.splits dest: frame_proc_target)

lemma frame_resolve_raw [lx_frame]: "resolve_raw E r raw at fl k = Some (q, k') \<Longrightarrow> frame k k'"
  unfolding resolve_raw_def
  by (auto simp: Let_def split_def bind_eq_Some_conv split: if_splits dest!: frame_expand intro: frame_trans [OF frame_dir_of])

lemma frame_resolve_arg [lx_frame]: "resolve_arg E r i at fl k = Some (q, k') \<Longrightarrow> frame k k'"
  unfolding resolve_arg_def by (rule frame_resolve_raw)

lemma frame_resolve_second [lx_frame]: "resolve_second E r i at k = Some (q, k') \<Longrightarrow> frame k k'"
  by (auto simp: resolve_second_def Let_def split_def frame_dir_of split: if_splits)

lemma k_absolutize_canonical: "k_absolutize E raw dir k = Some q \<Longrightarrow> canonical_path q"
  unfolding k_absolutize_def by (rule absolutize_canonical)

lemma resolve_second_canonical: "resolve_second E r i at k = Some (q, k') \<Longrightarrow> canonical_path q"
  by (auto simp: resolve_second_def Let_def split_def dest: k_absolutize_canonical)

section \<open>Confined answers\<close>

text \<open>A path the host may be given: a path in a layer, with or without a slash behind it, or, for a
  directory the host is asked to enter, the rest of such a path below another one.\<close>

definition reaches :: "mount list \<Rightarrow> string \<Rightarrow> bool" where
  "reaches ms p \<longleftrightarrow> served_path ms p \<or> (\<exists>q. served_path ms q \<and> p = q @ ''/'')
     \<or> (\<exists>q. served_path ms q \<and> served_path ms (q @ ''/'' @ p))"

lemma reaches_served [simp]: "served_path ms p \<Longrightarrow> reaches ms p" "served_path ms p \<Longrightarrow> reaches ms (p @ ''/'')"
  by (auto simp: reaches_def)

text \<open>The name of an interpreter is passed on as it is where the namespace has no host file for it.\<close>

definition fate_confined :: "('h, 'd, 'm) backend \<Rightarrow> ('h, 'm) kst \<Rightarrow> fate \<Rightarrow> bool" where
  "fate_confined E k f \<longleftrightarrow>
     (case f of
        Redirect rd \<Rightarrow>
          reaches (ks_mounts k) (pa_host_path (rd_first rd))
          \<and> (\<forall>p. rd_second rd = Some p \<longrightarrow> reaches (ks_mounts k) (pa_host_path p))
      | ExecInterp _ interp _ _ _ \<Rightarrow>
          served_path (ks_mounts k) interp
          \<or> (\<exists>ap. k_absolutize E interp [] k = Some ap \<and> pc_realm (k_lookup E ap True k) \<noteq> Rhost)
      | SockRewrite _ p _ _ \<Rightarrow> served_path (ks_mounts k) p \<or> (p \<noteq> [] \<and> hd p = CHR 0x00)
      | _ \<Rightarrow> True)"

definition links_ok :: "('h, 'm) kst \<Rightarrow> bool" where
  "links_ok k \<longleftrightarrow> (\<forall>a b. backing_of (ks_links k) a = Some b \<longrightarrow> served_path (ks_mounts k) b)"

text \<open>The path of a pending open is bound to its descriptor later.\<close>

definition names_ok :: "('h, 'm) kst \<Rightarrow> bool" where
  "names_ok k \<longleftrightarrow> paths_ok (ks_ps k) \<and> (pd_open (ks_pending k) = [] \<or> canonical_path (pd_open (ks_pending k)))"

text \<open>What the links of \<open>/proc\<close> to programs and working directories say: normalized paths.  The names
  come from the backend and from the command lines of the processes.\<close>

definition proc_clean :: "('h, 'd, 'm) backend \<Rightarrow> ('h, 'm) kst \<Rightarrow> bool" where
  "proc_clean E k \<longleftrightarrow>
     (\<forall>pid e. exe_of E pid k = Some e \<longrightarrow> e = [] \<or> canonical_path e)
     \<and> (\<forall>f pid. be_cwd_of_pid E = Some f \<longrightarrow> f pid = [] \<or> canonical_path (f pid))"

definition kst_ok :: "('h, 'd, 'm) backend \<Rightarrow> ('h, 'm) kst \<Rightarrow> bool" where
  "kst_ok E k \<longleftrightarrow> list_all mount_ok (ks_mounts k) \<and> links_ok k \<and> names_ok k \<and> proc_clean E k"

lemma exe_of_procs: "ks_procs k' = ks_procs k \<Longrightarrow> exe_of E pid k' = exe_of E pid k"
  unfolding exe_of_def by (erule ssubst) (rule refl)

lemma proc_clean_procs: "ks_procs k' = ks_procs k \<Longrightarrow> proc_clean E k' \<longleftrightarrow> proc_clean E k"
  by (simp add: proc_clean_def exe_of_procs [of k' k])

definition keeps :: "('h, 'm) kst \<Rightarrow> ('h, 'm) kst \<Rightarrow> bool" where
  "keeps k k' \<longleftrightarrow> ks_mounts k' = ks_mounts k \<and> (names_ok k \<longrightarrow> names_ok k')"

definition confined :: "('h, 'd, 'm) backend \<Rightarrow> ('h, 'm) kst \<Rightarrow> ('h, 'm) handled \<Rightarrow> bool" where
  "confined E k m \<longleftrightarrow> (\<forall>f k'. m = Some (f, k') \<longrightarrow> fate_confined E k' f \<and> keeps k k')"

lemma keeps_refl [simp]: "keeps k k"
  by (simp add: keeps_def)

lemma keeps_trans: "keeps k k1 \<Longrightarrow> keeps k1 k2 \<Longrightarrow> keeps k k2"
  by (simp add: keeps_def)

lemma frame_keeps: "frame k k' \<Longrightarrow> keeps k k'"
  by (simp add: frame_def keeps_def names_ok_def)

lemma kst_ok_frame: "frame k k' \<Longrightarrow> kst_ok E k \<Longrightarrow> kst_ok E k'"
  using proc_clean_procs [of k' k E] by (simp add: frame_def kst_ok_def links_ok_def names_ok_def)

lemma fate_confined_simps [simp]:
  "fate_confined E k (val v)" "fate_confined E k (eno e)" "fate_confined E k fwd" "fate_confined E k (mirrored v)"
  "fate_confined E k (raise_at p sg)" "fate_confined E k (raise_group p sg ms)" "fate_confined E k (Inject ii bytes isd)"
  "fate_confined E k (ArgRewrite ai ato ac ab)" "fate_confined E k (Forward dm)"
  "fate_confined E k (redirect_to n hp) \<longleftrightarrow> reaches (ks_mounts k) hp"
  "fate_confined E k (redirect_scrubbed n hp l sb g) \<longleftrightarrow> reaches (ks_mounts k) hp"
  "fate_confined E k (Redirect ((Redirect_to pa)\<lparr>rd_may_block := mb\<rparr>)) \<longleftrightarrow> reaches (ks_mounts k) (pa_host_path pa)"
  "fate_confined E k (Redirect ((Redirect_to pa)\<lparr>rd_make_parents := mp\<rparr>)) \<longleftrightarrow> reaches (ks_mounts k) (pa_host_path pa)"
  "fate_confined E k (Redirect ((Redirect_to pa)\<lparr>rd_force_ret := fr\<rparr>)) \<longleftrightarrow> reaches (ks_mounts k) (pa_host_path pa)"
  "fate_confined E k (Redirect (Redirect_to pa)) \<longleftrightarrow> reaches (ks_mounts k) (pa_host_path pa)"
  "fate_confined E k (Redirect (with_second pb (Redirect_to pa))) \<longleftrightarrow>
     reaches (ks_mounts k) (pa_host_path pa) \<and> reaches (ks_mounts k) (pa_host_path pb)"
  "pa_host_path (PathArg pi hp) = hp" "pa_host_path (PathArg_guest pi hp g) = hp"
  by (simp_all add: fate_confined_def outcome_defs redirect_to_def redirect_scrubbed_def Redirect_to_def with_scrub_def
      with_second_def PathArg_def PathArg_guest_def)

section \<open>Classification\<close>

lemma k_classify_frame [simp]:
  "ks_mounts (snd (k_classify E ap w fo wi k)) = ks_mounts k" "ks_links (snd (k_classify E ap w fo wi k)) = ks_links k"
  "ks_pending (snd (k_classify E ap w fo wi k)) = ks_pending k"
  "ks_ps (snd (k_classify E ap w fo wi k)) = ks_ps k" "ks_procs (snd (k_classify E ap w fo wi k)) = ks_procs k"
  by (simp_all add: k_classify_def Let_def split_def)

lemma k_classify_name_frame [simp]:
  "ks_mounts (snd (k_classify_name E ap w fo wi k)) = ks_mounts k"
  "ks_links (snd (k_classify_name E ap w fo wi k)) = ks_links k"
  "ks_pending (snd (k_classify_name E ap w fo wi k)) = ks_pending k"
  "ks_ps (snd (k_classify_name E ap w fo wi k)) = ks_ps k"
  "ks_procs (snd (k_classify_name E ap w fo wi k)) = ks_procs k"
  by (simp_all add: k_classify_name_def Let_def split_def)

lemma k_classify_name_served:
  "kst_ok E k \<Longrightarrow> canonical_path ap \<Longrightarrow> served (ks_mounts k) (fst (k_classify_name E ap w fo wi k))"
  by (simp add: k_classify_name_def classify_name_def classify_impl_def Let_def split_def kst_ok_def classify_left_served)

lemma k_classify_served:
  assumes "kst_ok E k" "canonical_path ap"
  shows "served (ks_mounts k) (fst (k_classify E ap w fo wi k))"
proof -
  let ?pc = "fst (classify_impl (be_host E) (ks_mounts k) ap w fo wi 0 (fn_ns (ks_files k)))"
  have s: "served (ks_mounts k) ?pc"
    using assms by (simp add: classify_impl_def kst_ok_def classify_left_served)
  have "served (ks_mounts k) (?pc\<lparr>pc_host := b\<rparr>)"
    if "pc_realm ?pc = Rhost" "backing_of (ks_links k) a = Some b" for a b
    using s that assms(1) by (auto simp: served_def kst_ok_def links_ok_def)
  with s show ?thesis
    by (auto simp: k_classify_def classify_def Let_def split_def split: option.split)
qed

lemma k_lookup_served: "kst_ok E k \<Longrightarrow> canonical_path ap \<Longrightarrow> served (ks_mounts k) (k_lookup E ap fo k)"
  by (simp add: k_lookup_def k_classify_served)

lemma served_hostD:
  "served ms pc \<Longrightarrow> pc_realm pc = Rhost \<Longrightarrow> served_path ms (pc_host pc)"
  "served ms pc \<Longrightarrow> pc_host pc \<noteq> [] \<Longrightarrow> served_path ms (pc_host pc)"
  by (auto simp: served_def split: if_splits)

section \<open>Targets of the links of /proc\<close>

lemma canonical_deleted: "canonical_path p \<Longrightarrow> canonical_path (p @ '' (deleted)'')"
proof (cases "comps_of p" rule: rev_cases)
  case Nil
  assume "canonical_path p"
  then have "p = ''/''" using Nil by (simp add: canonical_path_def render_path_def)
  moreover have "canonical_path ''/ (deleted)''" by code_simp
  ultimately show ?thesis by simp
next
  case (snoc cs c)
  assume p: "canonical_path p"
  then have v: "list_all valid_comp (cs @ [c @ '' (deleted)''])"
    using snoc by (auto simp: canonical_path_def valid_comp_def plain_comp_def)
  have "p @ '' (deleted)'' = render_path (cs @ [c @ '' (deleted)''])"
    using p snoc by (cases cs) (auto simp: canonical_path_def render_path_def)
  then show ?thesis using canonical_render [OF v] by simp
qed

lemma path_of_fd_canonical: "paths_ok (ks_ps k) \<Longrightarrow> fst (k_path_of_fd fd k) \<noteq> [] \<Longrightarrow> canonical_path (fst (k_path_of_fd fd k))"
  using tab_ok_fds [of "ks_ps k"] by (auto simp: k_path_of_fd_def path_of_fd_def tab_ok_def split: option.splits)

lemma proc_target_canonical:
  assumes "kst_ok E k" "proc_symlink_target E ap k = Some (tgt, k')"
  shows "tgt = [] \<or> canonical_path tgt"
proof -
  have p: "paths_ok (ks_ps k)" and c: "proc_clean E k" using assms(1) by (simp_all add: kst_ok_def names_ok_def)
  have "proc_cwd E pid k = [] \<or> canonical_path (proc_cwd E pid k)" for pid
    using c paths_ok_cwd_canonical [OF p] by (auto simp: proc_cwd_def proc_clean_def split: option.split)
  moreover have "fst (proc_fd_target E num k) = [] \<or> canonical_path (fst (proc_fd_target E num k))" for num
    using path_of_fd_canonical [OF p] by (auto simp: proc_fd_target_def Let_def split_def intro: canonical_deleted)
  ultimately show ?thesis
    using assms(2) c canonical_root
    by (auto simp: proc_symlink_target_def Let_def proc_clean_def split: if_splits option.splits)
      (metis fst_conv)+
qed

section \<open>Rules for handlers\<close>

lemma confined_ret: "fate_confined E k' f \<Longrightarrow> keeps k k' \<Longrightarrow> confined E k (Some (f, k'))"
  by (simp add: confined_def)

lemma confined_pair: "fate_confined E (snd x) (fst x) \<Longrightarrow> keeps k (snd x) \<Longrightarrow> confined E k (Some x)"
  by (cases x) (simp add: confined_def)

lemma confined_if: "(c \<Longrightarrow> confined E k a) \<Longrightarrow> (\<not> c \<Longrightarrow> confined E k b) \<Longrightarrow> confined E k (if c then a else b)"
  by simp

lemma confined_from: "frame k k1 \<Longrightarrow> confined E k1 m \<Longrightarrow> confined E k m"
  by (auto simp: confined_def intro: keeps_trans [OF frame_keeps])

text \<open>A helper that returns a value and a state in the same frame.\<close>

lemma frame_mounts: "frame k k' \<Longrightarrow> ks_mounts k' = ks_mounts k"
  by (simp add: frame_def)

lemma confined_split:
  "kst_ok E k \<Longrightarrow> frame k (snd x) \<Longrightarrow> (\<And>v k1. kst_ok E k1 \<Longrightarrow> ks_mounts k1 = ks_mounts k \<Longrightarrow> confined E k1 (g v k1)) \<Longrightarrow>
   confined E k (case x of (v, k') \<Rightarrow> g v k')"
  by (simp add: split_def confined_from kst_ok_frame frame_mounts)

lemma confined_bind:
  assumes "kst_ok E k" "\<And>v k1. m = Some (v, k1) \<Longrightarrow> frame k k1" "\<And>v k1. m = Some (v, k1) \<Longrightarrow> P v"
    and "\<And>v k1. P v \<Longrightarrow> kst_ok E k1 \<Longrightarrow> ks_mounts k1 = ks_mounts k \<Longrightarrow> confined E k1 (g v k1)"
  shows "confined E k (m \<bind> (\<lambda>(v, k). g v k))"
proof (cases m)
  case (Some x)
  obtain v k1 where x: "x = (v, k1)" by force
  from assms(2,3) [of v k1] Some x have fr: "frame k k1" and c: "P v" by simp_all
  have "confined E k1 (g v k1)" by (rule assms(4) [OF c kst_ok_frame [OF fr assms(1)] frame_mounts [OF fr]])
  then show ?thesis using Some x confined_from [OF fr] by simp
qed (simp add: confined_def)

lemma confined_resolve:
  assumes "kst_ok E k" "\<And>ap k1. canonical_path ap \<Longrightarrow> kst_ok E k1 \<Longrightarrow> ks_mounts k1 = ks_mounts k \<Longrightarrow> confined E k1 (g ap k1)"
  shows "confined E k (resolve_arg E r i at fl k \<bind> (\<lambda>(ap, k). g ap k))"
    and "confined E k (resolve_raw E r raw at fl k \<bind> (\<lambda>(ap, k). g ap k))"
    and "confined E k (resolve_second E r i at k \<bind> (\<lambda>(ap, k). g ap k))"
  using assms by (auto intro!: confined_bind [where P = canonical_path] intro: lx_frame
      dest: resolve_arg_canonical resolve_raw_canonical resolve_second_canonical)

lemma confined_target:
  "kst_ok E k \<Longrightarrow> (\<And>tgt k1. tgt = [] \<or> canonical_path tgt \<Longrightarrow> kst_ok E k1 \<Longrightarrow> ks_mounts k1 = ks_mounts k \<Longrightarrow> confined E k1 (g tgt k1)) \<Longrightarrow>
   confined E k (proc_symlink_target E ap k \<bind> (\<lambda>(tgt, k). g tgt k))"
  by (rule confined_bind [where P = "\<lambda>tgt. tgt = [] \<or> canonical_path tgt"])
    (auto intro: lx_frame dest: proc_target_canonical)

lemma confined_absolutize:
  "(\<And>ap. canonical_path ap \<Longrightarrow> k_absolutize E raw dir k = Some ap \<Longrightarrow> confined E k (g ap)) \<Longrightarrow>
   confined E k (k_absolutize E raw dir k \<bind> g)"
  by (auto simp: confined_def bind_eq_Some_conv dest: k_absolutize_canonical)

lemma confined_classify:
  assumes "kst_ok E k" "canonical_path ap"
    and "\<And>pc k1. served (ks_mounts k1) pc \<Longrightarrow> kst_ok E k1 \<Longrightarrow> ks_mounts k1 = ks_mounts k \<Longrightarrow> confined E k1 (g pc k1)"
  shows "confined E k (case k_classify E ap w fo wi k of (pc, k') \<Rightarrow> g pc k')"
proof -
  let ?k = "snd (k_classify E ap w fo wi k)"
  have "kst_ok E ?k" using assms(1) proc_clean_procs [of ?k k E] by (simp add: kst_ok_def links_ok_def names_ok_def)
  with assms(3) [of ?k "fst (k_classify E ap w fo wi k)"] k_classify_served [OF assms(1,2), of w fo wi]
  have "confined E ?k (g (fst (k_classify E ap w fo wi k)) ?k)" by simp
  moreover have "keeps k ?k" by (simp add: keeps_def names_ok_def)
  ultimately show ?thesis by (auto simp: confined_def split_def intro: keeps_trans)
qed

lemma confined_option:
  "(x = None \<Longrightarrow> confined E k a) \<Longrightarrow> (\<And>y. x = Some y \<Longrightarrow> confined E k (g y)) \<Longrightarrow>
   confined E k (case x of None \<Rightarrow> a | Some y \<Rightarrow> g y)"
  by (simp split: option.split)

lemma confined_realm:
  assumes "kst_ok E k" "canonical_path ap"
    and "served_path (ks_mounts k) (pc_host (k_lookup E ap fo k)) \<Longrightarrow> confined E k a"
    and "confined E k b" and "confined E k c"
  shows "confined E k (case pc_realm (k_lookup E ap fo k) of Rhost \<Rightarrow> a | Rvirtual \<Rightarrow> b | Rabsent \<Rightarrow> c)"
  using assms(3-5) served_hostD(1) [OF k_lookup_served [OF assms(1,2)]]
  by (cases "pc_realm (k_lookup E ap fo k)") auto

lemma confined_realm_of:
  "(rl = Rhost \<Longrightarrow> confined E k a) \<Longrightarrow> (rl = Rvirtual \<Longrightarrow> confined E k b) \<Longrightarrow> (rl = Rabsent \<Longrightarrow> confined E k c) \<Longrightarrow>
   confined E k (case rl of Rhost \<Rightarrow> a | Rvirtual \<Rightarrow> b | Rabsent \<Rightarrow> c)"
  by (cases rl) auto

lemma confined_value: "(\<And>v. m = Some v \<Longrightarrow> confined E k (g v)) \<Longrightarrow> confined E k (m \<bind> g)"
  by (auto simp: confined_def bind_eq_Some_conv)

lemma confined_sum:
  "(\<And>e. x = Inl e \<Longrightarrow> confined E k (a e)) \<Longrightarrow> (\<And>y. x = Inr y \<Longrightarrow> confined E k (g y)) \<Longrightarrow>
   confined E k (case x of Inl e \<Rightarrow> a e | Inr y \<Rightarrow> g y)"
  by (simp split: sum.split)

lemma confined_some:
  "(c \<Longrightarrow> confined E k (Some x)) \<Longrightarrow> (\<not> c \<Longrightarrow> confined E k (Some y)) \<Longrightarrow> confined E k (Some (if c then x else y))"
  "(o' = None \<Longrightarrow> confined E k (Some x)) \<Longrightarrow> (\<And>v. o' = Some v \<Longrightarrow> confined E k (Some (f v))) \<Longrightarrow>
   confined E k (Some (case o' of None \<Rightarrow> x | Some v \<Rightarrow> f v))"
  "(\<And>e. s = Inl e \<Longrightarrow> confined E k (Some (a e))) \<Longrightarrow> (\<And>v. s = Inr v \<Longrightarrow> confined E k (Some (g v))) \<Longrightarrow>
   confined E k (Some (case s of Inl e \<Rightarrow> a e | Inr v \<Rightarrow> g v))"
  by (simp_all split: option.split sum.split)

lemma confined_some_split:
  "kst_ok E k \<Longrightarrow> frame k (snd x) \<Longrightarrow>
   (\<And>v k1. kst_ok E k1 \<Longrightarrow> ks_mounts k1 = ks_mounts k \<Longrightarrow> confined E k1 (Some (g v k1))) \<Longrightarrow>
   confined E k (Some (case x of (v, k') \<Rightarrow> g v k'))"
  using confined_split [of E k x "\<lambda>v k'. Some (g v k')"] by (simp add: split_def)

lemma confined_some_realm:
  assumes "kst_ok E k" "canonical_path ap"
    and "served_path (ks_mounts k) (pc_host (k_lookup E ap fo k)) \<Longrightarrow> confined E k (Some a)"
    and "confined E k (Some b)" and "confined E k (Some c)"
  shows "confined E k (Some (case pc_realm (k_lookup E ap fo k) of Rhost \<Rightarrow> a | Rvirtual \<Rightarrow> b | Rabsent \<Rightarrow> c))"
  using confined_realm [OF assms(1,2), of fo "Some a" "Some b" "Some c"] assms(3-5)
  by (cases "pc_realm (k_lookup E ap fo k)") auto

lemma lookup_reaches:
  "kst_ok E k \<Longrightarrow> canonical_path ap \<Longrightarrow> pc_realm (k_lookup E ap fo k) = Rhost \<Longrightarrow> ks_mounts k = ms \<Longrightarrow>
   reaches ms (pc_host (k_lookup E ap fo k))"
  "kst_ok E k \<Longrightarrow> canonical_path ap \<Longrightarrow> pc_realm (k_lookup E ap fo k) = Rhost \<Longrightarrow> ks_mounts k = ms \<Longrightarrow>
   reaches ms (pc_host (k_lookup E ap fo k) @ ''/'')"
  by (auto simp: k_lookup_served [THEN served_hostD(1)])

lemma class_reaches: "served ms pc \<Longrightarrow> pc_host pc \<noteq> [] \<Longrightarrow> reaches ms (pc_host pc)"
  by (simp add: served_hostD(2))

lemma confined_refused:
  "confined E k (Some (val v, k))" "confined E k (Some (eno e, k))" "confined E k (Some (fwd, k))"
  by (simp_all add: confined_def)

lemmas confined_rules = confined_refused confined_if confined_resolve confined_target confined_absolutize
  confined_classify confined_split confined_option confined_sum confined_realm confined_realm_of
  confined_some confined_some_split confined_some_realm confined_ret confined_pair confined_value

section \<open>Lookups\<close>

lemma path_at_confined [lx_confined]: "kst_ok E k \<Longrightarrow> confined E k (path_at E r i at k)"
  unfolding path_at_def Let_def
  by (intro confined_rules)
    (auto simp: lx_frame split: realm.split dest: k_lookup_served [THEN served_hostD(1)])

lemma path_watch_confined [lx_confined]: "kst_ok E k \<Longrightarrow> confined E k (path_watch E r i at k)"
  unfolding path_watch_def Let_def
  by (intro confined_rules)
    (auto simp: lx_frame split: realm.split dest: k_lookup_served [THEN served_hostD(1)])

lemma readlink_virtual_confined [simp]:
  "fate_confined E k' (fst (readlink_virtual E b c ap k))" "frame k (snd (readlink_virtual E b c ap k))"
  by (simp_all add: readlink_virtual_def lx_frame write_link_def write_out_def Let_def split: sum.split option.split)

lemma write_confined [simp]:
  "fate_confined E k' (fst (write_out E b bs v k))" "fate_confined E k' (fst (write_link E b c tgt k))"
  "fate_confined E k' (fst (write_statx E b h k))" "fate_confined E k' (fst (write_statbuf E b h k))"
  "fate_confined E k' (fst (write_statfs E b p k))"
  by (simp_all add: write_link_def write_out_def write_statx_def write_statbuf_def write_statfs_def Let_def split: option.split)

lemma do_readlink_confined [lx_confined]: "kst_ok E k \<Longrightarrow> confined E k (do_readlink E r i at k)"
  unfolding do_readlink_def Let_def
  by (intro confined_rules) (simp_all add: lx_frame frame_keeps)

lemma stat_virtual_confined [lx_confined]: "kst_ok E k \<Longrightarrow> confined E k (stat_virtual E i sb fo vp k)"
  unfolding stat_virtual_def Let_def
  by (intro confined_rules) (auto simp: lx_frame frame_keeps lookup_reaches)

lemma path_stat_confined [lx_confined]: "kst_ok E k \<Longrightarrow> confined E k (path_stat E r i at fo k)"
  unfolding path_stat_def Let_def
  by (intro confined_rules lx_confined) (simp_all add: lx_frame frame_keeps lookup_reaches)

lemma statx_virtual_confined [lx_confined]: "kst_ok E k \<Longrightarrow> confined E k (statx_virtual E sb nf vp k)"
  unfolding statx_virtual_def Let_def
  by (intro confined_rules) (auto simp: lx_frame frame_keeps lookup_reaches)

lemma statx_fd_confined [lx_confined]: "kst_ok E k \<Longrightarrow> confined E k (statx_fd E r k)"
  unfolding statx_fd_def Let_def
  by (intro confined_rules) (simp_all add: lx_frame frame_keeps)

lemma path_statx_confined [lx_confined]: "kst_ok E k \<Longrightarrow> confined E k (path_statx E r k)"
  unfolding path_statx_def Let_def
  by (intro confined_rules lx_confined) (simp_all add: lx_frame frame_keeps lookup_reaches)

lemma path_statfs_confined [lx_confined]: "kst_ok E k \<Longrightarrow> confined E k (path_statfs E r k)"
  unfolding path_statfs_def Let_def
  by (intro confined_rules lx_confined) (simp_all add: lx_frame frame_keeps lookup_reaches)

lemma do_fstatfs_confined [lx_confined]: "kst_ok E k \<Longrightarrow> confined E k (Some (do_fstatfs E r k))"
  unfolding do_fstatfs_def Let_def
  by (intro confined_rules) (simp_all add: lx_frame frame_keeps)

lemma path_xattr_confined [lx_confined]: "kst_ok E k \<Longrightarrow> confined E k (path_xattr E r fw fo i at k)"
  unfolding path_xattr_def Let_def
  by (intro confined_rules) (simp_all add: lx_frame frame_keeps class_reaches)

lemma do_chroot_confined [lx_confined]: "kst_ok E k \<Longrightarrow> confined E k (do_chroot E r k)"
  unfolding do_chroot_def Let_def
  by (intro confined_rules) (auto split: realm.split sum.split)

lemma do_getcwd_confined [lx_confined]: "kst_ok E k \<Longrightarrow> confined E k (Some (do_getcwd E r k))"
  unfolding do_getcwd_def Let_def
  by (intro confined_rules) (simp_all add: lx_frame frame_keeps)

lemma keeps_ps: "(paths_ok (ks_ps k) \<Longrightarrow> paths_ok (f (ks_ps k))) \<Longrightarrow> keeps k (k_upd_ps f k)"
  by (simp add: keeps_def names_ok_def k_upd_ps_def)

lemma do_close_confined [lx_confined]: "confined E k (Some (do_close r k))"
  by (simp add: do_close_def confined_def keeps_ps paths_ok_unbind)

lemma do_fchdir_confined [lx_confined]: "kst_ok E k \<Longrightarrow> confined E k (Some (do_fchdir r k))"
  unfolding do_fchdir_def Let_def
  by (intro confined_rules) (simp_all add: lx_frame keeps_ps paths_ok_cwd)

lemma kst_ok_ps: "kst_ok E k \<Longrightarrow> (paths_ok (ks_ps k) \<Longrightarrow> paths_ok (f (ks_ps k))) \<Longrightarrow> kst_ok E (k_upd_ps f k)"
  using proc_clean_procs [of "k_upd_ps f k" k E] by (simp add: kst_ok_def k_upd_ps_def links_ok_def names_ok_def)

lemma kst_ok_cwd: "kst_ok E k \<Longrightarrow> canonical_path (cwd (ks_ps k))"
  by (simp add: kst_ok_def names_ok_def paths_ok_cwd_canonical)

lemma reaches_below: "served_path ms q \<Longrightarrow> served_path ms p \<Longrightarrow> starts_with p (q @ ''/'') \<Longrightarrow> reaches ms (drop (length (q @ ''/'')) p)"
  unfolding reaches_def starts_with_iff by auto

lemma chdir_on_host_confined:
  assumes "kst_ok E k" "canonical_path old" "served_path (ks_mounts k) hp"
  shows "fate_confined E k (chdir_on_host E old hp k)"
  using assms reaches_below [OF served_hostD(1) [OF k_lookup_served [OF assms(1,2)]] assms(3)]
  by (simp add: chdir_on_host_def Let_def)

lemma do_chdir_confined [lx_confined]:
  assumes "kst_ok E k"
  shows "confined E k (do_chdir E r k)"
proof -
  have m: "kst_ok E (k_upd_ps (set_cwd ap) k)" "keeps k (k_upd_ps (set_cwd ap) k)" for ap
    using assms by (simp_all add: kst_ok_ps keeps_ps paths_ok_cwd)
  have u: "ks_mounts (k_upd_ps f k) = ks_mounts k" for f by (simp add: k_upd_ps_def)
  show ?thesis
    unfolding do_chdir_def Let_def using assms
    by (intro confined_rules) (simp_all add: m u chdir_on_host_confined kst_ok_cwd split: option.split)
qed

lemma getdents_paths: "paths_ok s \<Longrightarrow> paths_ok (fst (snd (do_getdents64 mm l r (s, m))))"
  using paths_ok_stream [of s l "int_arg r 0"]
  by (cases "dir_stream_at l (int_arg r 0) s")
    (auto simp: do_getdents64_def Let_def split_def paths_ok_put_stream split: option.split)

lemma getdents_fate: "fate_confined E k (fst (do_getdents64 mm l r st))"
  by (auto simp: do_getdents64_def Let_def split_def split: option.split)

lemma getdents_confined [lx_confined]: "confined E k (Some (k_getdents64 E r k))"
  by (simp add: k_getdents64_def Let_def split_def confined_def keeps_def names_ok_def getdents_paths getdents_fate)

lemma lseek_confined [lx_confined]: "confined E k (Some (k_lseek E r k))"
  using paths_ok_stream [of "ks_ps k" "k_listing E k" "int_arg r 0"]
  by (cases "dir_stream_at (k_listing E k) (int_arg r 0) (ks_ps k)")
    (auto simp: k_lseek_def do_lseek_def Let_def split_def confined_def keeps_def names_ok_def paths_ok_put_stream
      split: option.split)

lemma do_mount_confined [lx_confined]: "confined E k (do_mount E r k)"
  unfolding do_mount_def Let_def
  by (intro confined_rules) (simp_all add: keeps_def names_ok_def)

lemma do_umount2_confined [lx_confined]: "confined E k (do_umount2 E r k)"
  unfolding do_umount2_def Let_def
  by (intro confined_rules) (simp_all add: keeps_def names_ok_def)

section \<open>Changes to the tree\<close>

text \<open>Only the tree changed, not the mounts.\<close>

definition aside :: "('h, 'm) kst \<Rightarrow> ('h, 'm) kst \<Rightarrow> bool" where
  "aside k k' \<longleftrightarrow> ks_mounts k' = ks_mounts k \<and> ks_ps k' = ks_ps k \<and> ks_pending k' = ks_pending k
     \<and> ks_procs k' = ks_procs k"

lemma aside_refl [simp]: "aside k k"
  by (simp add: aside_def)

lemma aside_trans: "aside k k1 \<Longrightarrow> aside k1 k2 \<Longrightarrow> aside k k2"
  by (simp add: aside_def)

lemma aside_keeps: "aside k k' \<Longrightarrow> keeps k k'"
  by (simp add: aside_def keeps_def names_ok_def)

lemma aside_mounts: "aside k k' \<Longrightarrow> ks_mounts k' = ks_mounts k"
  by (simp add: aside_def)

lemma aside_simps [simp]:
  "aside k (k_upd_meta f k1) \<longleftrightarrow> aside k k1" "aside k (k_upd_wo f2 k1) \<longleftrightarrow> aside k k1"
  "aside k (k_upd_links f3 k1) \<longleftrightarrow> aside k k1" "aside k (k1\<lparr>ks_socks := ss\<rparr>) \<longleftrightarrow> aside k k1"
  "aside k (k1\<lparr>ks_links_work := lw\<rparr>) \<longleftrightarrow> aside k k1"
  by (simp_all add: aside_def k_upd_meta_def k_upd_wo_def k_upd_links_def)

lemma aside_call: "snd (k_call c f k) = k' \<Longrightarrow> aside k k'"
  by (auto simp: aside_def k_call_def Let_def split_def)

lemma aside_host [simp]:
  "aside k (snd (k_call c f k1)) \<longleftrightarrow> aside k k1" "aside k (snd (k_chmod E p md k1)) \<longleftrightarrow> aside k k1"
  "aside k (snd (k_unlink E p k1)) \<longleftrightarrow> aside k k1" "aside k (snd (k_rename E p q fl k1)) \<longleftrightarrow> aside k k1"
  "aside k (snd (k_create E p ex md k1)) \<longleftrightarrow> aside k k1" "aside k (snd (k_link E p q k1)) \<longleftrightarrow> aside k k1"
  "aside k (snd (k_copy E p bs k1)) \<longleftrightarrow> aside k k1"
  by (simp_all add: aside_def k_call_def k_chmod_def k_unlink_def k_rename_def k_create_def k_link_def k_copy_def
      Let_def split_def)

lemma aside_classify [simp]:
  "aside k (snd (k_classify E ap w fo wi k1)) \<longleftrightarrow> aside k k1"
  "aside k (snd (k_classify_name E ap w fo wi k1)) \<longleftrightarrow> aside k k1"
  by (simp_all add: aside_def)

lemma aside_option:
  "aside k (snd x) \<Longrightarrow> (\<And>e k1. aside k k1 \<Longrightarrow> aside k (f e k1)) \<Longrightarrow> aside k (case x of (e, k1) \<Rightarrow> f e k1)"
  by (simp add: split_def)

lemma aside_grant [simp]: "aside k (grant_root_write E ap host k)"
  unfolding grant_root_write_def Let_def
  by (auto intro!: aside_option split: sum.split option.split)

section \<open>Opening and starting programs\<close>

lemma keeps_pending:
  "aside k k1 \<Longrightarrow> canonical_path ap \<Longrightarrow> pd_open pd = ap \<Longrightarrow> keeps k (k1\<lparr>ks_pending := pd\<rparr>)"
  by (simp add: aside_def keeps_def names_ok_def)

lemma open_host_confined:
  assumes "canonical_path ap" "reaches (ks_mounts k) host"
  shows "confined E k (Some (open_host E i flags ap host k))"
proof -
  define k1 where "k1 = k\<lparr>ks_pending := (ks_pending k)\<lparr>pd_open := ap, pd_flags := flags\<rparr>\<rparr>"
  have k1: "keeps k k1" "ks_mounts k1 = ks_mounts k" using assms(1) by (simp_all add: k1_def keeps_pending)
  have g: "keeps k1 (grant_root_write E ap host k1)" "ks_mounts (grant_root_write E ap host k1) = ks_mounts k1"
    by (simp_all add: aside_keeps aside_mounts)
  have "keeps k (k1\<lparr>ks_pending := (ks_pending k1)\<lparr>pd_dir := True, pd_lazy := ap\<rparr>\<rparr>)"
    using assms(1) by (simp add: k1_def keeps_pending)
  then show ?thesis
    using assms(2) k1 g keeps_trans [OF k1(1) g(1)]
    by (simp add: open_host_def Let_def confined_def k1_def [symmetric])
qed

lemma virtual_name_canonical: "served ms pc \<Longrightarrow> canonical_path ap \<Longrightarrow> canonical_path (virtual_name pc ap)"
  by (auto simp: virtual_name_def served_def)

lemma open_virtual_confined:
  "canonical_path vp \<Longrightarrow> confined E k (Some (open_virtual E i flags vp k))"
  unfolding open_virtual_def Let_def
  by (intro confined_rules) (simp_all add: keeps_pending)

lemma keeps_named_pending: "canonical_path ap \<Longrightarrow> keeps k (k\<lparr>ks_pending := pd\<lparr>pd_open := ap, pd_flags := fl\<rparr>\<rparr>)"
  by (simp add: keeps_pending)

lemma link_redirect_confined:
  "kst_ok E k \<Longrightarrow> canonical_path ap \<Longrightarrow> c \<and> host_path_is_symlink E h (pc_host (k_lookup E ap fo k)) \<Longrightarrow>
   ks_mounts k' = ks_mounts k \<Longrightarrow>
   fate_confined E k' (Redirect (Redirect_to (PathArg i (pc_host (k_lookup E ap fo k)))))"
  using class_reaches [OF k_lookup_served] by (auto simp: host_path_is_symlink_def split: if_splits)

lemma host_class_reaches: "served ms pc \<Longrightarrow> pc_realm pc = Rhost \<Longrightarrow> reaches ms (pc_host pc)"
  by (simp add: served_hostD(1))

lemma path_open_flags_confined [lx_confined]: "kst_ok E k \<Longrightarrow> confined E k (path_open_flags E r i at flags k)"
  unfolding path_open_flags_def Let_def
  by (intro open_virtual_confined open_host_confined confined_rules;
      (assumption | rule lx_frame | erule (1) virtual_name_canonical | erule (1) host_class_reaches
       | erule keeps_named_pending | (erule (2) link_redirect_confined, simp (no_asm)) | simp (no_asm)))

lemma exec_interp_confined:
  assumes "kst_ok E k" "interp_on_host E interp k = Some (ap, h)"
  shows "fate_confined E k (ExecInterp i h a b c)"
proof -
  let ?pc = "k_lookup E ap True k"
  have ap: "k_absolutize E interp [] k = Some ap" and h: "h = (if pc_realm ?pc = Rhost then pc_host ?pc else interp)"
    using assms(2) by (auto simp: interp_on_host_def bind_eq_Some_conv Let_def)
  have "served_path (ks_mounts k) (pc_host ?pc)" if "pc_realm ?pc = Rhost"
    by (rule served_hostD(1) [OF k_lookup_served [OF assms(1) k_absolutize_canonical [OF ap]] that])
  then show ?thesis using ap by (simp add: fate_confined_def h)
qed

lemma exec_script_confined: "kst_ok E k \<Longrightarrow> exec_script E i ap si sa k = Some f \<Longrightarrow> fate_confined E k f"
  by (auto simp: exec_script_def Let_def bind_eq_Some_conv intro: exec_interp_confined split: if_splits)

lemma exec_host_confined:
  assumes "kst_ok E k" "served_path (ks_mounts k) host" "exec_host E i ap ex host k = Some f"
  shows "fate_confined E k f"
  using assms(3) reaches_served(1) [OF assms(2)] exec_script_confined [OF assms(1)] exec_interp_confined [OF assms(1)]
  by (auto simp: exec_host_def Let_def split: if_splits prod.splits)

lemma confined_map: "(\<And>f. m = Some f \<Longrightarrow> fate_confined E k f) \<Longrightarrow> confined E k (map_option (\<lambda>f. (f, k)) m)"
  by (auto simp: confined_def)

lemma path_exec_confined [lx_confined]: "kst_ok E k \<Longrightarrow> confined E k (path_exec E r i k)"
  unfolding path_exec_def Let_def
  by (intro confined_rules confined_map; (assumption | rule lx_frame | erule (2) exec_host_confined | simp (no_asm)))

section \<open>Tasks\<close>

lemma keeps_simps [simp]:
  "keeps k (k1\<lparr>ks_procs := ps\<rparr>) \<longleftrightarrow> keeps k k1" "keeps k (k1\<lparr>ks_mem := m\<rparr>) \<longleftrightarrow> keeps k k1"
  "keeps k (k1\<lparr>ks_fg_pgrp := fg\<rparr>) \<longleftrightarrow> keeps k k1" "keeps k (k1\<lparr>ks_procs := ps, ks_fg_pgrp := fg\<rparr>) \<longleftrightarrow> keeps k k1"
  by (simp_all add: keeps_def names_ok_def)

lemma put_u32_keeps: "put_u32 E a v k = Some k' \<Longrightarrow> keeps k0 k \<Longrightarrow> keeps k0 k'"
  using frame_put_u32 frame_keeps keeps_trans by metis

lemma task_answers_confined [simp]:
  "fate_confined E k' (do_identity E sc k)" "fate_confined E k' (do_tkill r)" "fate_confined E k' (do_tgkill r)"
  "fate_confined E k' (do_priority r)" "fate_confined E k' (landlock_create r)" "fate_confined E k' (landlock_add_rule r)"
  "fate_confined E k' (do_socket r)" "fate_confined E k' (do_dup r)" "fate_confined E k' (do_dup2 r)"
  "fate_confined E k' (do_fcntl r)" "fate_confined E k' (do_fxattr_write E r k)"
  by (simp_all add: do_identity_def do_tkill_def do_tgkill_def do_priority_def landlock_create_def landlock_add_rule_def
      do_socket_def do_dup_def do_dup2_def do_fcntl_def do_fxattr_write_def split: option.split)

lemmas task_defs = do_kill_def do_getpgrp_def do_getpgid_def do_getsid_def do_setpgid_def do_setsid_def do_setgroups_def
  do_getgroups_def do_prctl_def do_uname_def do_sysinfo_def do_sched_getaffinity_def

lemma do_kill_confined [lx_confined]: "confined E k (do_kill E r k)"
  unfolding task_defs Let_def by (intro confined_rules) simp_all

lemma group_reads_confined [lx_confined]:
  "confined E k (do_getpgrp E k)" "confined E k (do_getpgid E r k)" "confined E k (do_getsid E r k)"
  unfolding task_defs Let_def by (intro confined_rules; simp)+

lemma group_writes_confined [lx_confined]:
  "confined E k (do_setpgid E r k)" "confined E k (do_setsid E k)" "confined E k (Some (do_setgroups E r k))"
  unfolding task_defs Let_def by (intro confined_rules; simp)+

lemma do_getgroups_confined [lx_confined]: "confined E k (do_getgroups E r k)"
  unfolding task_defs Let_def by (intro confined_rules) (simp_all add: lx_frame frame_keeps)

lemma machine_confined [lx_confined]:
  "confined E k (Some (do_uname E a k))" "confined E k (Some (do_sysinfo E a k))" "confined E k (Some (do_prctl E r k))"
  unfolding task_defs Let_def by (intro confined_rules; simp add: lx_frame frame_keeps)+

lemma write_out_confined: "confined E k (Some (write_out E a bs v k))"
  by (intro confined_pair) (simp_all add: lx_frame frame_keeps)

lemma do_sched_getaffinity_confined [lx_confined]: "confined E k (Some (do_sched_getaffinity E r k))"
  unfolding do_sched_getaffinity_def Let_def
  by (cases "be_host_tid E"; cases "be_host_tid_of E"; simp only: prod.case option.case)
    (intro write_out_confined confined_refused confined_some)+

lemma do_getres_confined [lx_confined]: "confined E k (Some (do_getres E r k))"
  unfolding do_getres_def by (intro confined_rules; (simp; fail | (rule keeps_refl | erule put_u32_keeps)+))

lemma confined_ctty:
  "kst_ok E k \<Longrightarrow> (\<And>b k1. kst_ok E k1 \<Longrightarrow> confined E k1 (g b k1)) \<Longrightarrow>
   confined E k (fd_is_our_ctty E fd k \<bind> (\<lambda>(b, k). g b k))"
  by (rule confined_bind [where P = "\<lambda>_. True"])
    (auto simp: fd_is_our_ctty_def bind_eq_Some_conv Let_def split_def intro: lx_frame)

lemma ctty_refusal_confined: "confined E k (Some (ctty_refusal E r k))"
  by (simp add: ctty_refusal_def Let_def split_def confined_def lx_frame frame_keeps)

lemma do_ioctl_confined [lx_confined]: "kst_ok E k \<Longrightarrow> confined E k (do_ioctl E r k)"
  unfolding do_ioctl_def tty_claim_def tty_give_up_def tty_get_fg_def tty_get_sid_def tty_set_fg_def Let_def
  by (intro confined_ctty ctty_refusal_confined confined_rules)
    (auto simp: lx_frame fg_recorded_def intro: put_u32_keeps)

section \<open>Changing one path\<close>

lemma upd_mounts [simp]:
  "ks_mounts (k_upd_meta f k) = ks_mounts k" "ks_mounts (k_upd_wo f2 k) = ks_mounts k"
  "ks_mounts (k_upd_links f3 k) = ks_mounts k" "ks_mounts (k_upd_ps f4 k) = ks_mounts k"
  by (simp_all add: k_upd_meta_def k_upd_wo_def k_upd_links_def k_upd_ps_def)

lemma answer_confined [simp]: "fate_confined E k (answer e)"
  by (simp add: answer_def split: option.split)

text \<open>A helper whose answer is a value or an error and which changes only the tree.\<close>

definition settled :: "('h, 'd, 'm) backend \<Rightarrow> ('h, 'm) kst \<Rightarrow> fate \<times> ('h, 'm) kst \<Rightarrow> bool" where
  "settled E k x \<longleftrightarrow> (\<forall>k'. fate_confined E k' (fst x)) \<and> aside k (snd x)"

lemma settledI: "(\<And>k'. fate_confined E k' f) \<Longrightarrow> aside k k' \<Longrightarrow> settled E k (f, k')"
  by (simp add: settled_def)

lemma settled_pair [simp]: "settled E k (f, k1) \<longleftrightarrow> (\<forall>k'. fate_confined E k' f) \<and> aside k k1"
  by (simp add: settled_def)

lemma settled_confined: "settled E k x \<Longrightarrow> confined E k (Some x)"
  by (simp add: settled_def confined_pair aside_keeps)

lemma settled_if: "(c \<Longrightarrow> settled E k x) \<Longrightarrow> (\<not> c \<Longrightarrow> settled E k y) \<Longrightarrow> settled E k (if c then x else y)"
  by simp

lemma settled_split:
  "aside k (snd x) \<Longrightarrow> (\<And>v k1. aside k k1 \<Longrightarrow> settled E k (g v k1)) \<Longrightarrow> settled E k (case x of (v, k1) \<Rightarrow> g v k1)"
  by (simp add: split_def)

lemma settled_option:
  "(z = None \<Longrightarrow> settled E k a) \<Longrightarrow> (\<And>v. z = Some v \<Longrightarrow> settled E k (g v)) \<Longrightarrow>
   settled E k (case z of None \<Rightarrow> a | Some v \<Rightarrow> g v)"
  by (simp split: option.split)

lemma settled_sum:
  "(\<And>e. z = Inl e \<Longrightarrow> settled E k (a e)) \<Longrightarrow> (\<And>v. z = Inr v \<Longrightarrow> settled E k (g v)) \<Longrightarrow>
   settled E k (case z of Inl e \<Rightarrow> a e | Inr v \<Rightarrow> g v)"
  by (simp split: sum.split)

lemma settled_from: "aside k k1 \<Longrightarrow> settled E k1 x \<Longrightarrow> settled E k x"
  by (auto simp: settled_def intro: aside_trans)

lemmas settled_rules = settled_if settled_split settled_option settled_sum settledI

lemma unlink_with_links_settled: "settled E k (unlink_with_links E name k)"
  unfolding unlink_with_links_def Let_def
  by (intro settled_rules) (simp_all add: split_def split: option.split)

lemma unlink_with_links_confined: "aside k k1 \<Longrightarrow> confined E k (Some (unlink_with_links E name k1))"
  by (rule settled_confined [OF settled_from [OF _ unlink_with_links_settled]])

lemma path_mut_confined [lx_confined]: "kst_ok E k \<Longrightarrow> confined E k (path_mut E r i at wi sp rm k)"
  unfolding path_mut_def Let_def
  by (intro unlink_with_links_confined confined_rules)
    (simp_all add: lx_frame aside_keeps class_reaches)

lemma do_utimes_confined [lx_confined]: "kst_ok E k \<Longrightarrow> confined E k (do_utimes E r i at fa k)"
  unfolding do_utimes_def Let_def
  by (intro path_mut_confined confined_rules) simp_all

section \<open>Modes and owners\<close>

lemma chmod_named_settled: "settled E k (chmod_named E ap mode k)"
  unfolding chmod_named_def Let_def
  by (intro settled_rules) simp_all

lemma chmod_fd_confined: "kst_ok E k \<Longrightarrow> confined E k (Some (chmod_fd E fd mode k))"
  unfolding chmod_fd_def Let_def
  by (intro settled_confined [OF chmod_named_settled] confined_rules)
    (simp_all add: lx_frame split_def aside_keeps confined_def)

lemma do_chmod_call_confined [lx_confined]: "kst_ok E k \<Longrightarrow> confined E k (do_chmod_call E r i at fl k)"
  unfolding do_chmod_call_def Let_def
  by (intro settled_confined [OF chmod_named_settled] chmod_fd_confined confined_rules) (simp_all add: lx_frame)

lemma do_fchmod_settled: "settled E k (case k_classify E gp True False Copy_leaf k of (wc, k) \<Rightarrow>
    if pc_host wc = [] then (val 0, k_upd_meta (set_mode gp mode no_id) k)
    else case k_chmod E (pc_host wc) (mode AND kPermMask) k of
      (None, k) \<Rightarrow> (val 0, k_upd_meta (set_mode gp mode (landed_mode E (pc_host wc) k)) k)
    | (Some _, k) \<Rightarrow> (val 0, k_upd_meta (set_mode gp mode no_id) k))"
  by (intro settled_rules) simp_all

lemma do_fchmod_confined [lx_confined]: "kst_ok E k \<Longrightarrow> confined E k (Some (do_fchmod E r k))"
  unfolding do_fchmod_def Let_def
  by (intro settled_confined [OF do_fchmod_settled] confined_rules) (simp_all add: lx_frame)

lemma do_chown_confined [lx_confined]: "kst_ok E k \<Longrightarrow> confined E k (do_chown E r i ua ga at fo k)"
  unfolding do_chown_def Let_def
  by (intro confined_rules) (simp_all add: lx_frame aside_keeps split: option.split)

lemma do_fchown_confined [lx_confined]: "kst_ok E k \<Longrightarrow> confined E k (Some (do_fchown r k))"
  unfolding do_fchown_def Let_def
  by (intro confined_rules) (simp_all add: lx_frame aside_keeps)

section \<open>Two paths\<close>

lemma aside_links_work [simp]: "aside k (snd (host_links_work E near k))"
  unfolding host_links_work_def Let_def
  by (simp add: split_def split: option.split sum.split)

lemma emulate_link_from_fd_settled: "settled E k (emulate_link_from_fd E sfd dst k)"
  unfolding emulate_link_from_fd_def Let_def
  by (intro settled_rules) (simp_all split: bool.split)

lemma add_alias_settled: "settled E k (add_alias E name b k)"
  unfolding add_alias_def by (intro settled_rules) simp_all

lemma link_fd_to_settled: "settled E k (link_fd_to E sfd dst k)"
  unfolding link_fd_to_def Let_def
  by (intro settled_from [OF _ add_alias_settled] settled_from [OF _ emulate_link_from_fd_settled] settled_rules)
    simp_all

lemma link_from_fd_confined: "kst_ok E k \<Longrightarrow> confined E k (link_from_fd E r fd a2 at k)"
  unfolding link_from_fd_def Let_def
  by (intro settled_confined [OF link_fd_to_settled] confined_rules) (simp_all add: lx_frame)

lemma aside_undo_heir [simp]: "aside k k1 \<Longrightarrow> aside k (undo_heir E to heir k1)"
  by (simp add: undo_heir_def Let_def split_def split: option.split)

lemma rename_in_table_settled: "settled E k (rename_in_table E from to flags ex heir k)"
  unfolding rename_in_table_def Let_def
  by (intro settled_rules) simp_all

lemma aside_move_to_heir: "aside k (snd (move_to_heir E to k))"
  by (simp add: move_to_heir_def Let_def split_def split: option.split)

lemma rename_with_links_settled: "settled E k (rename_with_links E r from to fa k)"
  unfolding rename_with_links_def Let_def
  by (intro settled_from [OF _ rename_in_table_settled] settled_rules) (simp_all add: aside_move_to_heir)

lemma emulate_link_settled: "settled E k (emulate_link E src dst k)"
  unfolding emulate_link_def
  by (intro settled_from [OF _ add_alias_settled] settled_rules) simp_all

lemma two_paths_done_confined:
  assumes "reaches (ks_mounts k) ps" "reaches (ks_mounts k) pd"
  shows "confined E k (Some (two_paths_done E r a1 a2 mm fa src dst ps pd k))"
proof -
  have m: "aside k (k_upd_meta f k)" for f by simp
  have "confined E k (Some (rename_with_links E r ps pd fa (k_upd_meta f k)))" for f
    by (rule settled_confined [OF settled_from [OF m rename_with_links_settled]])
  moreover have "confined E k (Some (emulate_link E ps pd k1))" if "aside k k1" for k1
    by (rule settled_confined [OF settled_from [OF that emulate_link_settled]])
  ultimately show ?thesis
    using assms aside_mounts [OF aside_links_work [of k E pd]]
    by (auto simp: two_paths_done_def Let_def split_def aside_keeps intro!: confined_ret)
qed

lemma first_refusal_None: "first_refusal rs = None \<longleftrightarrow> list_all (\<lambda>(c, e). \<not> c) rs"
  by (induction rs rule: first_refusal.induct) auto

lemma reason_None [simp]: "fst (reason w) \<longleftrightarrow> w \<noteq> None"
  by (simp add: reason_def split: option.split)

lemma pair_backed: "virtual_pair_refusal ms mm src dst ps pd = None \<Longrightarrow> pc_host ps \<noteq> [] \<and> pc_host pd \<noteq> []"
  by (auto simp: virtual_pair_refusal_def Let_def first_refusal_None simp del: first_refusal.simps split: if_splits)

lemma frame_walk [lx_frame]: "frame k (snd (walk_refusal E r a1 a2 at mm src dst ps pd k))"
  by (simp add: walk_refusal_def Let_def split_def frame_dot_prefix frame_trans [OF frame_dot_prefix frame_dot_prefix])

lemma confined_classify2:
  assumes "kst_ok E k" "canonical_path ap"
    and "\<And>pc k1. served (ks_mounts k1) pc \<Longrightarrow> kst_ok E k1 \<Longrightarrow> ks_mounts k1 = ks_mounts k \<Longrightarrow> confined E k1 (g pc k1)"
  shows "confined E k (case (if mm then k_classify_name E else k_classify E) ap w fo wi k of (pc, k') \<Rightarrow> g pc k')"
proof (cases mm)
  case True
  let ?k = "snd (k_classify_name E ap w fo wi k)"
  have "kst_ok E ?k" using assms(1) proc_clean_procs [of ?k k E] by (simp add: kst_ok_def links_ok_def names_ok_def)
  with assms(3) [of ?k "fst (k_classify_name E ap w fo wi k)"] k_classify_name_served [OF assms(1,2), of w fo wi]
  have "confined E ?k (g (fst (k_classify_name E ap w fo wi k)) ?k)" by simp
  moreover have "keeps k ?k" by (simp add: keeps_def names_ok_def)
  ultimately show ?thesis using True by (auto simp: confined_def split_def intro: keeps_trans)
next
  case False
  then show ?thesis unfolding if_not_P [OF False] by (intro confined_classify [OF assms])
qed

lemma link_source_confined:
  "kst_ok E k \<Longrightarrow> (\<And>fd k1. kst_ok E k1 \<Longrightarrow> confined E k1 (g fd k1)) \<Longrightarrow>
   confined E k (link_source_fd E r a1 at fa k \<bind> (\<lambda>(fd, k). g fd k))"
  by (rule confined_bind [where P = "\<lambda>_. True"])
    (auto simp: link_source_fd_def split: option.splits if_splits intro: lx_frame)

lemma two_paths_if_confined:
  assumes "kst_ok E k" "served (ks_mounts k) ps" "served (ks_mounts k) pd"
  shows "confined E k (Some (case first_refusal (rs @ [reason (virtual_pair_refusal ms mm src dst ps pd)]) of
            Some e \<Rightarrow> (eno e, k) | None \<Rightarrow> two_paths_done E r a1 a2 mm fa src dst (pc_host ps) (pc_host pd) k))"
  using assms class_reaches [OF assms(2)] class_reaches [OF assms(3)]
  by (auto simp: first_refusal_None split_def dest!: pair_backed
      intro!: two_paths_done_confined confined_refused split: option.split)

lemma path_mut2_confined [lx_confined]: "kst_ok E k \<Longrightarrow> confined E k (path_mut2 E r a1 a2 at mm la ra k)"
  unfolding path_mut2_def Let_def append_assoc [symmetric]
  by (intro link_source_confined link_from_fd_confined confined_classify2 two_paths_if_confined confined_rules)
    (simp_all add: lx_frame)

section \<open>Symbolic links and sockets\<close>

lemma confined_symlink_name:
  "kst_ok E k \<Longrightarrow> (\<And>ap k1. canonical_path ap \<Longrightarrow> kst_ok E k1 \<Longrightarrow> confined E k1 (g ap k1)) \<Longrightarrow>
   confined E k (symlink_name E r i at k \<bind> (\<lambda>(ap, k). g ap k))"
  by (rule confined_bind [where P = canonical_path])
    (auto simp: symlink_name_def split: if_splits intro: lx_frame dest: resolve_second_canonical k_absolutize_canonical)

lemma path_symlink_confined [lx_confined]: "kst_ok E k \<Longrightarrow> confined E k (path_symlink E r ta la at k)"
  unfolding path_symlink_def Let_def
  by (intro confined_symlink_name confined_rules) (auto simp: lx_frame class_reaches split: option.split)

text \<open>The path in the address of a local socket.\<close>

definition sun_path :: "('h, 'd, 'm) backend \<Rightarrow> regs \<Rightarrow> ('h, 'm) kst \<Rightarrow> string" where
  "sun_path E r k =
     (case copy_in (be_mem E) (arg r 1 + 2) (min (unat (arg r 2) - 2) 108) (ks_mem k) of
        None \<Rightarrow> [] | Some pb \<Rightarrow> chars (takeWhile (\<lambda>b. b \<noteq> 0) pb))"

text \<open>An absolute one is normalized.  \<open>do_sockaddr_un\<close> classifies it as it is.\<close>

definition sock_clean :: "('h, 'd, 'm) backend \<Rightarrow> regs \<Rightarrow> ('h, 'm) kst \<Rightarrow> bool" where
  "sock_clean E r k \<longleftrightarrow> (let p = sun_path E r k in p \<noteq> [] \<and> hd p = slash \<longrightarrow> canonical_path p)"

lemma aside_placeholder [simp]: "aside k (leave_placeholder E gp k)"
  by (simp add: leave_placeholder_def Let_def split_def)

lemma sock_abstract_settled: "settled E k (sock_abstract E a fb gp k)"
  by (simp add: sock_abstract_def Let_def) (simp add: fate_confined_def)

lemma sock_rewrite_confined: "served_path (ks_mounts k) p \<Longrightarrow> fate_confined E k (SockRewrite a p i n)"
  by (simp add: fate_confined_def)

lemma unlink_mounts [simp]: "ks_mounts (snd (k_unlink E p k)) = ks_mounts k"
  by (rule aside_mounts) simp

lemma confined_some_classify:
  assumes "kst_ok E k" "canonical_path ap"
    and "\<And>pc k1. served (ks_mounts k1) pc \<Longrightarrow> kst_ok E k1 \<Longrightarrow> ks_mounts k1 = ks_mounts k \<Longrightarrow> confined E k1 (Some (g pc k1))"
  shows "confined E k (Some (case k_classify E ap w fo wi k of (pc, k') \<Rightarrow> g pc k'))"
  using confined_classify [OF assms(1,2), of "\<lambda>pc k. Some (g pc k)" w fo wi] assms(3) by (simp add: split_def)

lemma sock_in_tree_confined:
  "kst_ok E k \<Longrightarrow> canonical_path gp \<Longrightarrow> confined E k (Some (sock_in_tree E a fb gp k))"
  unfolding sock_in_tree_def Let_def
  by (intro confined_some_classify confined_rules sock_rewrite_confined)
    (simp_all add: served_hostD(2) aside_keeps)

lemma do_sockaddr_un_confined [lx_confined]:
  assumes "kst_ok E k" "sock_clean E r k"
  shows "confined E k (do_sockaddr_un E r fb k)"
proof -
  have "canonical_path (chars (takeWhile (\<lambda>b. b \<noteq> 0) pb))"
    if "copy_in (be_mem E) (arg r 1 + 2) (min (unat (arg r 2) - 2) 108) (ks_mem k) = Some pb"
      "chars (takeWhile (\<lambda>b. b \<noteq> 0) pb) \<noteq> []" "hd (chars (takeWhile (\<lambda>b. b \<noteq> 0) pb)) = slash" for pb
    using assms(2) that by (simp add: sock_clean_def sun_path_def)
  then show ?thesis
    unfolding do_sockaddr_un_def Let_def
    using assms(1) k_absolutize_canonical
    by (intro settled_confined [OF sock_abstract_settled] sock_in_tree_confined confined_rules)
      (auto split: if_splits)
qed

section \<open>The dispatcher\<close>

lemma enter_task_ok: "kst_ok E k \<Longrightarrow> kst_ok E (enter_task E k)" "keeps k (enter_task E k)"
  by (simp_all add: enter_task_def Let_def kst_ok_ps keeps_ps paths_ok_enter)

lemma enter_task_mem: "sock_clean E r (enter_task E k) \<longleftrightarrow> sock_clean E r k"
  by (simp add: sock_clean_def sun_path_def enter_task_def Let_def k_upd_ps_def)

definition handler_ok :: "('h, 'd, 'm) backend \<Rightarrow> sysno \<times> ('h, 'm) handler \<Rightarrow> bool" where
  "handler_ok E x \<longleftrightarrow>
     (\<forall>r k. kst_ok E k \<longrightarrow> (fst x \<in> {SYS_bind, SYS_connect} \<longrightarrow> sock_clean E r k) \<longrightarrow> confined E k (snd x r k))"

lemma handler_ok_fixed: "list_all (handler_ok E) fixed_handlers"
  by (auto simp: fixed_handlers_def list_all_iff handler_ok_def answers_def confined_refused)

lemma answers_confined: "(\<And>r k. fate_confined E k (f r)) \<Longrightarrow> handler_ok E (s, answers f)"
  by (simp add: handler_ok_def answers_def confined_def)

lemma looks_confined: "(\<And>r k. fate_confined E k (f r k)) \<Longrightarrow> handler_ok E (s, looks f)"
  by (simp add: handler_ok_def looks_def confined_def)

lemma returns_confined: "(\<And>r k. kst_ok E k \<Longrightarrow> confined E k (Some (f r k))) \<Longrightarrow> handler_ok E (s, returns f)"
  by (simp add: handler_ok_def returns_def)

lemma handler_okI:
  "(\<And>r k. kst_ok E k \<Longrightarrow> s \<noteq> SYS_bind \<and> s \<noteq> SYS_connect \<or> sock_clean E r k \<Longrightarrow> confined E k (h r k)) \<Longrightarrow> handler_ok E (s, h)"
  by (auto simp: handler_ok_def)

lemma handler_ok_task: "list_all (handler_ok E) (task_handlers E)"
  by (simp add: task_handlers_def answers_confined looks_confined returns_confined lx_confined handler_okI)

lemma handler_ok_lookup: "list_all (handler_ok E) (lookup_handlers E)"
  unfolding lookup_handlers_def path_open_def path_openat2_def
  by (simp add: answers_confined looks_confined returns_confined lx_confined handler_okI Let_def)

lemma handler_ok_xattr: "list_all (handler_ok E) (xattr_handlers E)"
  by (simp add: xattr_handlers_def answers_confined looks_confined returns_confined lx_confined handler_okI)

lemma handler_ok_sock: "handler_ok E (SYS_bind, \<lambda>r. do_sockaddr_un E r b)" "handler_ok E (SYS_connect, \<lambda>r. do_sockaddr_un E r b)"
  by (simp_all add: handler_ok_def do_sockaddr_un_confined)

lemma handler_ok_mutation: "list_all (handler_ok E) (mutation_handlers E)"
  by (simp add: mutation_handlers_def answers_confined looks_confined returns_confined lx_confined handler_okI handler_ok_sock)

lemma dispatch_call_confined:
  assumes "kst_ok E k" "sc \<in> {SYS_bind, SYS_connect} \<longrightarrow> sock_clean E r k"
  shows "confined E k (dispatch_call E sc r k)"
proof -
  let ?k = "enter_task E k"
  have k: "kst_ok E ?k" "keeps k ?k" using enter_task_ok assms(1) by blast+
  have ok: "list_all (handler_ok E) (handlers E)"
    by (simp add: handlers_def handler_ok_fixed handler_ok_task handler_ok_lookup handler_ok_xattr handler_ok_mutation)
  have "confined E ?k (h r ?k)" if "map_of (handlers E) sc = Some h" for h
  proof -
    have "handler_ok E (sc, h)" using ok map_of_SomeD [OF that] by (auto simp: list_all_iff)
    then show ?thesis using k(1) assms(2) by (auto simp: handler_ok_def enter_task_mem)
  qed
  then show ?thesis
    using k(2) by (auto simp: dispatch_call_def confined_def split: option.split intro: keeps_trans)
qed

section \<open>What the dispatcher guarantees\<close>

text \<open>A call whose socket address, if it has one, is clean.\<close>

definition call_clean :: "('h, 'd, 'm) backend \<Rightarrow> regs \<Rightarrow> ('h, 'm) kst \<Rightarrow> bool" where
  "call_clean E r k \<longleftrightarrow> (decode (be_arch E) (unat (reg_nr r)) \<in> {SYS_bind, SYS_connect} \<longrightarrow> sock_clean E r k)"

lemma dispatch_ok:
  "kst_ok E k \<Longrightarrow> call_clean E r k \<Longrightarrow> dispatch E r k = Some (f, k') \<Longrightarrow> fate_confined E k' f \<and> keeps k k'"
  using dispatch_call_confined [of E k "decode (be_arch E) (unat (reg_nr r))" r]
  by (simp add: dispatch_def call_clean_def confined_def)


definition demo_exe :: "(demo_fs, string, regions) backend" where
  "demo_exe = demo_backend\<lparr>be_exe_of_pid := Some (\<lambda>_. ''/a'')\<rparr>"

lemma demo_kst_ok: "kst_ok demo_exe (demo_kst m)"
proof -
  have "paths_ok ps_init"
    by (simp add: paths_ok_def ps_ok_def ps_init_def canonical_root tab_ok_empty)
  then have "paths_ok (set_current_pid 5 1 ps_init)" by (rule paths_ok_enter)
  moreover have "list_all mount_ok link_mounts" by code_simp
  moreover have "canonical_path ''/a''" by code_simp
  ultimately show ?thesis
    by (simp add: kst_ok_def demo_kst_def links_ok_def names_ok_def proc_clean_def exe_of_def demo_exe_def demo_backend_def
        lt_empty_table_def backing_of_def)
qed

definition demo_call :: "nat \<Rightarrow> u64 list \<Rightarrow> regs" where
  "demo_call nr xs = \<lparr>reg_arg = xs, reg_nr = of_nat nr\<rparr>"

lemmas handler_tables = handlers_def fixed_handlers_def task_handlers_def lookup_handlers_def xattr_handlers_def
  mutation_handlers_def forwarded_calls_def refused_calls_def accepted_calls_def

lemma dispatch_handler:
  "decode (be_arch E) (unat (reg_nr r)) = sc \<Longrightarrow> map_of (handlers E) sc = Some h \<Longrightarrow> dispatch E r k = h r (enter_task E k)"
  by (simp add: dispatch_def dispatch_call_def)

lemma access_handler: "map_of (handlers E) SYS_access = Some (\<lambda>r. path_at E r 0 False)"
  by (simp add: handler_tables)

lemma demo_access:
  "map_option fst (dispatch demo_exe (demo_call 21 [0x1000, 0]) (demo_kst (demo_text ''/a''))) = Some (redirect_to 0 ''/lo/b'')"
proof -
  have "decode (be_arch demo_exe) (unat (reg_nr (demo_call 21 [0x1000, 0]))) = SYS_access" by code_simp
  moreover have "map_option fst (path_at demo_exe (demo_call 21 [0x1000, 0]) 0 False (enter_task demo_exe (demo_kst (demo_text ''/a''))))
      = Some (redirect_to 0 ''/lo/b'')" by code_simp
  ultimately show ?thesis by (simp add: dispatch_handler [OF _ access_handler])
qed


text \<open>Without that condition a guest leaves the layers: \<open>connect\<close> to \<open>/../x\<close> is sent to \<open>x\<close> beside the
  root of the layer.\<close>

lemma sock_dotdot_leaves_layers:
  "map_option fst (do_sockaddr_un demo_exe (demo_call 42 [3, 0x1000, 12]) False
     (demo_kst (demo_text (CHR 0x01 # CHR 0x00 # ''/../x''))))
   = Some (SockRewrite 0x1002 ''/lo/../x'' 2 11)"
  by code_simp

end
