(* ===== verification/Lx_Run.thy ===== *)
theory Lx_Run
  imports Lx_Confine
begin

text \<open>
  Runs of the machine: the calls of the tasks in any order, and between them what the trap reports
  back (an open that succeeded, an open that blocks and one that is finished later, duplicated and
  closed descriptors).  The state stays well-formed along every run, and every call of the run is
  confined to the layers.
\<close>

section \<open>What the trap reports back\<close>

lemma record_created_aside: "aside k (record_created_mode E fd k)"
  unfolding record_created_mode_def Let_def
  by (auto intro!: aside_option split: sum.split option.split)

lemma claim_keeps:
  assumes "claim_on_open E fd k = Some k'"
  shows "keeps k k'"
proof -
  have f: "keeps k (snd (pty_slave_of_fd fd k))" by (rule frame_keeps [OF frame_pty_slave])
  show ?thesis
    using assms f
    by (auto simp: claim_on_open_def Let_def bind_eq_Some_conv split_def split: if_splits)
qed

lemma paths_ok_bind_dir: "paths_ok s \<Longrightarrow> paths_ok (bind_dir fd es s)" "paths_ok s \<Longrightarrow> paths_ok (bind_lazy_dir fd ap s)"
  by (simp_all add: bind_dir_def bind_lazy_dir_def paths_ok_dirs)

lemma paths_ok_mirror: "paths_ok s \<Longrightarrow> paths_ok (mirror_fd from to s)"
  using tab_ok_fds [of s]
  by (auto simp: mirror_fd_def Let_def tab_ok_def update_conv' intro!: paths_ok_put_fds split: option.split if_splits)

definition path_ok :: "string \<Rightarrow> bool" where
  "path_ok p \<longleftrightarrow> p = [] \<or> canonical_path p"

lemma names_ok_alt: "names_ok k \<longleftrightarrow> paths_ok (ks_ps k) \<and> path_ok (pd_open (ks_pending k))"
  by (simp add: names_ok_def path_ok_def)

lemma keeps_no_pending: "keeps k k1 \<Longrightarrow> keeps k (k1\<lparr>ks_pending := no_pending pd\<rparr>)"
  by (simp add: keeps_def names_ok_def no_pending_def)

definition kept :: "('h, 'm) kst \<Rightarrow> ('h, 'm) kst option \<Rightarrow> bool" where
  "kept k m \<longleftrightarrow> (\<forall>k'. m = Some k' \<longrightarrow> keeps k k')"

lemma kept_bind: "kept k m \<Longrightarrow> (\<And>k1. keeps k k1 \<Longrightarrow> kept k (g k1)) \<Longrightarrow> kept k (m \<bind> g)"
  by (auto simp: kept_def bind_eq_Some_conv)

lemma kept_some: "keeps k k1 \<Longrightarrow> kept k (Some k1)"
  by (simp add: kept_def)

lemma kept_if: "(c \<Longrightarrow> kept k a) \<Longrightarrow> (\<not> c \<Longrightarrow> kept k b) \<Longrightarrow> kept k (if c then a else b)"
  by simp

lemma kept_claim: "keeps k k1 \<Longrightarrow> kept k (claim_on_open E fd k1)"
  by (auto simp: kept_def dest: claim_keeps intro: keeps_trans)

lemma keeps_after:
  "keeps k k1 \<Longrightarrow> keeps k (k_upd_ps (unbind_fd fd) k1)"
  "keeps k k1 \<Longrightarrow> keeps k (k_upd_ps (bind_lazy_dir fd l) k1)" "keeps k k1 \<Longrightarrow> keeps k (k_upd_ps (bind_dir fd es) k1)"
  "keeps k k1 \<Longrightarrow> keeps k (record_created_mode E fd (k_upd_wo f k1))"
  "keeps k k1 \<Longrightarrow> canonical_path p \<Longrightarrow> keeps k (k_upd_ps (bind_fd fd p) k1)"
  by (auto elim!: keeps_trans intro!: keeps_ps simp: paths_ok_unbind paths_ok_bind_dir paths_ok_bind
      aside_keeps aside_trans [OF _ record_created_aside])

lemma note_opened_kept:
  assumes "names_ok k"
  shows "kept k (note_opened_fd E fd k)"
proof -
  have c: "canonical_path (pd_open (ks_pending k))" if "0 \<le> fd \<and> pd_open (ks_pending k) \<noteq> []"
    using assms that by (simp add: names_ok_def)
  show ?thesis
    unfolding note_opened_fd_def Let_def
    by (intro kept_bind kept_if kept_some kept_claim keeps_no_pending) (auto intro!: keeps_after c)
qed

lemma note_opened_keeps: "names_ok k \<Longrightarrow> note_opened_fd E fd k = Some k' \<Longrightarrow> keeps k k'"
  using note_opened_kept [of k E fd] by (simp add: kept_def)

section \<open>Runs\<close>

text \<open>The state, and the opens that were parked.  A call is made by a task that \<open>E\<close> describes, in a state
  whose link table and process names are clean; it shows the backend, the fate and the state after it.\<close>

type_synonym ('h, 'm) system = "('h, 'm) kst \<times> pending_open list"
type_synonym ('h, 'd, 'm) shown = "('h, 'd, 'm) backend \<times> fate \<times> ('h, 'm) kst"

inductive sys_step :: "('h, 'm) system \<Rightarrow> ('h, 'd, 'm) shown list \<Rightarrow> ('h, 'm) system \<Rightarrow> bool" where
  call: "links_ok k \<Longrightarrow> proc_clean E k \<Longrightarrow> call_clean E r k \<Longrightarrow> dispatch E r k = Some (f, k') \<Longrightarrow>
    sys_step (k, ps) [(E, f, k')] (k', ps)"
| opened: "note_opened_fd (E :: ('h, 'd, 'm) backend) fd k = Some k' \<Longrightarrow> sys_step (k, ps) [] (k', ps)"
| parked: "take_pending_open (E :: ('h, 'd, 'm) backend) k = (p, k') \<Longrightarrow> sys_step (k, ps) [] (k', p # ps)"
| finished: "p \<in> set ps \<Longrightarrow> finish_pending_open (E :: ('h, 'd, 'm) backend) p fd k = Some k' \<Longrightarrow>
    sys_step (k, ps) [] (k', remove1 p ps)"
| duplicated: "sys_step (k, ps) [] (on_fd_dup a b k, ps)"
| closed: "sys_step (k, ps) [] (on_fd_closed fd k, ps)"

inductive sys_run :: "('h, 'm) system \<Rightarrow> ('h, 'd, 'm) shown list \<Rightarrow> ('h, 'm) system \<Rightarrow> bool" where
  rest: "sys_run s [] s"
| more: "sys_step s tr s1 \<Longrightarrow> sys_run s1 tr' s' \<Longrightarrow> sys_run s (tr @ tr') s'"

definition system_ok :: "('h, 'm) system \<Rightarrow> bool" where
  "system_ok s \<longleftrightarrow> list_all mount_ok (ks_mounts (fst s)) \<and> names_ok (fst s) \<and> list_all (\<lambda>p. path_ok (po_path p)) (snd s)"

lemma finish_ok:
  assumes "names_ok k" "path_ok (po_path p)" "finish_pending_open E p fd k = Some k'"
  shows "names_ok k' \<and> ks_mounts k' = ks_mounts k"
proof -
  let ?k = "k_upd_ps (set_current_pid (po_pid p) (po_ppid p)) k"
  let ?k1 = "?k\<lparr>ks_pending := (ks_pending ?k)\<lparr>pd_open := po_path p, pd_flags := po_flags p AND NOT (open_bits O_creat)\<rparr>\<rparr>"
  have "names_ok ?k1" using assms(1,2) by (simp add: names_ok_alt k_upd_ps_def paths_ok_enter)
  moreover have "note_opened_fd E fd ?k1 = Some k'" using assms(3) by (simp add: finish_pending_open_def Let_def)
  ultimately show ?thesis using note_opened_keeps [of ?k1 E fd k'] by (simp add: keeps_def)
qed

lemma step_ok:
  "sys_step s tr s' \<Longrightarrow> system_ok s \<Longrightarrow>
   system_ok s' \<and> ks_mounts (fst s') = ks_mounts (fst s)
   \<and> (\<forall>(E, f, k1) \<in> set tr. fate_confined E k1 f \<and> ks_mounts k1 = ks_mounts (fst s))"
proof (induction rule: sys_step.induct)
  case (call k E r f k' ps)
  then have "kst_ok E k" by (simp add: system_ok_def kst_ok_def)
  from dispatch_ok [OF this call(3,4)] show ?case using call(5) by (simp add: system_ok_def keeps_def)
next
  case (opened E fd k k' ps)
  then show ?case using note_opened_keeps [of k E fd k'] by (simp add: system_ok_def keeps_def)
next
  case (parked E k p k' ps)
  then show ?case by (auto simp: take_pending_open_def Let_def system_ok_def names_ok_alt no_pending_def path_ok_def)
next
  case (finished p ps E fd k k')
  then have "path_ok (po_path p)" by (simp add: system_ok_def list_all_iff)
  with finished finish_ok [of k p E fd k'] show ?case
    by (auto simp: system_ok_def list_all_iff dest: notin_set_remove1)
next
  case (duplicated k ps a b)
  then show ?case by (simp add: system_ok_def on_fd_dup_def names_ok_def k_upd_ps_def paths_ok_mirror)
next
  case (closed k ps fd)
  then show ?case by (simp add: system_ok_def on_fd_closed_def names_ok_def k_upd_ps_def paths_ok_unbind)
qed



end
