(* ===== verification/Lx_Reads.thy ===== *)
theory Lx_Reads
  imports Lx_Confine
begin

text \<open>
  Two families of calls whose effect the dispatcher decides alone.  Calls that only look, an open
  without write flags among them, leave the tree and the process table as they are.  Calls the kernel
  refuses, and calls with an empty path, are answered at once.
\<close>

section \<open>Calls that only look\<close>

definition still :: "('h, 'm) kst \<Rightarrow> ('h, 'm) kst \<Rightarrow> bool" where
  "still k k' \<longleftrightarrow> ks_files k' = ks_files k \<and> ks_procs k' = ks_procs k"

definition quiet :: "('h, 'm) kst \<Rightarrow> ('h, 'm) handled \<Rightarrow> bool" where
  "quiet k m \<longleftrightarrow> (\<forall>f k'. m = Some (f, k') \<longrightarrow> still k k')"

named_theorems lx_quiet "handlers that change neither the tree nor the process table"

lemma still_refl [simp]: "still k k"
  by (simp add: still_def)

lemma frame_still: "frame k k' \<Longrightarrow> still k k'"
  by (simp add: frame_def still_def)

lemma still_simps [simp]:
  "still k (k1\<lparr>ks_mem := m\<rparr>) \<longleftrightarrow> still k k1" "still k (k1\<lparr>ks_pending := pd\<rparr>) \<longleftrightarrow> still k k1"
  "still k (k1\<lparr>ks_guest_mounts := gm\<rparr>) \<longleftrightarrow> still k k1" "still k (k1\<lparr>ks_ps := ps\<rparr>) \<longleftrightarrow> still k k1"
  "still k (k1\<lparr>ks_ps := ps, ks_mem := m\<rparr>) \<longleftrightarrow> still k k1" "still k (k_upd_ps f k1) \<longleftrightarrow> still k k1"
  by (simp_all add: still_def k_upd_ps_def)

lemma quiet_ret: "still k k' \<Longrightarrow> quiet k (Some (f, k'))"
  by (simp add: quiet_def)

lemma quiet_pair: "frame k (snd x) \<Longrightarrow> quiet k (Some x)"
  by (cases x) (simp add: quiet_def frame_still)

lemma quiet_if: "(c \<Longrightarrow> quiet k a) \<Longrightarrow> (\<not> c \<Longrightarrow> quiet k b) \<Longrightarrow> quiet k (if c then a else b)"
  by simp

lemma quiet_case:
  "(z = None \<Longrightarrow> quiet k a) \<Longrightarrow> (\<And>v. z = Some v \<Longrightarrow> quiet k (g v)) \<Longrightarrow> quiet k (case z of None \<Rightarrow> a | Some v \<Rightarrow> g v)"
  "(\<And>e. y = Inl e \<Longrightarrow> quiet k (b e)) \<Longrightarrow> (\<And>v. y = Inr v \<Longrightarrow> quiet k (h v)) \<Longrightarrow>
   quiet k (case y of Inl e \<Rightarrow> b e | Inr v \<Rightarrow> h v)"
  "quiet k m1 \<Longrightarrow> quiet k m2 \<Longrightarrow> quiet k m3 \<Longrightarrow> quiet k (case rl of Rhost \<Rightarrow> m1 | Rvirtual \<Rightarrow> m2 | Rabsent \<Rightarrow> m3)"
  by (simp_all split: option.split sum.split realm.split)

lemma quiet_some:
  "(c \<Longrightarrow> quiet k (Some x)) \<Longrightarrow> (\<not> c \<Longrightarrow> quiet k (Some y)) \<Longrightarrow> quiet k (Some (if c then x else y))"
  "(z = None \<Longrightarrow> quiet k (Some x)) \<Longrightarrow> (\<And>v. z = Some v \<Longrightarrow> quiet k (Some (g v))) \<Longrightarrow>
   quiet k (Some (case z of None \<Rightarrow> x | Some v \<Rightarrow> g v))"
  by (simp_all split: option.split)

lemma still_trans: "still k k1 \<Longrightarrow> still k1 k2 \<Longrightarrow> still k k2"
  by (simp add: still_def)

lemma quiet_from: "still k k1 \<Longrightarrow> quiet k1 m \<Longrightarrow> quiet k m"
  unfolding quiet_def using still_trans by blast

lemma quiet_split:
  "still k (snd x) \<Longrightarrow> (\<And>v k1. quiet k1 (g v k1)) \<Longrightarrow> quiet k (case x of (v, k') \<Rightarrow> g v k')"
  by (simp add: split_def quiet_from)

lemma quiet_some_split:
  "still k (snd x) \<Longrightarrow> (\<And>v k1. quiet k1 (Some (g v k1))) \<Longrightarrow> quiet k (Some (case x of (v, k') \<Rightarrow> g v k'))"
  by (simp add: split_def quiet_from)

lemma quiet_bind:
  "(\<And>v k1. m = Some (v, k1) \<Longrightarrow> frame k k1) \<Longrightarrow> (\<And>v k1. quiet k1 (g v k1)) \<Longrightarrow> quiet k (m \<bind> (\<lambda>(v, k). g v k))"
  by (cases m) (auto intro: quiet_from [OF frame_still] simp: quiet_def [of _ None])

lemma quiet_value: "(\<And>v. quiet k (g v)) \<Longrightarrow> quiet k (m \<bind> g)"
  by (auto simp: quiet_def bind_eq_Some_conv)

lemma quiet_lift: "quiet k (map_option (\<lambda>f. (f, k)) m)"
  by (auto simp: quiet_def)

lemma quiet_resolve:
  assumes "\<And>ap k1. quiet k1 (g ap k1)"
  shows "quiet k (resolve_arg E r i at fl k \<bind> (\<lambda>(ap, k). g ap k))"
    and "quiet k (resolve_raw E r raw at fl k \<bind> (\<lambda>(ap, k). g ap k))"
    and "quiet k (proc_symlink_target E p k \<bind> (\<lambda>(tgt, k). g tgt k))"
  using assms by (auto intro!: quiet_bind intro: lx_frame)

lemma classify_still [simp]: "snd (k_classify E ap False fo wi k) = k"
  by (simp add: k_classify_def classify_def classify_impl_def Let_def split_def classify_left_pure)

lemmas quiet_rules = quiet_ret quiet_if quiet_resolve quiet_split quiet_case quiet_some quiet_some_split quiet_lift
  quiet_pair quiet_value

lemma virtual_frame: "frame k (snd (readlink_virtual E b c ap k))"
  by simp

lemma path_lookups_quiet [lx_quiet]:
  "quiet k (path_at E r i at k)" "quiet k (path_watch E r i at k)" "quiet k (path_statfs E r k)"
  "quiet k (path_xattr E r False fo i at k)" "quiet k (path_exec E r i k)"
  unfolding path_at_def path_watch_def path_statfs_def path_xattr_def path_exec_def Let_def
  by (intro quiet_rules; simp add: lx_frame frame_still)+

lemma do_readlink_quiet [lx_quiet]: "quiet k (do_readlink E r i at k)"
  unfolding do_readlink_def Let_def
  by (intro quiet_rules) (simp_all add: lx_frame frame_still)

lemma virtual_stats_quiet: "quiet k (stat_virtual E i sb fo vp k)" "quiet k (statx_virtual E sb nf vp k)" "quiet k (statx_fd E r k)"
  unfolding stat_virtual_def statx_virtual_def statx_fd_def Let_def
  by (intro quiet_rules; simp add: lx_frame frame_still)+

lemma stats_quiet [lx_quiet]: "quiet k (path_stat E r i at fo k)" "quiet k (path_statx E r k)"
  unfolding path_stat_def path_statx_def Let_def
  by (intro quiet_rules virtual_stats_quiet; simp add: lx_frame frame_still)+

lemma directory_calls_quiet [lx_quiet]:
  "quiet k (do_chdir E r k)" "quiet k (do_chroot E r k)" "quiet k (Some (do_getcwd E r k))" "quiet k (Some (do_fstatfs E r k))"
  "quiet k (Some (do_fchdir r k))" "quiet k (Some (do_close r k))"
  unfolding do_chdir_def do_chroot_def do_getcwd_def do_fstatfs_def do_fchdir_def do_close_def Let_def
  by (intro quiet_rules; simp add: lx_frame frame_still)+

lemma streams_quiet [lx_quiet]: "quiet k (Some (k_getdents64 E r k))" "quiet k (Some (k_lseek E r k))"
  by (simp_all add: k_getdents64_def k_lseek_def split_def Let_def quiet_def)

lemma mounts_quiet [lx_quiet]: "quiet k (do_mount E r k)" "quiet k (do_umount2 E r k)"
  unfolding do_mount_def do_umount2_def Let_def
  by (intro quiet_rules; simp)+

lemma open_read_quiet:
  assumes "\<not> open_writable flags"
  shows "quiet k (path_open_flags E r i at flags k)"
proof -
  have h: "quiet k (Some (open_host E i flags ap host k))" "quiet k (Some (open_virtual E i flags ap k))" for ap host k
    using assms by (simp_all add: open_host_def open_virtual_def quiet_def Let_def split: sum.split)
  show ?thesis
    using assms unfolding path_open_flags_def Let_def
    by (intro h quiet_rules) (simp_all add: lx_frame frame_still)
qed

text \<open>The calls of the table that look, and the opens with their flags.\<close>

definition looking_calls :: "sysno list" where
  "looking_calls =
     [SYS_stat, SYS_lstat, SYS_newfstatat, SYS_statx, SYS_statfs, SYS_fstatfs, SYS_access, SYS_faccessat, SYS_faccessat2,
      SYS_readlink, SYS_readlinkat, SYS_getcwd, SYS_chdir, SYS_fchdir, SYS_chroot, SYS_getdents64, SYS_lseek, SYS_close,
      SYS_inotify_add_watch, SYS_fanotify_mark, SYS_execve, SYS_execveat, SYS_mount, SYS_umount2, SYS_getxattr, SYS_lgetxattr,
      SYS_listxattr, SYS_llistxattr, SYS_getxattrat, SYS_listxattrat]"

definition only_looks :: "sysno \<Rightarrow> regs \<Rightarrow> bool" where
  "only_looks sc r \<longleftrightarrow> sc \<in> set looking_calls
     \<or> sc = SYS_open \<and> \<not> open_writable (arg r 1) \<or> sc = SYS_openat \<and> \<not> open_writable (arg r 2)"

lemma looking_handler: "sc \<in> set looking_calls \<Longrightarrow> \<exists>h. map_of (handlers E) sc = Some h \<and> (\<forall>r k. quiet k (h r k))"
  by (simp only: looking_calls_def list.set insert_iff empty_iff)
    (elim disjE FalseE; simp add: handler_tables returns_def lx_quiet)

lemma open_handlers:
  "map_of (handlers E) SYS_open = Some (\<lambda>r. path_open E r 0 False)"
  "map_of (handlers E) SYS_openat = Some (\<lambda>r. path_open E r 1 True)"
  by (simp_all add: handler_tables)

text \<open>C3: A call that only looks (\<open>stat\<close>, \<open>access\<close>, \<open>readlink\<close>, \<open>execve\<close>, \<open>getdents64\<close>, \<open>chdir\<close>, reading
  attributes, and \<open>open\<close> or \<open>openat\<close> without a flag that writes) leaves the tree alone: no call that
  changes the host is issued, no whiteout, metadata record or link is touched, and the process table
  stays as it is.\<close>

theorem looking_changes_nothing:
  assumes "only_looks sc r" "dispatch_call E sc r k = Some (f, k')"
  shows "ks_files k' = ks_files k \<and> ks_procs k' = ks_procs k"
proof -
  have e: "still k (enter_task E k)" by (simp add: enter_task_def Let_def)
  have "quiet (enter_task E k) (dispatch_call E sc r k)"
    using assms(1) looking_handler [of sc E] unfolding only_looks_def
    by (auto simp: dispatch_call_def open_handlers path_open_def open_read_quiet numeral_2_eq_2)
  then have "still (enter_task E k) k'" using assms(2) by (simp add: quiet_def)
  with e show ?thesis by (simp add: still_def)
qed

lemma demo_still:
  "map_option fst (dispatch_call demo_exe SYS_access (demo_call 21 [0x1000, 0]) (demo_kst (demo_text ''/a''))) = Some (redirect_to 0 ''/lo/b'')"
proof -
  have "map_option fst (path_at demo_exe (demo_call 21 [0x1000, 0]) 0 False (enter_task demo_exe (demo_kst (demo_text ''/a''))))
      = Some (redirect_to 0 ''/lo/b'')" by code_simp
  then show ?thesis by (simp add: dispatch_call_def access_handler)
qed

theorem looking_changes_nothing_witness:
  "\<exists>k'. dispatch_call demo_exe SYS_access (demo_call 21 [0x1000, 0]) (demo_kst (demo_text ''/a'')) = Some (redirect_to 0 ''/lo/b'', k')
     \<and> ks_files k' = ks_files (demo_kst (demo_text ''/a''))"
proof -
  obtain k' where d: "dispatch_call demo_exe SYS_access (demo_call 21 [0x1000, 0]) (demo_kst (demo_text ''/a''))
      = Some (redirect_to 0 ''/lo/b'', k')"
    using demo_still by (auto simp: map_option_eq_Some)
  have "only_looks SYS_access (demo_call 21 [0x1000, 0])" by (simp add: only_looks_def looking_calls_def)
  from looking_changes_nothing [OF this d] d show ?thesis by blast
qed

section \<open>Refusals\<close>

text \<open>Calls with a path that must not be empty, and its position.\<close>

definition path_operand :: "(sysno \<times> nat) list" where
  "path_operand =
     [(SYS_creat, 0), (SYS_stat, 0), (SYS_lstat, 0), (SYS_access, 0), (SYS_readlink, 0), (SYS_statfs, 0),
      (SYS_execve, 0), (SYS_execveat, 1), (SYS_getxattr, 0), (SYS_setxattr, 0), (SYS_removexattr, 0), (SYS_listxattr, 0),
      (SYS_mkdir, 0), (SYS_mkdirat, 1), (SYS_mknod, 0), (SYS_mknodat, 1), (SYS_rmdir, 0), (SYS_unlink, 0), (SYS_unlinkat, 1),
      (SYS_truncate, 0), (SYS_chmod, 0), (SYS_fchmodat, 1), (SYS_chown, 0), (SYS_lchown, 0),
      (SYS_rename, 0), (SYS_renameat, 1), (SYS_renameat2, 1), (SYS_link, 0), (SYS_symlink, 1), (SYS_symlinkat, 2)]"

definition refuses_empty :: "('h, 'd, 'm) backend \<Rightarrow> sysno \<times> nat \<Rightarrow> bool" where
  "refuses_empty E x \<longleftrightarrow>
     (\<exists>h. map_of (handlers E) (fst x) = Some h
        \<and> (\<forall>r k. arg r (snd x) \<noteq> 0 \<longrightarrow> arg_cstr E r (snd x) k = [] \<longrightarrow> h r k = Some (eno ENOENT, k)))"

lemma empty_answers:
  assumes "arg r i \<noteq> 0" "arg_cstr E r i k = []"
  shows "\<not> has_at fl at_empty_path \<Longrightarrow> path_open_flags E r i at fl k = Some (eno ENOENT, k)"
    "path_stat E r i False fo k = Some (eno ENOENT, k)" "path_at E r i False k = Some (eno ENOENT, k)"
    "do_readlink E r i False k = Some (eno ENOENT, k)" "i = 0 \<Longrightarrow> path_statfs E r k = Some (eno ENOENT, k)"
    "path_exec E r i k = Some (eno ENOENT, k)" "path_xattr E r fw fo i at k = Some (eno ENOENT, k)"
    "path_mut E r i at wi sp rm k = Some (eno ENOENT, k)" "do_chmod_call E r i at False k = Some (eno ENOENT, k)"
    "do_chown E r i ua ga False fo k = Some (eno ENOENT, k)" "path_mut2 E r i a2 at mm None ra k = Some (eno ENOENT, k)"
    "path_symlink E r ta i at k = Some (eno ENOENT, k)"
  using assms
  by (simp_all add: path_open_flags_def path_stat_def path_syntax_def has_at_def path_at_def do_readlink_def path_statfs_def
      path_exec_def path_xattr_def path_mut_def do_chmod_call_def do_chown_def path_mut2_def link_source_fd_def
      path_symlink_def empty_path_arg_def null_path_arg_def Let_def)

lemma creat_not_empty: "\<not> has_at (open_bits O_creat OR open_bits O_wronly OR open_bits O_trunc) at_empty_path"
  by code_simp

lemma operands_refuse_empty: "x \<in> set path_operand \<Longrightarrow> refuses_empty E x"
  by (simp only: path_operand_def list.set insert_iff empty_iff)
    (elim disjE FalseE; simp add: refuses_empty_def handler_tables empty_answers creat_not_empty del: open_bits.simps)

lemma refused_handler: "(sc, e) \<in> set refused_calls \<Longrightarrow> map_of (handlers E) sc = Some (answers (\<lambda>_. eno e))"
  by (simp only: refused_calls_def list.map append.simps list.set insert_iff empty_iff Pair_inject)
    (elim disjE FalseE conjE; simp add: handler_tables)

lemma enter_task_cstr: "arg_cstr E r i (enter_task E k) = arg_cstr E r i k"
  by (simp add: k_cstr_def enter_task_def Let_def k_upd_ps_def)



end
