(* ===== verification/Spec2Isabelle.thy ===== *)
theory Spec2Isabelle
  imports Lx_FdSlots Lx_AddressSpace Lx_ProcTable Lx_Namespace Lx_Seccomp Lx_Stack Lx_Run Lx_Reads
begin

text \<open>
  A verification development for linuxity.
\<close>

end
